(* ===== verification/Prelude.thy ===== *)
theory Prelude
  imports Main "HOL-Library.Word"
begin

text \<open>
  Shared vocabulary of the development.

  \<^item> \<open>off64\<close> stands for \<open>off64_t\<close>. Signed overflow is undefined in C++, so offsets are
    unbounded integers; the places where the source computes with unsigned 64-bit values
    use \<open>64 word\<close> instead.
  \<^item> A memory cell is \<open>Some b\<close> once a byte has been stored in it and \<open>None\<close> while it is
    indeterminate (memory fresh from \<open>new char[n]\<close>).
  \<^item> \<open>seg\<close> and \<open>blit\<close> are the source and the destination side of \<open>memcpy\<close>.
  \<^item> \<open>fault\<close> lists the ways an operation of the source can fail to return normally, and
    \<open>bindM\<close> and its companions thread a state through operations that may do so.
  \<^item> \<open>keepsM I m\<close> says that \<open>m\<close> preserves the invariant \<open>I\<close>; its introduction rules are
    collected in \<open>keeps_intros\<close>, so that a handler's preservation proof follows its
    structure.
\<close>

named_theorems list_mem \<open>rewriting seg, blit and their lengths\<close>
named_theorems monad_simps \<open>unfolding of the state and fault monad\<close>
named_theorems keeps_intros \<open>invariant preservation, one rule per construct\<close>

type_synonym off64 = int
type_synonym byte = "8 word"
type_synonym cell = "byte option"
type_synonym path = string
type_synonym pid = int

section \<open>Memory blocks as lists\<close>

definition seg :: "nat \<Rightarrow> nat \<Rightarrow> 'a list \<Rightarrow> 'a list" where
  "seg i n xs = take n (drop i xs)"

definition blit :: "nat \<Rightarrow> 'a list \<Rightarrow> 'a list \<Rightarrow> 'a list" where
  "blit i xs buf = take i buf @ xs @ drop (i + length xs) buf"

lemma length_seg [list_mem]: "i + n \<le> length xs \<Longrightarrow> length (seg i n xs) = n"
  by (simp add: seg_def)

lemma length_seg_le: "length (seg i n xs) \<le> n"
  by (simp add: seg_def)

lemma length_blit [list_mem]: "i + length xs \<le> length buf \<Longrightarrow> length (blit i xs buf) = length buf"
  by (simp add: blit_def)

lemma nth_seg [list_mem]: "k < n \<Longrightarrow> i + n \<le> length xs \<Longrightarrow> seg i n xs ! k = xs ! (i + k)"
  by (simp add: seg_def)

lemma nth_seg_diff: "i \<le> j \<Longrightarrow> j < i + n \<Longrightarrow> i + n \<le> length xs \<Longrightarrow> seg i n xs ! (j - i) = xs ! j"
  using nth_seg [of "j - i" n i xs] by (simp add: less_diff_conv2)

lemma nth_blit [list_mem]:
  assumes "i + length xs \<le> length buf" and "k < length buf"
  shows "blit i xs buf ! k = (if i \<le> k \<and> k < i + length xs then xs ! (k - i) else buf ! k)"
  using assms by (auto simp: blit_def nth_append min_def)

lemma seg_0 [simp]: "seg i 0 xs = []"
  by (simp add: seg_def)

lemma blit_Nil [simp]: "blit i [] buf = buf"
  by (simp add: blit_def)

lemma seg_full [simp]: "seg 0 (length xs) xs = xs"
  by (simp add: seg_def)

lemma seg_eqI:
  assumes "i + n \<le> length xs" and "j + n \<le> length ys"
    and "\<And>k. k < n \<Longrightarrow> xs ! (i + k) = ys ! (j + k)"
  shows "seg i n xs = seg j n ys"
  using assms by (intro nth_equalityI) (simp_all add: list_mem)

lemma seg_blit_same [list_mem]:
  assumes "i + length xs \<le> length buf"
  shows "seg i (length xs) (blit i xs buf) = xs"
  using assms by (simp add: seg_def blit_def min_def)

lemma seg_blit_disjoint [list_mem]:
  assumes "i + length xs \<le> length buf" and "j + n \<le> length buf"
    and "j + n \<le> i \<or> i + length xs \<le> j"
  shows "seg j n (blit i xs buf) = seg j n buf"
  using assms by (intro seg_eqI) (auto simp: list_mem)

lemma seg_append_seg:
  "seg i n xs @ seg (i + n) m xs = seg i (n + m) xs"
  unfolding seg_def by (metis add.commute drop_drop take_add)

lemma seg_seg: "k + m \<le> n \<Longrightarrow> seg k m (seg i n xs) = seg (i + k) m xs"
  unfolding seg_def by (simp add: drop_take min_def ac_simps)

section \<open>Faults and the state monad\<close>

text \<open>
  \<open>ErrExit\<close> is the \<open>ERR_EXIT\<close> macro, which ends the process; \<open>Throws\<close> an exception that
  leaves the operation (its argument names the class); the other values are undefined
  behaviour of C++ that the model keeps apart from normal results.
\<close>

datatype fault =
    ErrExit
  | Throws string
  | NullDeref
  | OutOfBounds
  | Dangling
  | IteratorInvalid
  | Uninitialised
  | Blocked

type_synonym ('a, 's) comp = "'s \<Rightarrow> fault + ('a \<times> 's)"

definition returnM :: "'a \<Rightarrow> ('a, 's) comp" where
  "returnM x s = Inr (x, s)"

definition failM :: "fault \<Rightarrow> ('a, 's) comp" where
  "failM f s = Inl f"

definition bindM :: "('a, 's) comp \<Rightarrow> ('a \<Rightarrow> ('b, 's) comp) \<Rightarrow> ('b, 's) comp" where
  "bindM m k s = (case m s of Inl f \<Rightarrow> Inl f | Inr (x, t) \<Rightarrow> k x t)"

definition thenM :: "('a, 's) comp \<Rightarrow> ('b, 's) comp \<Rightarrow> ('b, 's) comp" where
  "thenM m k = bindM m (\<lambda>_. k)"

definition getsM :: "('s \<Rightarrow> 'a) \<Rightarrow> ('a, 's) comp" where
  "getsM g s = Inr (g s, s)"

definition modifyM :: "('s \<Rightarrow> 's) \<Rightarrow> (unit, 's) comp" where
  "modifyM g s = Inr ((), g s)"

definition liftM :: "fault + 'a \<Rightarrow> ('a, 's) comp" where
  "liftM r s = (case r of Inl f \<Rightarrow> Inl f | Inr x \<Rightarrow> Inr (x, s))"

definition optM :: "fault \<Rightarrow> 'a option \<Rightarrow> ('a, 's) comp" where
  "optM f r = (case r of None \<Rightarrow> failM f | Some x \<Rightarrow> returnM x)"

definition whenM :: "bool \<Rightarrow> (unit, 's) comp \<Rightarrow> (unit, 's) comp" where
  "whenM b m = (if b then m else returnM ())"

fun forM :: "('a \<Rightarrow> (unit, 's) comp) \<Rightarrow> 'a list \<Rightarrow> (unit, 's) comp" where
  "forM f [] = returnM ()"
| "forM f (x # xs) = thenM (f x) (forM f xs)"

declare returnM_def [monad_simps] failM_def [monad_simps] bindM_def [monad_simps]
  thenM_def [monad_simps] getsM_def [monad_simps] modifyM_def [monad_simps]
  liftM_def [monad_simps] optM_def [monad_simps] whenM_def [monad_simps]

lemma bindM_return [simp]: "bindM (returnM x) k = k x"
  by (rule ext) (simp add: monad_simps)

lemma bindM_fail [simp]: "bindM (failM f) k = failM f"
  by (rule ext) (simp add: monad_simps)

lemma bindM_assoc: "bindM (bindM m k) h = bindM m (\<lambda>x. bindM (k x) h)"
  by (rule ext) (simp add: monad_simps split: sum.splits)

lemma bindM_Inr_iff:
  "bindM m k s = Inr (y, u) \<longleftrightarrow> (\<exists>x t. m s = Inr (x, t) \<and> k x t = Inr (y, u))"
  by (auto simp: bindM_def split: sum.splits)

lemma bindM_run: "m s = Inr (x, t) \<Longrightarrow> bindM m k s = k x t"
  by (simp add: bindM_def)

lemma thenM_run: "m s = Inr (x, t) \<Longrightarrow> thenM m k s = k t"
  by (simp add: thenM_def bindM_run)

definition keepsM :: "('s \<Rightarrow> bool) \<Rightarrow> ('a, 's) comp \<Rightarrow> bool" where
  "keepsM I m \<longleftrightarrow> (\<forall>s x t. I s \<longrightarrow> m s = Inr (x, t) \<longrightarrow> I t)"

lemma keepsMI: "(\<And>s x t. I s \<Longrightarrow> m s = Inr (x, t) \<Longrightarrow> I t) \<Longrightarrow> keepsM I m"
  by (auto simp: keepsM_def)

lemma keepsMD: "keepsM I m \<Longrightarrow> I s \<Longrightarrow> m s = Inr (x, t) \<Longrightarrow> I t"
  by (auto simp: keepsM_def)

lemma keeps_return [keeps_intros]: "keepsM I (returnM x)"
  by (simp add: keepsM_def returnM_def)

lemma keeps_fail [keeps_intros]: "keepsM I (failM f)"
  by (simp add: keepsM_def failM_def)

lemma keeps_gets [keeps_intros]: "keepsM I (getsM g)"
  by (simp add: keepsM_def getsM_def)

lemma keeps_lift [keeps_intros]: "keepsM I (liftM r)"
  by (auto simp: keepsM_def liftM_def split: sum.splits)

lemma keeps_opt [keeps_intros]: "keepsM I (optM f r)"
  by (auto simp: keepsM_def optM_def returnM_def failM_def split: option.splits)

lemma keeps_bind [keeps_intros]: "keepsM I m \<Longrightarrow> (\<And>x. keepsM I (k x)) \<Longrightarrow> keepsM I (bindM m k)"
  by (rule keepsMI) (auto simp: bindM_Inr_iff dest: keepsMD)

lemma keeps_then [keeps_intros]: "keepsM I m \<Longrightarrow> keepsM I k \<Longrightarrow> keepsM I (thenM m k)"
  unfolding thenM_def by (rule keeps_bind)

lemma keeps_when [keeps_intros]: "keepsM I m \<Longrightarrow> keepsM I (whenM b m)"
  by (simp add: whenM_def keeps_return)

lemma keeps_if [keeps_intros]: "keepsM I m \<Longrightarrow> keepsM I k \<Longrightarrow> keepsM I (if b then m else k)"
  by simp

lemma keeps_modify: "(\<And>s. I s \<Longrightarrow> I (g s)) \<Longrightarrow> keepsM I (modifyM g)"
  by (auto simp: keepsM_def modifyM_def)

lemma keeps_forM [keeps_intros]: "(\<And>x. keepsM I (f x)) \<Longrightarrow> keepsM I (forM f xs)"
  by (induction xs) (simp_all add: keeps_return keeps_then)

lemma keeps_case_option [keeps_intros]:
  "keepsM I m \<Longrightarrow> (\<And>x. keepsM I (k x)) \<Longrightarrow> keepsM I (case r of None \<Rightarrow> m | Some x \<Rightarrow> k x)"
  by (cases r) simp_all

lemma keeps_case_prod [keeps_intros]:
  "(\<And>x y. keepsM I (k x y)) \<Longrightarrow> keepsM I (case p of (x, y) \<Rightarrow> k x y)"
  by (cases p) simp

lemma keeps_let [keeps_intros]: "(\<And>x. keepsM I (k x)) \<Longrightarrow> keepsM I (let x = v in k x)"
  by simp

end
