(* ===== verification/Text_Utils.thy ===== *)
theory Text_Utils
  imports Prelude
begin

text \<open>
  The operations of \<open>std::string\<close>, \<open>std::string_view\<close>, \<open>std::from_chars\<close> and of the
  formatted input and output functions that the sources use, on \<open>string\<close>.

  A position is a natural number and \<open>npos\<close> is \<open>None\<close>. The lemmas give the round trips of
  printing and parsing numbers on which the request formats rest.
\<close>

section \<open>Searching\<close>

definition newline :: char where
  "newline = CHR 0x0A"

definition text_find :: "string \<Rightarrow> string \<Rightarrow> nat \<Rightarrow> nat option" where
  "text_find s key pos =
     find (\<lambda>p. take (length key) (drop p s) = key) [pos..<Suc (length s) - length key]"

definition find_char :: "string \<Rightarrow> char \<Rightarrow> nat \<Rightarrow> nat option" where
  "find_char s c pos = find (\<lambda>p. s ! p = c) [pos..<length s]"

definition rfind_char :: "string \<Rightarrow> char \<Rightarrow> nat option" where
  "rfind_char s c = find (\<lambda>p. s ! p = c) (rev [0..<length s])"

definition find_first_not_of :: "string \<Rightarrow> char \<Rightarrow> nat \<Rightarrow> nat option" where
  "find_first_not_of s c pos = find (\<lambda>p. s ! p \<noteq> c) [pos..<length s]"

lemma find_Some_bounds:
  assumes "find P [i..<j] = Some k"
  shows "i \<le> k \<and> k < j \<and> P k"
  using assms by (auto simp: find_Some_iff)

lemma text_find_SomeD:
  assumes "text_find s key pos = Some p"
  shows "pos \<le> p" and "p + length key \<le> length s" and "take (length key) (drop p s) = key"
  using find_Some_bounds [OF assms [unfolded text_find_def]] by auto

lemma find_char_SomeD:
  assumes "find_char s c pos = Some p"
  shows "pos \<le> p" and "p < length s" and "s ! p = c"
  using find_Some_bounds [OF assms [unfolded find_char_def]] by auto

lemma find_char_first:
  assumes "find_char s c pos = Some p" and "pos \<le> i" and "i < p"
  shows "s ! i \<noteq> c"
proof -
  obtain k where k: "k < length [pos..<length s]" "s ! ([pos..<length s] ! k) = c"
    "[pos..<length s] ! k = p" "\<forall>j < k. s ! ([pos..<length s] ! j) \<noteq> c"
    using assms(1) by (auto simp: find_char_def find_Some_iff)
  then have "p = pos + k" by simp
  then show ?thesis using k(4) [rule_format, of "i - pos"] k(1) assms(2,3) by simp
qed

lemma rfind_char_SomeD:
  assumes "rfind_char s c = Some p"
  shows "p < length s" and "s ! p = c"
proof -
  have "p \<in> set (rev [0..<length s]) \<and> s ! p = c"
    using assms by (auto simp: rfind_char_def find_Some_iff simp del: set_rev)
  then show "p < length s" "s ! p = c" by auto
qed

section \<open>Lines and tokens\<close>

text \<open>\<open>getline(3)\<close>: each line with its newline; the last one may lack it.\<close>

function getlines :: "string \<Rightarrow> string list" where
  "getlines [] = []"
| "getlines (x # xs) =
     (let l = takeWhile (\<lambda>c. c \<noteq> newline) (x # xs)
      in case dropWhile (\<lambda>c. c \<noteq> newline) (x # xs) of
           [] \<Rightarrow> [l]
         | n # rest \<Rightarrow> (l @ [n]) # getlines rest)"
  by pat_completeness auto
termination
proof (relation "measure length")
  fix x :: char and xs l n rest
  assume d: "dropWhile (\<lambda>c. c \<noteq> newline) (x # xs) = n # rest"
  have "length (dropWhile (\<lambda>c. c \<noteq> newline) (x # xs)) \<le> length (x # xs)" by (rule length_dropWhile_le)
  then show "(rest, x # xs) \<in> measure length" using d by simp
qed simp

text \<open>\<open>std::getline\<close>: the lines without their newlines.\<close>

definition getlines_std :: "string \<Rightarrow> string list" where
  "getlines_std s = map (\<lambda>l. filter (\<lambda>c. c \<noteq> newline) l) (getlines s)"

lemma concat_getlines [simp]: "concat (getlines s) = s"
proof (induction s rule: getlines.induct)
  case (2 x xs)
  show ?case
  proof (cases "dropWhile (\<lambda>c. c \<noteq> newline) (x # xs)")
    case Nil
    then show ?thesis by (simp add: Let_def dropWhile_eq_Nil_conv split: if_splits)
  next
    case (Cons n rest)
    then have "getlines (x # xs) = (takeWhile (\<lambda>c. c \<noteq> newline) (x # xs) @ [n]) # getlines rest"
      by (simp add: Let_def)
    moreover have "concat (getlines rest) = rest" using 2 Cons by simp
    ultimately have "concat (getlines (x # xs)) =
        takeWhile (\<lambda>c. c \<noteq> newline) (x # xs) @ dropWhile (\<lambda>c. c \<noteq> newline) (x # xs)"
      using Cons by simp
    then show ?thesis by simp
  qed
qed simp

lemma getlines_append_line:
  assumes "newline \<notin> set l"
  shows "getlines (l @ newline # rest) = (l @ [newline]) # getlines rest"
proof -
  have "takeWhile (\<lambda>c. c \<noteq> newline) (l @ newline # rest) = l"
    "dropWhile (\<lambda>c. c \<noteq> newline) (l @ newline # rest) = newline # rest"
    using assms by (auto simp: takeWhile_append dropWhile_append)
  then show ?thesis by (cases l) (simp_all add: Let_def)
qed

definition is_space :: "char \<Rightarrow> bool" where
  "is_space c \<longleftrightarrow> c \<in> {CHR '' '', CHR 0x09, CHR 0x0A, CHR 0x0B, CHR 0x0C, CHR 0x0D}"

definition skip_space :: "string \<Rightarrow> string" where
  "skip_space s = dropWhile is_space s"

text \<open>\<open>>> token\<close> and the \<open>%s\<close> conversion: the next word and the text after it.\<close>

definition next_word :: "string \<Rightarrow> (string \<times> string) option" where
  "next_word s =
     (let t = skip_space s; w = takeWhile (\<lambda>c. \<not> is_space c) t
      in if w = [] then None else Some (w, dropWhile (\<lambda>c. \<not> is_space c) t))"

section \<open>Numbers\<close>

definition digit_char :: "nat \<Rightarrow> char" where
  "digit_char d = char_of (48 + d)"

definition is_digit :: "char \<Rightarrow> bool" where
  "is_digit c \<longleftrightarrow> 48 \<le> (of_char c :: nat) \<and> (of_char c :: nat) \<le> 57"

definition digit_val :: "char \<Rightarrow> nat" where
  "digit_val c = of_char c - 48"

fun show_nat :: "nat \<Rightarrow> string" where
  "show_nat n = (if n < 10 then [digit_char n] else show_nat (n div 10) @ [digit_char (n mod 10)])"

declare show_nat.simps [simp del]

definition show_int :: "int \<Rightarrow> string" where
  "show_int i = (if i < 0 then CHR ''-'' # show_nat (nat (- i)) else show_nat (nat i))"

text \<open>The \<open>%04d\<close> conversion for the request codes, which are not negative.\<close>

definition show_pad4 :: "nat \<Rightarrow> string" where
  "show_pad4 n = replicate (4 - length (show_nat n)) (CHR ''0'') @ show_nat n"

definition digits_val :: "string \<Rightarrow> nat" where
  "digits_val ds = foldl (\<lambda>a c. a * 10 + digit_val c) 0 ds"

lemma of_char_digit: "d < 10 \<Longrightarrow> (of_char (digit_char d) :: nat) = 48 + d"
  by (simp add: digit_char_def)

lemma digit_char_digit [simp]: "d < 10 \<Longrightarrow> is_digit (digit_char d)" "d < 10 \<Longrightarrow> digit_val (digit_char d) = d"
  by (simp_all add: is_digit_def digit_val_def of_char_digit)

lemma show_nat_digits: "c \<in> set (show_nat n) \<Longrightarrow> is_digit c"
proof (induction n rule: show_nat.induct)
  case (1 n)
  then show ?case by (subst (asm) (2) show_nat.simps) (auto split: if_splits)
qed

lemma show_nat_ne [simp]: "show_nat n \<noteq> []"
  by (subst show_nat.simps) simp

lemma digits_val_show_nat [simp]: "digits_val (show_nat n) = n"
proof (induction n rule: show_nat.induct)
  case (1 n)
  then show ?case by (subst show_nat.simps) (simp add: digits_val_def)
qed

lemma digits_val_zeros: "digits_val (replicate k (CHR ''0'') @ ds) = digits_val ds"
proof -
  have "foldl (\<lambda>a c. a * 10 + digit_val c) 0 (replicate k (CHR ''0'')) = 0"
    by (induction k) (simp_all add: digit_val_def)
  then show ?thesis by (simp add: digits_val_def)
qed

lemma takeWhile_digits:
  assumes "\<forall>c \<in> set ds. P c" and "rest = [] \<or> \<not> P (hd rest)"
  shows "takeWhile P (ds @ rest) = ds" and "dropWhile P (ds @ rest) = rest"
  using assms by (auto simp: takeWhile_append dropWhile_append) (cases rest; simp)+

text \<open>\<open>std::from_chars\<close> for \<open>uint64_t\<close>: no sign, no white space, an error when out of range.\<close>

definition from_chars_u64 :: "string \<Rightarrow> 64 word option" where
  "from_chars_u64 s =
     (let ds = takeWhile is_digit s
      in if ds = [] \<or> 2 ^ 64 \<le> digits_val ds then None else Some (of_nat (digits_val ds)))"

text \<open>\<open>std::from_chars\<close> for \<open>int\<close> on the text up to a bound: the value and the rest of the text.\<close>

definition from_chars_int :: "nat \<Rightarrow> string \<Rightarrow> (int \<times> string) option" where
  "from_chars_int bound s =
     (let t = take bound s;
          neg = (t \<noteq> [] \<and> hd t = CHR ''-'');
          u = (if neg then tl t else t);
          ds = takeWhile is_digit u;
          v = (if neg then - int (digits_val ds) else int (digits_val ds))
      in if ds = [] \<or> v < - (2 ^ 31) \<or> 2 ^ 31 \<le> v then None
         else Some (v, drop ((if neg then 1 else 0) + length ds) s))"

text \<open>The \<open>%d\<close> and \<open>%ld\<close> conversions of \<open>sscanf\<close>.\<close>

definition next_int :: "string \<Rightarrow> (int \<times> string) option" where
  "next_int s =
     (let t = skip_space s;
          neg = (t \<noteq> [] \<and> hd t = CHR ''-'');
          pos = (t \<noteq> [] \<and> hd t = CHR ''+'');
          u = (if neg \<or> pos then tl t else t);
          ds = takeWhile is_digit u
      in if ds = [] then None
         else Some (if neg then - int (digits_val ds) else int (digits_val ds), dropWhile is_digit u))"

lemma is_digit_not_space: "is_digit c \<Longrightarrow> \<not> is_space c"
  by (auto simp: is_digit_def is_space_def)

lemma is_digit_not_sign: "is_digit c \<Longrightarrow> c \<noteq> CHR ''-'' \<and> c \<noteq> CHR ''+''"
  by (auto simp: is_digit_def)

definition ends_number :: "string \<Rightarrow> bool" where
  "ends_number rest \<longleftrightarrow> rest = [] \<or> \<not> is_digit (hd rest)"

lemma next_int_show_nat:
  assumes "ends_number rest"
  shows "next_int (show_nat n @ rest) = Some (int n, rest)"
proof -
  obtain c cs where c: "show_nat n = c # cs" by (cases "show_nat n") auto
  then have dig: "is_digit c" using show_nat_digits [of c n] by simp
  then have "skip_space (show_nat n @ rest) = show_nat n @ rest"
    using c is_digit_not_space by (simp add: skip_space_def)
  moreover have "takeWhile is_digit (show_nat n @ rest) = show_nat n" "dropWhile is_digit (show_nat n @ rest) = rest"
    using takeWhile_digits [of "show_nat n" is_digit rest] show_nat_digits assms
    by (auto simp: ends_number_def)
  moreover have "hd (show_nat n @ rest) \<noteq> CHR ''-''" "hd (show_nat n @ rest) \<noteq> CHR ''+''"
    using c is_digit_not_sign [OF dig] by simp_all
  ultimately show ?thesis by (simp add: next_int_def Let_def)
qed

lemma next_int_show_int:
  assumes "ends_number rest"
  shows "next_int (show_int i @ rest) = Some (i, rest)"
proof (cases "i < 0")
  case True
  let ?n = "show_nat (nat (- i))"
  have "takeWhile is_digit (?n @ rest) = ?n" "dropWhile is_digit (?n @ rest) = rest"
    using takeWhile_digits [of ?n is_digit rest] show_nat_digits assms by (auto simp: ends_number_def)
  then show ?thesis using True by (simp add: show_int_def next_int_def Let_def skip_space_def is_space_def)
next
  case False
  then show ?thesis using next_int_show_nat [OF assms, of "nat i"] by (simp add: show_int_def)
qed

lemma next_int_space: "next_int (CHR '' '' # s) = next_int s"
  by (simp add: next_int_def skip_space_def is_space_def)

lemma next_word_space: "next_word (CHR '' '' # s) = next_word s"
  by (simp add: next_word_def skip_space_def is_space_def)

definition is_word :: "string \<Rightarrow> bool" where
  "is_word w \<longleftrightarrow> w \<noteq> [] \<and> (\<forall>c \<in> set w. \<not> is_space c)"

lemma next_word_append:
  assumes "is_word w" and "rest = [] \<or> is_space (hd rest)"
  shows "next_word (w @ rest) = Some (w, rest)"
proof -
  obtain c cs where c: "w = c # cs" using assms(1) by (cases w) (auto simp: is_word_def)
  then have "skip_space (w @ rest) = w @ rest" using assms(1) by (simp add: skip_space_def is_word_def)
  moreover have "takeWhile (\<lambda>c. \<not> is_space c) (w @ rest) = w" "dropWhile (\<lambda>c. \<not> is_space c) (w @ rest) = rest"
    using takeWhile_digits [of w "\<lambda>c. \<not> is_space c" rest] assms by (auto simp: is_word_def)
  ultimately show ?thesis using c by (simp add: next_word_def Let_def)
qed

lemma ends_number_space [simp]: "ends_number []" "ends_number (CHR '' '' # s)"
  by (simp_all add: ends_number_def is_digit_def)

lemma is_space_space [simp]: "is_space (CHR '' '')"
  by (simp add: is_space_def)

end
