(* ===== verification/Paths.thy ===== *)
theory Paths
  imports Prelude Text_Utils "HOL-Library.Sublist"
begin

text \<open>
  The lexical operations of \<open>std::filesystem::path\<close> that the intercepting library uses, on
  POSIX paths, and the path tests of \<open>posix/utils/filesystem.hpp\<close> built on them.

  A path is its text. \<open>path_names\<close> are its file names and \<open>path_elements\<close> what its iterator
  visits: the root directory, the names, and an empty name after a final separator.

  The lemmas show that \<open>capio_normal_path\<close> gives one text for all the spellings of a directory,
  and what \<open>is_prefix\<close> decides on such texts.
\<close>

section \<open>Paths of the standard library\<close>

fun split_slash :: "string \<Rightarrow> string list" where
  "split_slash [] = [[]]"
| "split_slash (c # cs) =
     (if c = CHR ''/'' then [] # split_slash cs
      else case split_slash cs of [] \<Rightarrow> [[c]] | w # ws \<Rightarrow> (c # w) # ws)"

definition path_names :: "path \<Rightarrow> string list" where
  "path_names p = filter (\<lambda>n. n \<noteq> []) (split_slash p)"

definition path_is_absolute :: "path \<Rightarrow> bool" where
  "path_is_absolute p = (case p of [] \<Rightarrow> False | c # _ \<Rightarrow> c = CHR ''/'')"

definition ends_slash :: "path \<Rightarrow> bool" where
  "ends_slash p = (p \<noteq> [] \<and> last p = CHR ''/'')"

definition path_elements :: "path \<Rightarrow> string list" where
  "path_elements p =
     (if path_is_absolute p then [''/''] else []) @ path_names p @
     (if ends_slash p \<and> path_names p \<noteq> [] then [[]] else [])"

text \<open>\<open>operator/\<close>.\<close>

definition path_append :: "path \<Rightarrow> path \<Rightarrow> path" where
  "path_append p q =
     (if path_is_absolute q then q
      else if p \<noteq> [] \<and> \<not> ends_slash p then p @ ''/'' @ q
      else p @ q)"

fun join_names :: "string list \<Rightarrow> path" where
  "join_names [] = []"
| "join_names [n] = n"
| "join_names (n # ns) = n @ ''/'' @ join_names ns"

text \<open>
  \<open>lexically_normal\<close>: dots go, a name followed by two dots goes with them, two dots at the root
  go; \<open>st\<close> holds the names kept so far, the last one first.
\<close>

fun norm_names :: "bool \<Rightarrow> string list \<Rightarrow> string list \<Rightarrow> string list" where
  "norm_names ab st [] = rev st"
| "norm_names ab st (n # ns) =
     (if n = ''.'' then norm_names ab st ns
      else if n = ''..'' then
        (case st of
           [] \<Rightarrow> if ab then norm_names ab [] ns else norm_names ab [''..''] ns
         | t # ts \<Rightarrow> if t = ''..'' then norm_names ab (n # st) ns else norm_names ab ts ns)
      else norm_names ab (n # st) ns)"

definition lexically_normal :: "path \<Rightarrow> path" where
  "lexically_normal p =
     (if p = [] then []
      else let ns = norm_names (path_is_absolute p) [] (path_names p);
               slash = ends_slash p \<or> last (path_names p) = ''.'' \<or> last (path_names p) = ''..''
           in if ns = [] then (if path_is_absolute p then ''/'' else ''.'')
              else (if path_is_absolute p then ''/'' else []) @ join_names ns @
                   (if slash \<and> last ns \<noteq> ''..'' then ''/'' else []))"

fun mismatch :: "'a list \<Rightarrow> 'a list \<Rightarrow> 'a list \<times> 'a list" where
  "mismatch (x # xs) (y # ys) = (if x = y then mismatch xs ys else (x # xs, y # ys))"
| "mismatch xs ys = (xs, ys)"

definition relative_ups :: "string list \<Rightarrow> int" where
  "relative_ups b =
     int (length (filter (\<lambda>n. n \<noteq> [] \<and> n \<noteq> ''.'' \<and> n \<noteq> ''..'') b)) -
     int (length (filter (\<lambda>n. n = ''..'') b))"

definition lexically_relative :: "path \<Rightarrow> path \<Rightarrow> path" where
  "lexically_relative p base =
     (if path_is_absolute p \<noteq> path_is_absolute base then []
      else let (a, b) = mismatch (path_elements p) (path_elements base); n = relative_ups b
           in if a = [] \<and> b = [] then ''.''
              else if n = 0 \<and> (a = [] \<or> hd a = []) then ''.''
              else if n < 0 then []
              else foldl path_append [] (replicate (nat n) ''..'' @ a))"

section \<open>The path tests of the library\<close>

definition in_dir :: "string \<Rightarrow> string \<Rightarrow> bool" where
  "in_dir p glob = (glob \<noteq> [] \<and> find_char p (CHR ''/'') (length glob - 1) \<noteq> None)"

definition is_prefix :: "path \<Rightarrow> path \<Rightarrow> bool" where
  "is_prefix path_1 path_2 =
     (let relpath = lexically_relative path_2 path_1
      in relpath \<noteq> [] \<and> \<not> prefix ''..'' relpath)"

definition CAPIO_DIR_FORBIDDEN_PATHS :: "string list" where
  "CAPIO_DIR_FORBIDDEN_PATHS = [''/proc/'', ''/sys/'']"

definition is_forbidden_path :: "string \<Rightarrow> bool" where
  "is_forbidden_path p = list_ex (\<lambda>forbidden_path. prefix forbidden_path p) CAPIO_DIR_FORBIDDEN_PATHS"

definition is_capio_dir :: "path \<Rightarrow> path \<Rightarrow> bool" where
  "is_capio_dir capio_dir path_to_check = (path_elements capio_dir = path_elements path_to_check)"

definition is_capio_path :: "path \<Rightarrow> path \<Rightarrow> bool" where
  "is_capio_path capio_dir path_to_check = is_prefix capio_dir path_to_check"

text \<open>\<open>while (normal.size() > 1 && normal.back() == '/') normal.pop_back();\<close>\<close>

function pop_slashes :: "string \<Rightarrow> string" where
  "pop_slashes s = (if 1 < length s \<and> last s = CHR ''/'' then pop_slashes (butlast s) else s)"
  by pat_completeness auto

termination
  by (relation "measure length") auto

declare pop_slashes.simps [simp del]

definition capio_normal_path :: "path \<Rightarrow> path" where
  "capio_normal_path p = pop_slashes (lexically_normal p)"

text \<open>
  \<open>get_capio_dir\<close> (\<open>common/env.hpp\<close>) on the value of \<open>CAPIO_DIR\<close> and the result of \<open>realpath\<close>.
\<close>

definition get_capio_dir :: "string option \<Rightarrow> (path \<Rightarrow> path option) \<Rightarrow> fault + path" where
  "get_capio_dir val realpath =
     (case val of
        None \<Rightarrow> Inl ErrExit
      | Some v \<Rightarrow>
          (case realpath v of
             None \<Rightarrow> Inl ErrExit
           | Some buf \<Rightarrow> if is_forbidden_path buf then Inl ErrExit else Inr buf))"

section \<open>Names\<close>

definition good_name :: "string \<Rightarrow> bool" where
  "good_name n \<longleftrightarrow> n \<noteq> [] \<and> CHR ''/'' \<notin> set n"

definition plain_name :: "string \<Rightarrow> bool" where
  "plain_name n \<longleftrightarrow> good_name n \<and> n \<noteq> ''.'' \<and> n \<noteq> ''..''"

lemma good_up [simp]: "good_name ''..''"
  by (simp add: good_name_def)

lemma plain_good: "list_all plain_name ps \<Longrightarrow> list_all good_name ps"
  by (simp add: list_all_iff plain_name_def)

lemma list_all_replicate: "P x \<Longrightarrow> list_all P (replicate k x)"
  by (induction k) simp_all

lemma split_slash_ne [simp]: "split_slash p \<noteq> []"
  by (cases p) (auto split: list.split)

lemma split_slash_append: "split_slash (p @ CHR ''/'' # q) = split_slash p @ split_slash q"
  by (induction p) (auto split: list.split)

lemma split_slash_word: "CHR ''/'' \<notin> set n \<Longrightarrow> split_slash n = [n]"
  by (induction n) auto

lemma path_names_append: "path_names (p @ CHR ''/'' # q) = path_names p @ path_names q"
  by (simp add: path_names_def split_slash_append)

lemma path_names_slash [simp]: "path_names (CHR ''/'' # p) = path_names p"
  by (simp add: path_names_def)

lemma path_names_Nil [simp]: "path_names [] = []"
  by (simp add: path_names_def)

lemma path_names_good: "good_name n \<Longrightarrow> path_names n = [n]"
  by (simp add: path_names_def good_name_def split_slash_word)

lemma split_slash_no_slash: "n \<in> set (split_slash p) \<Longrightarrow> CHR ''/'' \<notin> set n"
proof (induction p arbitrary: n)
  case (Cons c p)
  then show ?case by (cases "split_slash p") (auto split: if_splits)
qed simp

lemma good_path_names: "n \<in> set (path_names p) \<Longrightarrow> good_name n"
  using split_slash_no_slash by (auto simp: path_names_def good_name_def)

lemma path_names_join: "list_all good_name ns \<Longrightarrow> path_names (join_names ns) = ns"
  by (induction ns rule: join_names.induct) (simp_all add: path_names_good path_names_append)

lemma hd_join: "ns \<noteq> [] \<Longrightarrow> list_all good_name ns \<Longrightarrow> join_names ns \<noteq> [] \<and> hd (join_names ns) = hd (hd ns)"
  by (cases ns rule: join_names.cases) (auto simp: good_name_def)

lemma last_join: "ns \<noteq> [] \<Longrightarrow> list_all good_name ns \<Longrightarrow> last (join_names ns) = last (last ns)"
proof (induction ns rule: join_names.induct)
  case (3 n m ns)
  then show ?case using hd_join [of "m # ns"] by simp
qed simp_all

lemma join_no_slash_ends:
  assumes "ns \<noteq> []" and "list_all good_name ns"
  shows "join_names ns \<noteq> []" and "hd (join_names ns) \<noteq> CHR ''/''" and "last (join_names ns) \<noteq> CHR ''/''"
proof -
  have "good_name (hd ns)" "good_name (last ns)" using assms by (simp_all add: list_all_iff)
  then have "hd (hd ns) \<noteq> CHR ''/''" "last (last ns) \<noteq> CHR ''/''"
    unfolding good_name_def by (metis hd_in_set, metis last_in_set)
  then show "join_names ns \<noteq> []" and "hd (join_names ns) \<noteq> CHR ''/''" and "last (join_names ns) \<noteq> CHR ''/''"
    using hd_join [OF assms] last_join [OF assms] by simp_all
qed

section \<open>Normal names\<close>

text \<open>What \<open>norm_names\<close> returns: two dots only in front, and only in a relative path.\<close>

definition settled :: "bool \<Rightarrow> string list \<Rightarrow> bool" where
  "settled ab ns \<longleftrightarrow> (\<exists>k ps. ns = replicate k ''..'' @ ps \<and> list_all plain_name ps \<and> (ab \<longrightarrow> k = 0))"

lemma settled_Nil [simp]: "settled ab []"
  unfolding settled_def by (rule exI [of _ 0]) simp

lemma settledE:
  assumes "settled ab ns"
  obtains k ps where "ns = replicate k ''..'' @ ps" "list_all plain_name ps" "ab \<longrightarrow> k = 0"
  using assms unfolding settled_def by blast

lemma settled_good: "settled ab ns \<Longrightarrow> list_all good_name ns"
  by (erule settledE) (simp add: list_all_replicate good_up plain_good)

lemma settled_plain: "settled True ns \<longleftrightarrow> list_all plain_name ns"
  by (simp add: settled_def)

lemma settled_snoc: "settled ab ns \<Longrightarrow> plain_name n \<Longrightarrow> settled ab (ns @ [n])"
proof -
  assume "settled ab ns" and n: "plain_name n"
  then obtain k ps where "ns = replicate k ''..'' @ ps" "list_all plain_name ps" "ab \<longrightarrow> k = 0"
    unfolding settled_def by blast
  then have "ns @ [n] = replicate k ''..'' @ (ps @ [n])" "list_all plain_name (ps @ [n])" "ab \<longrightarrow> k = 0"
    using n by simp_all
  then show ?thesis unfolding settled_def by blast
qed

lemma settled_snoc_up:
  assumes "settled ab (ns @ [''..''])" shows "settled ab (ns @ [''..'', ''..''])"
proof -
  obtain k ps where k: "ns @ [''..''] = replicate k ''..'' @ ps" "list_all plain_name ps" "ab \<longrightarrow> k = 0"
    using assms unfolding settled_def by blast
  have "ps = []"
  proof (rule ccontr)
    assume ne: "ps \<noteq> []"
    then have "last ps = ''..''" using arg_cong [OF k(1), of last] by simp
    then show False using k(2) ne last_in_set [OF ne] by (auto simp: list_all_iff plain_name_def)
  qed
  then have k': "ns @ [''..''] = replicate k ''..''" using k(1) by simp
  then have "ns @ [''..'', ''..''] = replicate k ''..'' @ [''..'']" by (simp flip: append_assoc)
  then have "ns @ [''..'', ''..''] = replicate (Suc k) ''..''" by (simp only: replicate_append_same replicate_Suc)
  moreover have "\<not> ab" using k(3) k' by (cases k) auto
  ultimately show ?thesis unfolding settled_def by (intro exI [of _ "Suc k"] exI [of _ "[]"]) simp
qed

lemma settled_butlast: "settled ab (ns @ [n]) \<Longrightarrow> settled ab ns"
proof -
  assume "settled ab (ns @ [n])"
  then obtain k ps where k: "ns @ [n] = replicate k ''..'' @ ps" "list_all plain_name ps" "ab \<longrightarrow> k = 0"
    unfolding settled_def by blast
  have "ns = butlast (replicate k ''..'' @ ps)" using k(1) by (metis butlast_snoc)
  moreover have "butlast (replicate k ''..'') = replicate (k - 1) ''..''"
    by (cases k) (simp_all add: butlast_append flip: replicate_append_same)
  ultimately have "ns = (if ps = [] then replicate (k - 1) ''..'' else replicate k ''..'' @ butlast ps)"
    by (simp add: butlast_append)
  moreover have "list_all plain_name (butlast ps)" using k(2) by (auto simp: list_all_iff dest: in_set_butlastD)
  ultimately show ?thesis using k(3) unfolding settled_def
    by (cases "ps = []") (rule exI [of _ "k - 1"], rule exI [of _ "[]"], simp,
        rule exI [of _ k], rule exI [of _ "butlast ps"], simp)
qed

lemma settled_norm_names:
  "settled ab (rev st) \<Longrightarrow> list_all good_name ns \<Longrightarrow> settled ab (norm_names ab st ns)"
proof (induction ab st ns rule: norm_names.induct)
  case (2 ab st n ns)
  have single: "settled False [''..'']" unfolding settled_def by (intro exI [of _ 1] exI [of _ "[]"]) simp
  show ?case
  proof (cases st)
    case Nil
    then show ?thesis using 2 single settled_snoc [of ab "[]" n] by (auto simp: plain_name_def)
  next
    case (Cons t ts)
    then show ?thesis
      using 2 settled_butlast [of ab "rev ts" t] settled_snoc [of ab "rev st" n] settled_snoc_up [of ab "rev ts"]
      by (auto simp: plain_name_def)
  qed
qed simp

lemma norm_names_plain: "list_all plain_name ps \<Longrightarrow> norm_names ab st ps = rev st @ ps"
  by (induction ps arbitrary: st) (simp_all add: plain_name_def)

lemma norm_names_ups: "norm_names False (replicate j ''..'') (replicate k ''..'' @ ps) =
    norm_names False (replicate (j + k) ''..'') ps"
proof (induction k arbitrary: j)
  case (Suc k)
  have "norm_names False (replicate j ''..'') (''..'' # (replicate k ''..'' @ ps)) =
      norm_names False (replicate (Suc j) ''..'') (replicate k ''..'' @ ps)"
    by (cases j) simp_all
  then show ?case using Suc [of "Suc j"] by (simp del: norm_names.simps)
qed simp

lemma norm_names_settled: "settled ab ns \<Longrightarrow> norm_names ab [] ns = ns"
proof -
  assume "settled ab ns"
  then obtain k ps where k: "ns = replicate k ''..'' @ ps" "list_all plain_name ps" "ab \<longrightarrow> k = 0"
    unfolding settled_def by blast
  show ?thesis
  proof (cases ab)
    case True
    then show ?thesis using k by (simp add: norm_names_plain)
  next
    case False
    then show ?thesis using k norm_names_ups [of 0 k ps] by (simp add: norm_names_plain)
  qed
qed

lemma norm_names_append:
  "norm_names ab st (xs @ ys) = norm_names ab (rev (norm_names ab st xs)) ys"
proof (induction ab st xs rule: norm_names.induct)
  case (2 ab st n ns)
  then show ?case by (cases st) simp_all
qed simp

section \<open>Normal paths\<close>

lemma pop_slashes_id: "s = [] \<or> last s \<noteq> CHR ''/'' \<Longrightarrow> pop_slashes s = s"
  by (subst pop_slashes.simps) auto

lemma pop_slashes_slash: "s \<noteq> [] \<Longrightarrow> pop_slashes (s @ [CHR ''/'']) = pop_slashes s"
  by (subst pop_slashes.simps) (cases s, simp_all)

abbreviation normal_names :: "path \<Rightarrow> string list" where
  "normal_names p \<equiv> norm_names (path_is_absolute p) [] (path_names p)"

definition path_text :: "bool \<Rightarrow> string list \<Rightarrow> path" where
  "path_text ab ns = (if ns = [] then (if ab then ''/'' else ''.'') else (if ab then ''/'' else []) @ join_names ns)"

lemma settled_normal_names: "settled (path_is_absolute p) (normal_names p)"
  by (rule settled_norm_names) (use good_path_names in \<open>simp_all add: list_all_iff\<close>)

lemma capio_normal_path_text:
  assumes "p \<noteq> []" shows "capio_normal_path p = path_text (path_is_absolute p) (normal_names p)"
proof (cases "normal_names p = []")
  case True
  then show ?thesis using assms
    by (simp add: capio_normal_path_def lexically_normal_def path_text_def Let_def pop_slashes.simps)
next
  case False
  note ends = join_no_slash_ends [OF False settled_good [OF settled_normal_names]]
  let ?q = "(if path_is_absolute p then ''/'' else []) @ join_names (normal_names p)"
  have "?q \<noteq> []" "last ?q \<noteq> CHR ''/''" using ends by simp_all
  then have "pop_slashes ?q = ?q" "pop_slashes (?q @ ''/'') = ?q"
    by (simp_all only: pop_slashes_id pop_slashes_slash simp_thms)
  then show ?thesis using assms False
    by (auto simp: capio_normal_path_def lexically_normal_def path_text_def Let_def)
qed

lemma path_text_props:
  assumes "settled ab ns"
  shows "path_text ab ns \<noteq> []" and "path_is_absolute (path_text ab ns) = ab"
    and "path_names (path_text ab ns) = (if ns = [] \<and> \<not> ab then [''.''] else ns)"
    and "ends_slash (path_text ab ns) \<longleftrightarrow> ab \<and> ns = []"
proof -
  have "path_text ab ns \<noteq> [] \<and> path_is_absolute (path_text ab ns) = ab \<and>
      path_names (path_text ab ns) = (if ns = [] \<and> \<not> ab then [''.''] else ns) \<and>
      (ends_slash (path_text ab ns) \<longleftrightarrow> ab \<and> ns = [])"
  proof (cases "ns = []")
    case True
    then show ?thesis by (simp add: path_text_def path_is_absolute_def ends_slash_def path_names_def)
  next
    case False
    note good = settled_good [OF assms]
    obtain c r where cr: "join_names ns = c # r" "c \<noteq> CHR ''/''"
      using join_no_slash_ends [OF False good] by (cases "join_names ns") auto
    have "path_names (c # r) = ns" using path_names_join [OF good] cr(1) by simp
    then show ?thesis using False join_no_slash_ends [OF False good] cr
      by (simp add: path_text_def path_is_absolute_def ends_slash_def)
  qed
  then show "path_text ab ns \<noteq> []" and "path_is_absolute (path_text ab ns) = ab"
    and "path_names (path_text ab ns) = (if ns = [] \<and> \<not> ab then [''.''] else ns)"
    and "ends_slash (path_text ab ns) \<longleftrightarrow> ab \<and> ns = []" by blast+
qed

lemma path_elements_absolute:
  assumes "path_is_absolute p"
  shows "path_elements (capio_normal_path p) = ''/'' # normal_names p"
    and "path_is_absolute (capio_normal_path p)"
    and "path_names (capio_normal_path p) = normal_names p"
proof -
  have "p \<noteq> []" using assms by (auto simp: path_is_absolute_def)
  then have t: "capio_normal_path p = path_text True (normal_names p)"
    using assms by (simp add: capio_normal_path_text)
  have "settled True (normal_names p)" using settled_normal_names [of p] assms by simp
  note props = path_text_props [OF this]
  show "path_elements (capio_normal_path p) = ''/'' # normal_names p"
    and "path_is_absolute (capio_normal_path p)" and "path_names (capio_normal_path p) = normal_names p"
    unfolding path_elements_def t using props by simp_all
qed

lemma path_append_up [simp]: "path_append [] ''..'' = ''..''"
  by (simp add: path_append_def path_is_absolute_def)

lemma mismatch_append: "mismatch (ds @ rest) ds = (rest, [])"
  by (induction ds) (cases rest, simp_all)

lemma mismatch_rest: "mismatch xs ys = (a, b) \<Longrightarrow> \<exists>cs. xs = cs @ a \<and> ys = cs @ b"
proof (induction xs ys rule: mismatch.induct)
  case (1 x xs y ys)
  show ?case
  proof (cases "x = y")
    case True
    then obtain cs where "xs = cs @ a" "ys = cs @ b" using 1 by auto
    then show ?thesis using True by (intro exI [of _ "x # cs"]) simp
  next
    case False
    then show ?thesis using 1 by (intro exI [of _ "[]"]) simp
  qed
qed simp_all

lemma foldl_append_starts:
  assumes "p \<noteq> []" and "list_all good_name ns"
  shows "\<exists>r. foldl path_append p ns = p @ r \<and> (r = [] \<or> hd r = CHR ''/'' \<or> ends_slash p)"
  using assms
proof (induction ns arbitrary: p)
  case (Cons n ns)
  have "\<not> path_is_absolute n" using Cons.prems by (cases n) (auto simp: good_name_def path_is_absolute_def)
  then obtain q where q: "path_append p n = p @ q" "hd q = CHR ''/'' \<or> ends_slash p" "q \<noteq> []"
    using Cons.prems that [of n] that [of "''/'' @ n"] by (cases "ends_slash p") (auto simp: path_append_def good_name_def)
  obtain r where "foldl path_append (p @ q) ns = (p @ q) @ r" using Cons.IH [of "p @ q"] Cons.prems by auto
  then show ?case using q by (intro exI [of _ "q @ r"]) simp
qed simp

lemma prefix_up_fold:
  assumes "plain_name n" and "list_all good_name ns"
  shows "prefix ''..'' (foldl path_append [] (n # ns)) \<longleftrightarrow> prefix ''..'' n"
proof -
  have n: "n \<noteq> []" "CHR ''/'' \<notin> set n" "n \<noteq> ''.''" using assms(1) by (simp_all add: plain_name_def good_name_def)
  then have "path_append [] n = n" "\<not> ends_slash n"
    unfolding ends_slash_def path_append_def by (simp, metis last_in_set)
  then obtain r where r: "foldl path_append [] (n # ns) = n @ r" "r = [] \<or> hd r = CHR ''/''"
    using foldl_append_starts [OF n(1) assms(2)] by auto
  obtain c m where c: "n = c # m" using n(1) by (cases n) auto
  show ?thesis unfolding r(1) using n(3) r(2) unfolding c by (cases m; cases r) auto
qed

lemma is_prefix_normal:
  assumes "path_is_absolute d" and "path_is_absolute p"
  shows "is_prefix (capio_normal_path d) (capio_normal_path p) \<longleftrightarrow>
    (\<exists>rest. normal_names p = normal_names d @ rest \<and> (rest = [] \<or> \<not> prefix ''..'' (hd rest)))"
proof -
  let ?d = "normal_names d" and ?p = "normal_names p"
  have plain: "list_all plain_name ?d" "list_all plain_name ?p"
    using settled_normal_names [of d] settled_normal_names [of p] assms by (simp_all add: settled_plain)
  note [simp] = path_elements_absolute [OF assms(1)] path_elements_absolute [OF assms(2)]
  show ?thesis
  proof (cases "\<exists>rest. ?p = ?d @ rest")
    case True
    then obtain rest where rest: "?p = ?d @ rest" by blast
    have rel: "lexically_relative (capio_normal_path p) (capio_normal_path d) =
        (if rest = [] \<or> hd rest = [] then ''.'' else foldl path_append [] rest)"
      by (auto simp: lexically_relative_def rest mismatch_append relative_ups_def)
    show ?thesis
    proof (cases rest)
      case Nil
      then show ?thesis using rel rest by (simp add: is_prefix_def)
    next
      case (Cons n ns)
      then have n: "plain_name n" "list_all good_name ns"
        using plain(2) rest by (auto simp: list_all_iff plain_name_def)
      have ne: "foldl path_append [] rest \<noteq> []"
        using foldl_append_starts [of n ns] n Cons
        by (auto simp: path_append_def plain_name_def good_name_def split: if_splits)
      have "hd rest \<noteq> []" using n(1) Cons by (simp add: plain_name_def good_name_def)
      then have "is_prefix (capio_normal_path d) (capio_normal_path p) \<longleftrightarrow> \<not> prefix ''..'' n"
        unfolding is_prefix_def Let_def rel using ne prefix_up_fold [OF n] Cons by simp
      then show ?thesis using rest Cons by simp
    qed
  next
    case False
    obtain a b where ab: "mismatch ?p ?d = (a, b)" by fastforce
    obtain cs where cs: "?p = cs @ a" "?d = cs @ b" using mismatch_rest [OF ab] by blast
    have "b \<noteq> []" using False cs by auto
    moreover have "list_all plain_name b" using plain(1) cs(2) by simp
    ultimately have "relative_ups b = int (length b)" "0 < length b"
      by (auto simp: relative_ups_def list_all_iff plain_name_def good_name_def filter_empty_conv)
    then obtain k where k: "nat (relative_ups b) = Suc k" "0 < relative_ups b" using that [of "length b - 1"] by auto
    have good: "list_all good_name (replicate k ''..'' @ a)"
      using plain(2) cs(1) by (simp add: list_all_replicate plain_good)
    have "lexically_relative (capio_normal_path p) (capio_normal_path d) = foldl path_append ''..'' (replicate k ''..'' @ a)"
      using k \<open>b \<noteq> []\<close> by (simp add: lexically_relative_def ab)
    then have "prefix ''..'' (lexically_relative (capio_normal_path p) (capio_normal_path d))"
      using foldl_append_starts [OF _ good, of "''..''"] by auto
    then show ?thesis using False by (auto simp: is_prefix_def)
  qed
qed

section \<open>What the paths of the library mean\<close>

text \<open>
  C26: All the spellings of a directory have one normal path: a final separator, a final dot, and
  a name followed by two dots change nothing; the normal path of an absolute path is the root
  followed by names that are neither a dot nor two dots, and is its own normal path.
\<close>

theorem capio_normal_path_canonical:
  assumes "path_is_absolute d" and "plain_name x"
  shows "capio_normal_path (d @ ''/'') = capio_normal_path d \<and>
    capio_normal_path (d @ ''/.'') = capio_normal_path d \<and>
    capio_normal_path (d @ ''/'' @ x @ ''/..'') = capio_normal_path d \<and>
    list_all plain_name (path_names (capio_normal_path d)) \<and>
    capio_normal_path (capio_normal_path d) = capio_normal_path d"
proof -
  have d: "d \<noteq> []" using assms(1) by (auto simp: path_is_absolute_def)
  have ab: "path_is_absolute (d @ q)" for q using assms(1) by (cases d) (auto simp: path_is_absolute_def)
  have x: "path_names (x @ ''/..'') = [x, ''..'']"
    using assms(2) path_names_append [of x "''..''"] path_names_good [of x] path_names_good [of "''..''"]
    by (simp add: plain_name_def good_name_def)
  have dot: "path_names ''.'' = [''.'']" by (simp add: path_names_def)
  have names: "path_names (d @ ''/'') = path_names d" "path_names (d @ ''/.'') = path_names d @ [''.'']"
    "path_names (d @ ''/'' @ x @ ''/..'') = path_names d @ [x, ''..'']"
    using path_names_append [of d "[]"] path_names_append [of d "''.''"] path_names_append [of d "x @ ''/..''"] x dot
    by simp_all
  have "settled True (normal_names d)" using settled_normal_names [of d] assms(1) by simp
  note props = path_text_props [OF this]
  have t: "capio_normal_path d = path_text True (normal_names d)" using d assms(1) by (simp add: capio_normal_path_text)
  have "normal_names (capio_normal_path d) = normal_names d"
    using props norm_names_settled [OF settled_normal_names [of d]] assms(1) unfolding t by simp
  then have "capio_normal_path (capio_normal_path d) = capio_normal_path d"
    using capio_normal_path_text [of "capio_normal_path d"] props t by simp
  moreover have "list_all plain_name (path_names (capio_normal_path d))"
    using props settled_normal_names [of d] assms(1) unfolding t by (simp add: settled_plain)
  moreover have "normal_names (d @ ''/'') = normal_names d" "normal_names (d @ ''/.'') = normal_names d"
    "normal_names (d @ ''/'' @ x @ ''/..'') = normal_names d"
    unfolding names using ab assms by (simp_all add: norm_names_append plain_name_def)
  ultimately show ?thesis using d ab assms(1) by (simp add: capio_normal_path_text)
qed

theorem capio_normal_path_canonical_witness:
  "path_is_absolute ''/w/../d'' \<and> capio_normal_path ''/w/../d/x/..'' = capio_normal_path ''/w/../d'' \<and>
   capio_normal_path ''/w/../d'' = ''/d''"
proof -
  have "capio_normal_path (''/w/../d'' @ ''/'' @ ''x'' @ ''/..'') = capio_normal_path ''/w/../d''"
    using capio_normal_path_canonical [of "''/w/../d''" "''x''"]
    by (simp add: path_is_absolute_def plain_name_def good_name_def)
  then show ?thesis
    by (simp add: path_is_absolute_def capio_normal_path_def lexically_normal_def path_names_def ends_slash_def pop_slashes.simps)
qed

text \<open>
  C27: The library takes an absolute path, in normal form, for one of its own exactly when its
  names start with the names of the CAPIO directory and the name that follows does not start
  with two dots.
\<close>

theorem capio_paths_below_capio_dir:
  assumes "path_is_absolute capio_dir" and "path_is_absolute p"
  shows "is_capio_path (capio_normal_path capio_dir) (capio_normal_path p) \<longleftrightarrow>
    (\<exists>rest. path_names (capio_normal_path p) = path_names (capio_normal_path capio_dir) @ rest \<and>
       (rest = [] \<or> \<not> prefix ''..'' (hd rest)))"
  unfolding is_capio_path_def using is_prefix_normal [OF assms] assms path_elements_absolute(3) by simp

theorem capio_paths_below_capio_dir_witness:
  "path_names (capio_normal_path ''/w/d/./x'') = path_names (capio_normal_path ''/w/d'') @ [''x''] \<and>
   is_capio_path (capio_normal_path ''/w/d'') (capio_normal_path ''/w/d/./x'')"
proof -
  have "path_names (capio_normal_path ''/w/d/./x'') = path_names (capio_normal_path ''/w/d'') @ [''x'']"
    by (simp add: path_is_absolute_def capio_normal_path_def lexically_normal_def path_names_def ends_slash_def pop_slashes.simps)
  then show ?thesis
    using capio_paths_below_capio_dir [of "''/w/d''" "''/w/d/./x''"] by (simp add: path_is_absolute_def)
qed

end
