(* ===== verification/Shm_Queue.thy ===== *)
theory Shm_Queue
  imports Prelude
begin

text \<open>
  The shared-memory queue \<open>Queue<T, Mutex>\<close> (\<open>common/queue.hpp\<close>) that carries requests,
  responses and file data between the intercepting library and the server, with the
  semaphores of \<open>common/semaphore.hpp\<close> as counters.

  The ring is a block of \<open>max_num_elems\<close> slots of \<open>elem_size\<close> bytes; a transfer uses one slot
  per started \<open>elem_size\<close> bytes. An operation that would wait on a semaphore returns \<open>None\<close>:
  the calling thread does not proceed.

  The interface is the locale \<open>elem_queue\<close>: what the two ends may rely on is that slots leave
  in the order in which they entered. It is interpreted on the ring and on the plain list of
  slots, which the models of the server and of the library use. The lemmas proved in it give
  the transfer of messages of any size.
\<close>

section \<open>The ring\<close>

record shm_queue =
  q_shm :: "cell list"
  q_max_num_elems :: nat
  q_elem_size :: nat
  q_first_elem :: nat
  q_last_elem :: nat
  q_sem_num_elems :: nat
  q_sem_num_empty :: nat

definition q_buff_size :: "shm_queue \<Rightarrow> nat" where
  "q_buff_size q = q_max_num_elems q * q_elem_size q"

text \<open>
  The constructor: the first process creates the objects, zeroed by the kernel, and the
  semaphores with their initial values; a later one finds them as they are.
\<close>

definition Queue_new :: "shm_queue option \<Rightarrow> nat \<Rightarrow> nat \<Rightarrow> shm_queue" where
  "Queue_new existing max_num_elems elem_size =
     (case existing of
        Some q \<Rightarrow> q
      | None \<Rightarrow>
          \<lparr>q_shm = replicate (max_num_elems * elem_size) (Some 0), q_max_num_elems = max_num_elems,
           q_elem_size = elem_size, q_first_elem = 0, q_last_elem = 0, q_sem_num_elems = 0,
           q_sem_num_empty = max_num_elems\<rparr>)"

definition q_read1 :: "nat \<Rightarrow> shm_queue \<Rightarrow> (cell list \<times> shm_queue) option" where
  "q_read1 num_bytes q =
     (if q_sem_num_elems q = 0 then None
      else Some (seg (q_first_elem q) num_bytes (q_shm q),
                 q\<lparr>q_sem_num_elems := q_sem_num_elems q - 1,
                   q_first_elem := (q_first_elem q + q_elem_size q) mod q_buff_size q,
                   q_sem_num_empty := q_sem_num_empty q + 1\<rparr>))"

definition q_write1 :: "cell list \<Rightarrow> shm_queue \<Rightarrow> shm_queue option" where
  "q_write1 data q =
     (if q_sem_num_empty q = 0 then None
      else Some (q\<lparr>q_sem_num_empty := q_sem_num_empty q - 1,
                   q_shm := blit (q_last_elem q) data (q_shm q),
                   q_last_elem := (q_last_elem q + q_elem_size q) mod q_buff_size q,
                   q_sem_num_elems := q_sem_num_elems q + 1\<rparr>))"

text \<open>\<open>fetch\<close> and \<open>reserve\<close> return a pointer into the ring: the position of the slot.\<close>

definition q_fetch :: "shm_queue \<Rightarrow> (nat \<times> shm_queue) option" where
  "q_fetch q =
     (if q_sem_num_elems q = 0 then None
      else Some (q_first_elem q,
                 q\<lparr>q_sem_num_elems := q_sem_num_elems q - 1,
                   q_first_elem := (q_first_elem q + q_elem_size q) mod q_buff_size q,
                   q_sem_num_empty := q_sem_num_empty q + 1\<rparr>))"

definition q_reserve :: "shm_queue \<Rightarrow> (nat \<times> shm_queue) option" where
  "q_reserve q =
     (if q_sem_num_empty q = 0 then None
      else Some (q_last_elem q,
                 q\<lparr>q_sem_num_empty := q_sem_num_empty q - 1,
                   q_last_elem := (q_last_elem q + q_elem_size q) mod q_buff_size q,
                   q_sem_num_elems := q_sem_num_elems q + 1\<rparr>))"

text \<open>The transfer loops: \<open>n\<close> full slots and a rest.\<close>

fun read_slots :: "(nat \<Rightarrow> 'q \<Rightarrow> (cell list \<times> 'q) option) \<Rightarrow> nat \<Rightarrow> nat \<Rightarrow> 'q \<Rightarrow> (cell list \<times> 'q) option" where
  "read_slots rd 0 es q = Some ([], q)"
| "read_slots rd (Suc n) es q =
     (case rd es q of
        None \<Rightarrow> None
      | Some (xs, q') \<Rightarrow> map_option (\<lambda>(ys, r). (xs @ ys, r)) (read_slots rd n es q'))"

fun write_slots :: "(cell list \<Rightarrow> 'q \<Rightarrow> 'q option) \<Rightarrow> nat \<Rightarrow> nat \<Rightarrow> cell list \<Rightarrow> 'q \<Rightarrow> 'q option" where
  "write_slots wr 0 es data q = Some q"
| "write_slots wr (Suc n) es data q =
     (case wr (take es data) q of None \<Rightarrow> None | Some q' \<Rightarrow> write_slots wr n es (drop es data) q')"

definition queue_read ::
    "(nat \<Rightarrow> 'q \<Rightarrow> (cell list \<times> 'q) option) \<Rightarrow> nat \<Rightarrow> nat \<Rightarrow> 'q \<Rightarrow> (cell list \<times> 'q) option" where
  "queue_read rd es num_bytes q =
     (let n_reads = num_bytes div es; r = num_bytes mod es
      in case read_slots rd n_reads es q of
           None \<Rightarrow> None
         | Some (xs, q') \<Rightarrow>
             if r \<noteq> 0 then map_option (\<lambda>(ys, q''). (xs @ ys, q'')) (rd r q') else Some (xs, q'))"

definition queue_write ::
    "(cell list \<Rightarrow> 'q \<Rightarrow> 'q option) \<Rightarrow> nat \<Rightarrow> cell list \<Rightarrow> 'q \<Rightarrow> 'q option" where
  "queue_write wr es data q =
     (let n_writes = length data div es; r = length data mod es
      in case write_slots wr n_writes es data q of
           None \<Rightarrow> None
         | Some q' \<Rightarrow> if r \<noteq> 0 then wr (drop (n_writes * es) data) q' else Some q')"

definition Queue_read :: "nat \<Rightarrow> shm_queue \<Rightarrow> (cell list \<times> shm_queue) option" where
  "Queue_read num_bytes q = queue_read q_read1 (q_elem_size q) num_bytes q"

definition Queue_write :: "cell list \<Rightarrow> shm_queue \<Rightarrow> shm_queue option" where
  "Queue_write data q = queue_write q_write1 (q_elem_size q) data q"

definition Queue_read_elem :: "shm_queue \<Rightarrow> (cell list \<times> shm_queue) option" where
  "Queue_read_elem q = Queue_read (q_elem_size q) q"

definition Queue_write_elem :: "cell list \<Rightarrow> shm_queue \<Rightarrow> shm_queue option" where
  "Queue_write_elem data q = Queue_write (take (q_elem_size q) data) q"

section \<open>The list of slots\<close>

text \<open>
  The abstract queue: the slots in order. A slot that was only partly written keeps
  unspecified bytes after the message.
\<close>

record slot_queue =
  sq_slots :: "cell list list"
  sq_cap :: nat
  sq_elem_size :: nat

definition sq_new :: "nat \<Rightarrow> nat \<Rightarrow> slot_queue" where
  "sq_new cap es = \<lparr>sq_slots = [], sq_cap = cap, sq_elem_size = es\<rparr>"

definition sq_read1 :: "nat \<Rightarrow> slot_queue \<Rightarrow> (cell list \<times> slot_queue) option" where
  "sq_read1 n q = (case sq_slots q of [] \<Rightarrow> None | e # es \<Rightarrow> Some (take n e, q\<lparr>sq_slots := es\<rparr>))"

definition sq_write1 :: "cell list \<Rightarrow> slot_queue \<Rightarrow> slot_queue option" where
  "sq_write1 data q =
     (if sq_cap q \<le> length (sq_slots q) then None
      else Some (q\<lparr>sq_slots := sq_slots q @ [data @ replicate (sq_elem_size q - length data) None]\<rparr>))"

section \<open>The contract\<close>

text \<open>The slots a message of \<open>n\<close> bytes takes, and when a run of slots holds a message.\<close>

definition slots_needed :: "nat \<Rightarrow> nat \<Rightarrow> nat" where
  "slots_needed es n = n div es + (if n mod es = 0 then 0 else 1)"

definition carries :: "nat \<Rightarrow> cell list list \<Rightarrow> cell list \<Rightarrow> bool" where
  "carries es E d \<longleftrightarrow> length E = slots_needed es (length d) \<and> take (length d) (concat E) = d"

text \<open>Sequences of messages, and arbitrary interleavings of slot transfers at the two ends.\<close>

fun write_msgs :: "(cell list \<Rightarrow> 'q \<Rightarrow> 'q option) \<Rightarrow> nat \<Rightarrow> cell list list \<Rightarrow> 'q \<Rightarrow> 'q option" where
  "write_msgs wr es [] q = Some q"
| "write_msgs wr es (d # ds) q =
     (case queue_write wr es d q of None \<Rightarrow> None | Some q' \<Rightarrow> write_msgs wr es ds q')"

fun read_msgs ::
    "(nat \<Rightarrow> 'q \<Rightarrow> (cell list \<times> 'q) option) \<Rightarrow> nat \<Rightarrow> nat list \<Rightarrow> 'q \<Rightarrow> (cell list list \<times> 'q) option" where
  "read_msgs rd es [] q = Some ([], q)"
| "read_msgs rd es (n # ns) q =
     (case queue_read rd es n q of
        None \<Rightarrow> None
      | Some (x, q') \<Rightarrow> map_option (\<lambda>(xs, r). (x # xs, r)) (read_msgs rd es ns q'))"

inductive q_steps ::
    "(nat \<Rightarrow> 'q \<Rightarrow> (cell list \<times> 'q) option) \<Rightarrow> (cell list \<Rightarrow> 'q \<Rightarrow> 'q option) \<Rightarrow> nat \<Rightarrow>
     'q \<Rightarrow> cell list list \<Rightarrow> cell list list \<Rightarrow> 'q \<Rightarrow> bool"
  for rd wr es q where
  start: "q_steps rd wr es q [] [] q"
| put: "q_steps rd wr es q ins outs q1 \<Longrightarrow> length d \<le> es \<Longrightarrow> wr d q1 = Some q2 \<Longrightarrow>
    q_steps rd wr es q (ins @ [d]) outs q2"
| get: "q_steps rd wr es q ins outs q1 \<Longrightarrow> n \<le> es \<Longrightarrow> rd n q1 = Some (x, q2) \<Longrightarrow>
    q_steps rd wr es q ins (outs @ [x]) q2"

locale elem_queue =
  fixes es cap :: nat
    and inv :: "'q \<Rightarrow> bool"
    and slots :: "'q \<Rightarrow> cell list list"
    and rd :: "nat \<Rightarrow> 'q \<Rightarrow> (cell list \<times> 'q) option"
    and wr :: "cell list \<Rightarrow> 'q \<Rightarrow> 'q option"
  assumes es_pos: "inv q \<Longrightarrow> 0 < es"
    and slot_length: "inv q \<Longrightarrow> e \<in> set (slots q) \<Longrightarrow> length e = es"
    and slots_cap: "inv q \<Longrightarrow> length (slots q) \<le> cap"
    and rd_empty: "inv q \<Longrightarrow> slots q = [] \<Longrightarrow> rd n q = None"
    and rd_slot: "inv q \<Longrightarrow> slots q = e # r \<Longrightarrow> n \<le> es \<Longrightarrow>
      \<exists>q'. rd n q = Some (take n e, q') \<and> inv q' \<and> slots q' = r"
    and wr_full: "inv q \<Longrightarrow> length (slots q) = cap \<Longrightarrow> wr d q = None"
    and wr_slot: "inv q \<Longrightarrow> length (slots q) < cap \<Longrightarrow> length d \<le> es \<Longrightarrow>
      \<exists>q' e. wr d q = Some q' \<and> inv q' \<and> slots q' = slots q @ [e] \<and> take (length d) e = d"
begin

lemma read_slots_spec:
  assumes "inv q" and "slots q = E @ R"
  shows "\<exists>q'. read_slots rd (length E) es q = Some (concat E, q') \<and> inv q' \<and> slots q' = R"
  using assms
proof (induction E arbitrary: q)
  case (Cons e E)
  then obtain q1 where "rd es q = Some (take es e, q1)" "inv q1" "slots q1 = E @ R"
    using rd_slot [of q e "E @ R" es] by auto
  moreover have "length e = es" using slot_length [of q e] Cons.prems by simp
  ultimately show ?case using Cons.IH [of q1] by auto
qed simp

lemma write_slots_spec:
  assumes "inv q" and "length (slots q) + n \<le> cap" and "n * es \<le> length d"
  shows "\<exists>q' E. write_slots wr n es d q = Some q' \<and> inv q' \<and> slots q' = slots q @ E \<and>
    length E = n \<and> concat E = take (n * es) d"
  using assms
proof (induction n arbitrary: q d)
  case (Suc n)
  have "length (take es d) = es" using Suc.prems(3) by simp
  then obtain q1 e where q1: "wr (take es d) q = Some q1" "inv q1" "slots q1 = slots q @ [e]"
    "take es e = take es d"
    using wr_slot [of q "take es d"] Suc.prems by auto
  have e: "e = take es d" using q1 slot_length [OF q1(2), of e] by simp
  have "n * es \<le> length (drop es d)" using Suc.prems(3) by simp
  then obtain q' E where "write_slots wr n es (drop es d) q1 = Some q'" "inv q'" "slots q' = slots q1 @ E"
    "length E = n" "concat E = take (n * es) (drop es d)"
    using Suc.IH [of q1 "drop es d"] q1 Suc.prems by auto
  then show ?case using q1 e by (auto simp: take_add)
qed simp

lemma write_spec:
  assumes "inv q" and "length (slots q) + slots_needed es (length d) \<le> cap"
  shows "\<exists>q' E. queue_write wr es d q = Some q' \<and> inv q' \<and> slots q' = slots q @ E \<and>
    length E = slots_needed es (length d) \<and> take (length d) (concat E) = d"
proof -
  let ?n = "length d div es" and ?r = "length d mod es"
  have le: "?n * es \<le> length d" by simp
  obtain q1 E where q1: "write_slots wr ?n es d q = Some q1" "inv q1" "slots q1 = slots q @ E"
    "length E = ?n" "concat E = take (?n * es) d"
    using write_slots_spec [OF assms(1) _ le] assms(2) by (auto simp: slots_needed_def split: if_splits)
  show ?thesis
  proof (cases "?r = 0")
    case True
    then have "take (?n * es) d = d" using div_mult_mod_eq [of "length d" es] by simp
    then show ?thesis using q1 True by (auto simp: queue_write_def slots_needed_def)
  next
    case False
    have rest: "length (drop (?n * es) d) = ?r" by (simp add: minus_div_mult_eq_mod)
    have gt: "?n * es < length d" using False div_mult_mod_eq [of "length d" es] by linarith
    have "?r \<le> es" using es_pos [OF assms(1)] by (simp add: less_imp_le)
    with rest obtain q2 e where q2: "wr (drop (?n * es) d) q1 = Some q2" "inv q2"
      "slots q2 = slots q1 @ [e]" "take ?r e = drop (?n * es) d"
      using wr_slot [of q1 "drop (?n * es) d"] q1 assms(2) False by (auto simp: slots_needed_def)
    have "take (length d) (concat E @ e) = take (?n * es) d @ take ?r e"
      using q1(5) rest gt by (simp add: min_def)
    then have "take (length d) (concat (E @ [e])) = d" using q2(4) by simp
    then show ?thesis using q1 q2 False by (auto simp: queue_write_def slots_needed_def)
  qed
qed

lemma read_spec:
  assumes "inv q" and "slots q = E @ R" and "length E = slots_needed es n"
  shows "\<exists>q'. queue_read rd es n q = Some (take n (concat E), q') \<and> inv q' \<and> slots q' = R"
proof (cases "n mod es = 0")
  case True
  obtain q' where q': "read_slots rd (length E) es q = Some (concat E, q')" "inv q'" "slots q' = R"
    using read_slots_spec [OF assms(1,2)] by blast
  have "length (concat E) = n"
    using True assms slot_length [OF assms(1)] div_mult_mod_eq [of n es]
    by (simp add: length_concat slots_needed_def sum_list_triv cong: map_cong)
  then show ?thesis using q' True assms(3) by (simp add: queue_read_def slots_needed_def)
next
  case False
  then obtain E1 e where E: "E = E1 @ [e]" "length E1 = n div es"
    using assms(3) by (cases E rule: rev_cases) (auto simp: slots_needed_def)
  obtain q1 where q1: "read_slots rd (n div es) es q = Some (concat E1, q1)" "inv q1" "slots q1 = e # R"
    using read_slots_spec [of q E1 "e # R"] assms E by auto
  moreover obtain q2 where "rd (n mod es) q1 = Some (take (n mod es) e, q2)" "inv q2" "slots q2 = R"
    using rd_slot [OF q1(2,3), of "n mod es"] es_pos [OF assms(1)] by (auto simp: less_imp_le)
  moreover have "length (concat E1) = n div es * es"
    using E assms slot_length [OF assms(1)] by (simp add: length_concat sum_list_triv cong: map_cong)
  ultimately show ?thesis using False E by (auto simp: queue_read_def minus_div_mult_eq_mod)
qed

lemma write_msgs_spec:
  assumes "inv q" and "length (slots q) + sum_list (map (\<lambda>d. slots_needed es (length d)) ds) \<le> cap"
  shows "\<exists>q' Es. write_msgs wr es ds q = Some q' \<and> inv q' \<and> slots q' = slots q @ concat Es \<and>
    list_all2 (carries es) Es ds"
  using assms
proof (induction ds arbitrary: q)
  case (Cons d ds)
  obtain q1 E where q1: "queue_write wr es d q = Some q1" "inv q1" "slots q1 = slots q @ E" "carries es E d"
    using write_spec [of q d] Cons.prems by (auto simp: carries_def)
  then have "length (slots q1) + sum_list (map (\<lambda>d. slots_needed es (length d)) ds) \<le> cap"
    using Cons.prems(2) by (simp add: carries_def)
  then obtain q' Es where "write_msgs wr es ds q1 = Some q'" "inv q'" "slots q' = slots q1 @ concat Es"
    "list_all2 (carries es) Es ds" using Cons.IH q1(2) by blast
  then have "write_msgs wr es (d # ds) q = Some q' \<and> inv q' \<and> slots q' = slots q @ concat (E # Es) \<and>
      list_all2 (carries es) (E # Es) (d # ds)" using q1 by simp
  then show ?case by blast
qed simp

lemma read_msgs_spec:
  assumes "inv q" and "slots q = concat Es @ R" and "list_all2 (carries es) Es ds"
  shows "\<exists>q'. read_msgs rd es (map length ds) q = Some (ds, q') \<and> inv q' \<and> slots q' = R"
  using assms(3,1,2)
proof (induction arbitrary: q)
  case (Cons E Es d ds)
  then obtain q1 where "queue_read rd es (length d) q = Some (d, q1)" "inv q1" "slots q1 = concat Es @ R"
    using read_spec [of q E "concat Es @ R" "length d"] by (auto simp: carries_def)
  then show ?case using Cons.IH [of q1] by auto
qed simp

lemma messages_fifo:
  assumes "inv q" and "slots q = []" and "sum_list (map (\<lambda>d. slots_needed es (length d)) ds) \<le> cap"
  shows "\<exists>q' q''. write_msgs wr es ds q = Some q' \<and>
    read_msgs rd es (map length ds) q' = Some (ds, q'') \<and> inv q'' \<and> slots q'' = []"
proof -
  obtain q' Es where q': "write_msgs wr es ds q = Some q'" "inv q'" "slots q' = concat Es @ []"
    "list_all2 (carries es) Es ds" using write_msgs_spec [of q ds] assms by auto
  then show ?thesis using read_msgs_spec by blast
qed

lemma steps_slots:
  assumes "q_steps rd wr es q ins outs q'" and "inv q" and "slots q = []"
  shows "inv q' \<and> (\<exists>S. length S = length outs \<and> length (S @ slots q') = length ins \<and>
    (\<forall>i < length ins. take (length (ins ! i)) ((S @ slots q') ! i) = ins ! i) \<and>
    (\<forall>i < length outs. outs ! i = take (length (outs ! i)) (S ! i)))"
  using assms
proof (induction rule: q_steps.induct)
  case (put ins outs q1 d q2)
  then obtain S where q1: "inv q1" and S: "length S = length outs" "length (S @ slots q1) = length ins"
    "\<forall>i < length ins. take (length (ins ! i)) ((S @ slots q1) ! i) = ins ! i"
    "\<forall>i < length outs. outs ! i = take (length (outs ! i)) (S ! i)" by blast
  have "length (slots q1) < cap"
    using wr_full [OF q1, of d] put.hyps slots_cap [OF q1] by (metis le_neq_implies_less option.distinct(1))
  then obtain e where e: "inv q2" "slots q2 = slots q1 @ [e]" "take (length d) e = d"
    using wr_slot [OF q1 _ put.hyps(2)] put.hyps(3) by auto
  have "take (length ((ins @ [d]) ! i)) ((S @ slots q2) ! i) = (ins @ [d]) ! i"
    if "i < length (ins @ [d])" for i
  proof (cases "i < length ins")
    case True
    then have "(S @ slots q2) ! i = (S @ slots q1) ! i" using S(2) e(2) by (auto simp: nth_append)
    then show ?thesis using S(3) True by (simp add: nth_append)
  next
    case False
    then have "i = length ins" using that by simp
    moreover have "(S @ slots q2) ! length ins = e"
      unfolding S(2) [symmetric] e(2) append_assoc [symmetric] by (rule nth_append_length)
    ultimately show ?thesis using e(3) by simp
  qed
  then show ?case using e S by auto
next
  case (get ins outs q1 n x q2)
  then obtain S where q1: "inv q1" and S: "length S = length outs" "length (S @ slots q1) = length ins"
    "\<forall>i < length ins. take (length (ins ! i)) ((S @ slots q1) ! i) = ins ! i"
    "\<forall>i < length outs. outs ! i = take (length (outs ! i)) (S ! i)" by blast
  obtain e r where er: "slots q1 = e # r" using rd_empty [OF q1, of n] get.hyps(3) by (cases "slots q1") auto
  then have q2: "inv q2" "slots q2 = r" "x = take n e" using rd_slot [OF q1 er get.hyps(2)] get.hyps(3) by auto
  have "\<forall>i < length (outs @ [x]). (outs @ [x]) ! i = take (length ((outs @ [x]) ! i)) ((S @ [e]) ! i)"
    using S(1,4) q2(3) by (auto simp: nth_append less_Suc_eq min_def)
  moreover have "(S @ [e]) @ slots q2 = S @ slots q1" using er q2 by simp
  ultimately show ?case using q2(1) S by (intro conjI exI [of _ "S @ [e]"]) auto
qed simp

lemma interleaving_fifo:
  assumes "q_steps rd wr es q ins outs q'" and "inv q" and "slots q = []"
  shows "length outs \<le> length ins \<and> length ins \<le> length outs + cap \<and>
    (\<forall>i < length outs. length (outs ! i) \<le> length (ins ! i) \<longrightarrow> outs ! i = take (length (outs ! i)) (ins ! i))"
proof -
  obtain S where q': "inv q'" and S: "length S = length outs" "length (S @ slots q') = length ins"
    "\<forall>i < length ins. take (length (ins ! i)) ((S @ slots q') ! i) = ins ! i"
    "\<forall>i < length outs. outs ! i = take (length (outs ! i)) (S ! i)" using steps_slots [OF assms] by blast
  have "outs ! i = take (length (outs ! i)) (ins ! i)"
    if i: "i < length outs" and le: "length (outs ! i) \<le> length (ins ! i)" for i
  proof -
    have "take (length (ins ! i)) (S ! i) = ins ! i"
      using S(3) [rule_format, of i] S(1,2) i by (simp add: nth_append)
    then have "take (length (outs ! i)) (ins ! i) = take (length (outs ! i)) (S ! i)"
      using le take_take [of "length (outs ! i)" "length (ins ! i)" "S ! i"] by (simp add: min_def)
    then show ?thesis by (rule trans [OF S(4) [rule_format, OF i] sym])
  qed
  then show ?thesis using S(1,2) slots_cap [OF q'] by simp
qed

end

section \<open>The ring implements the contract\<close>

definition ring_wf :: "nat \<Rightarrow> nat \<Rightarrow> shm_queue \<Rightarrow> bool" where
  "ring_wf es cap q \<longleftrightarrow>
     0 < es \<and> q_elem_size q = es \<and> q_max_num_elems q = cap \<and> 0 < cap \<and> length (q_shm q) = cap * es \<and>
     (\<exists>a < cap. q_first_elem q = a * es \<and> q_last_elem q = (a + q_sem_num_elems q) mod cap * es) \<and>
     q_sem_num_elems q + q_sem_num_empty q = cap"

definition slot_at :: "nat \<Rightarrow> cell list \<Rightarrow> nat \<Rightarrow> cell list" where
  "slot_at es mem i = seg (i * es) es mem"

definition ring_slots :: "shm_queue \<Rightarrow> cell list list" where
  "ring_slots q =
     map (\<lambda>k. slot_at (q_elem_size q) (q_shm q)
                ((q_first_elem q div q_elem_size q + k) mod q_max_num_elems q))
       [0..<q_sem_num_elems q]"

lemma length_ring_slots [simp]: "length (ring_slots q) = q_sem_num_elems q"
  by (simp add: ring_slots_def)

lemma slot_fits: "i < cap \<Longrightarrow> i * es + es \<le> cap * (es :: nat)"
  using mult_le_mono1 [of "Suc i" cap es] by simp

lemma length_slot_at: "i < cap \<Longrightarrow> length mem = cap * es \<Longrightarrow> length (slot_at es mem i) = es"
  using slot_fits [of i cap es] by (simp add: slot_at_def list_mem)

lemma slot_step: "0 < es \<Longrightarrow> (i * es + es) mod (cap * es) = (Suc i mod cap) * (es :: nat)"
  using mult_mod_left [of "Suc i" cap es] by (simp add: add.commute)

lemma slot_at_blit_other:
  assumes "i < cap" and "j < cap" and "i \<noteq> j" and "length mem = cap * es" and "length d \<le> es"
  shows "slot_at es (blit (j * es) d mem) i = slot_at es mem i"
proof -
  have "i * es + es \<le> j * es \<or> j * es + es \<le> i * es"
    using slot_fits [of i j es] slot_fits [of j i es] assms(3) by linarith
  then show ?thesis
    unfolding slot_at_def using slot_fits [OF assms(1), of es] slot_fits [OF assms(2), of es] assms(4,5)
    by (intro seg_blit_disjoint) auto
qed

lemma slot_at_blit_same:
  assumes "j < cap" and "length mem = cap * es" and "length d \<le> es"
  shows "take (length d) (slot_at es (blit (j * es) d mem) j) = d"
proof -
  have "take (length d) (slot_at es (blit (j * es) d mem) j) = seg (j * es) (length d) (blit (j * es) d mem)"
    using assms(3) by (simp add: slot_at_def seg_def)
  then show ?thesis using slot_fits [OF assms(1), of es] assms(2,3) by (simp add: seg_blit_same)
qed

lemma mod_add_inj:
  assumes "(a + k) mod c = (a + l) mod c" and "k < c" and "l < (c :: nat)"
  shows "k = l"
proof -
  have eq: "l' = k'" if "k' \<le> l'" "(a + k') mod c = (a + l') mod c" "l' < c" for k' l' :: nat
  proof -
    have "c dvd l' - k'" using that mod_eq_dvd_iff_nat [of "a + k'" "a + l'" c] by simp
    then show ?thesis using that by (auto dest: dvd_imp_le)
  qed
  show ?thesis
  proof (cases "k \<le> l")
    case True
    from eq [OF this assms(1,3)] show ?thesis by (rule sym)
  next
    case False
    then have "l \<le> k" by simp
    from eq [OF this assms(1) [symmetric] assms(2)] show ?thesis .
  qed
qed

lemma ring_index:
  assumes "ring_wf es cap q"
  obtains a where "a < cap" and "q_first_elem q = a * es"
    and "q_last_elem q = (a + q_sem_num_elems q) mod cap * es"
    and "ring_slots q = map (\<lambda>k. slot_at es (q_shm q) ((a + k) mod cap)) [0..<q_sem_num_elems q]"
  using assms by (auto simp: ring_wf_def ring_slots_def)

lemma ring_read1:
  assumes q: "ring_wf es cap q" and sl: "ring_slots q = e # r" and n: "n \<le> es"
  shows "\<exists>q'. q_read1 n q = Some (take n e, q') \<and> ring_wf es cap q' \<and> ring_slots q' = r"
proof -
  obtain a where a: "a < cap" "q_first_elem q = a * es"
    "q_last_elem q = (a + q_sem_num_elems q) mod cap * es"
    "ring_slots q = map (\<lambda>k. slot_at es (q_shm q) ((a + k) mod cap)) [0..<q_sem_num_elems q]"
    using ring_index [OF q] by blast
  have es: "0 < es" using q by (simp add: ring_wf_def)
  obtain m where m: "q_sem_num_elems q = Suc m" using sl length_ring_slots [of q] by (cases "q_sem_num_elems q") auto
  let ?q = "q\<lparr>q_sem_num_elems := m, q_first_elem := (Suc a mod cap) * es,
              q_sem_num_empty := q_sem_num_empty q + 1\<rparr>"
  have "e = slot_at es (q_shm q) a" and r: "r = map (\<lambda>k. slot_at es (q_shm q) ((a + Suc k) mod cap)) [0..<m]"
    using sl a m by (simp_all add: upt_conv_Cons map_Suc_upt [symmetric] o_def del: upt_Suc)
  then have "take n e = seg (a * es) n (q_shm q)" using n by (simp add: slot_at_def seg_def)
  moreover have "(a * es + es) mod (cap * es) = Suc a mod cap * es" using es by (rule slot_step)
  ultimately have "q_read1 n q = Some (take n e, ?q)"
    using a m q by (simp add: q_read1_def q_buff_size_def ring_wf_def)
  moreover have "ring_wf es cap ?q"
    using q a m by (auto simp: ring_wf_def mod_simps intro!: exI [of _ "Suc a mod cap"])
  moreover have "ring_slots ?q = r"
    using q es unfolding r by (auto simp: ring_slots_def ring_wf_def mod_simps)
  ultimately show ?thesis by blast
qed

lemma ring_write1:
  assumes q: "ring_wf es cap q" and room: "q_sem_num_elems q < cap" and d: "length d \<le> es"
  shows "\<exists>q' e. q_write1 d q = Some q' \<and> ring_wf es cap q' \<and> ring_slots q' = ring_slots q @ [e] \<and>
    take (length d) e = d"
proof -
  let ?m = "q_sem_num_elems q"
  obtain a where a: "a < cap" "q_first_elem q = a * es" "q_last_elem q = (a + ?m) mod cap * es"
    "ring_slots q = map (\<lambda>k. slot_at es (q_shm q) ((a + k) mod cap)) [0..<?m]"
    using ring_index [OF q] by blast
  have es: "0 < es" using q by (simp add: ring_wf_def)
  let ?b = "(a + ?m) mod cap"
  let ?shm = "blit (?b * es) d (q_shm q)"
  let ?q = "q\<lparr>q_sem_num_empty := q_sem_num_empty q - 1, q_shm := ?shm,
              q_last_elem := Suc ?b mod cap * es, q_sem_num_elems := Suc ?m\<rparr>"
  have b: "?b < cap" and len: "length (q_shm q) = cap * es" and empty: "q_sem_num_empty q \<noteq> 0"
    using a room q by (auto simp: ring_wf_def)
  have "(?b * es + es) mod (cap * es) = Suc ?b mod cap * es" using es by (rule slot_step)
  then have "q_write1 d q = Some ?q"
    using a empty q by (simp add: q_write1_def q_buff_size_def ring_wf_def)
  moreover have "ring_wf es cap ?q"
    using q a empty d slot_fits [OF b, of es]
    by (auto simp: ring_wf_def length_blit mod_simps intro!: exI [of _ a])
  moreover have "ring_slots ?q = ring_slots q @ [slot_at es ?shm ?b]"
  proof -
    have "slot_at es ?shm ((a + k) mod cap) = slot_at es (q_shm q) ((a + k) mod cap)" if "k < ?m" for k
      using slot_at_blit_other [of "(a + k) mod cap" cap ?b, OF _ b _ len d] mod_add_inj [of a k cap ?m]
        that room a(1) by auto
    then show ?thesis using q a es by (simp add: ring_slots_def ring_wf_def)
  qed
  moreover have "take (length d) (slot_at es ?shm ?b) = d" by (rule slot_at_blit_same [OF b len d])
  ultimately show ?thesis by blast
qed

lemma ring_slot_length:
  assumes "ring_wf es cap q" and "e \<in> set (ring_slots q)"
  shows "length e = es"
  by (rule ring_index [OF assms(1)]) (use assms in \<open>auto simp: ring_wf_def length_slot_at [of _ cap]\<close>)

interpretation ring: elem_queue es cap "ring_wf es cap" ring_slots q_read1 q_write1 for es cap
proof
  fix q e r n d
  assume q: "ring_wf es cap q"
  then show "0 < es" by (simp add: ring_wf_def)
  show "e \<in> set (ring_slots q) \<Longrightarrow> length e = es" using q by (rule ring_slot_length)
  show le: "length (ring_slots q) \<le> cap" using q by (simp add: ring_wf_def)
  show "ring_slots q = [] \<Longrightarrow> q_read1 n q = None"
    using length_ring_slots [of q] by (simp add: q_read1_def)
  show "ring_slots q = e # r \<Longrightarrow> n \<le> es \<Longrightarrow>
      \<exists>q'. q_read1 n q = Some (take n e, q') \<and> ring_wf es cap q' \<and> ring_slots q' = r"
    using q by (rule ring_read1)
  show "length (ring_slots q) = cap \<Longrightarrow> q_write1 d q = None" using q by (simp add: q_write1_def ring_wf_def)
  show "length (ring_slots q) < cap \<Longrightarrow> length d \<le> es \<Longrightarrow> \<exists>q' e. q_write1 d q = Some q' \<and>
      ring_wf es cap q' \<and> ring_slots q' = ring_slots q @ [e] \<and> take (length d) e = d"
    using ring_write1 [OF q] by simp
qed

definition sq_wf :: "nat \<Rightarrow> nat \<Rightarrow> slot_queue \<Rightarrow> bool" where
  "sq_wf es cap q \<longleftrightarrow> 0 < es \<and> sq_elem_size q = es \<and> sq_cap q = cap \<and> length (sq_slots q) \<le> cap \<and>
     (\<forall>e \<in> set (sq_slots q). length e = es)"

interpretation slotq: elem_queue es cap "sq_wf es cap" sq_slots sq_read1 sq_write1 for es cap
  by unfold_locales (auto simp: sq_wf_def sq_read1_def sq_write1_def)

text \<open>
  The ring simulates the list of slots: a cell that the list leaves unspecified may hold
  anything in the ring, every other cell agrees.
\<close>

definition cells_refine :: "cell list \<Rightarrow> cell list \<Rightarrow> bool" where
  "cells_refine c a \<longleftrightarrow> list_all2 (\<lambda>x y. y = None \<or> x = y) c a"

definition queue_refines :: "nat \<Rightarrow> nat \<Rightarrow> shm_queue \<Rightarrow> slot_queue \<Rightarrow> bool" where
  "queue_refines es cap q s \<longleftrightarrow>
     ring_wf es cap q \<and> sq_wf es cap s \<and> list_all2 cells_refine (ring_slots q) (sq_slots s)"

lemma cells_refine_refl: "cells_refine xs xs"
  by (simp add: cells_refine_def list_all2_refl)

lemma cells_refine_take: "cells_refine xs ys \<Longrightarrow> cells_refine (take n xs) (take n ys)"
  by (simp add: cells_refine_def list_all2_takeI)

lemma cells_refine_padded:
  assumes "take (length d) e = d" and "length e = es"
  shows "cells_refine e (d @ replicate (es - length d) None)"
proof -
  have "list_all2 (\<lambda>x y. y = None \<or> x = y) (d @ drop (length d) e) (d @ replicate (es - length d) None)"
    using assms(2) by (intro list_all2_appendI) (auto simp: list_all2_refl list_all2_conv_all_nth)
  then show ?thesis using assms(1) append_take_drop_id [of "length d" e] by (simp add: cells_refine_def)
qed

lemma queue_refines_write:
  assumes "queue_refines es cap q s" and "length d \<le> es"
  shows "rel_option (queue_refines es cap) (q_write1 d q) (sq_write1 d s)"
proof -
  have q: "ring_wf es cap q" and s: "sq_wf es cap s" and rel: "list_all2 cells_refine (ring_slots q) (sq_slots s)"
    using assms(1) by (auto simp: queue_refines_def)
  have len: "length (ring_slots q) = length (sq_slots s)" using rel by (rule list_all2_lengthD)
  show ?thesis
  proof (cases "length (sq_slots s) < cap")
    case True
    then obtain q' e where q': "q_write1 d q = Some q'" "ring_wf es cap q'" "ring_slots q' = ring_slots q @ [e]"
      "take (length d) e = d" using ring.wr_slot [OF q] assms(2) len by metis
    moreover have "length e = es" using ring_slot_length [OF q'(2)] q'(3) by simp
    moreover have "sq_write1 d s = Some (s\<lparr>sq_slots := sq_slots s @ [d @ replicate (es - length d) None]\<rparr>)"
      "sq_wf es cap (s\<lparr>sq_slots := sq_slots s @ [d @ replicate (es - length d) None]\<rparr>)"
      using True s assms(2) by (auto simp: sq_write1_def sq_wf_def)
    ultimately show ?thesis using rel cells_refine_padded
      by (auto simp: queue_refines_def intro!: list_all2_appendI)
  next
    case False
    then have "length (sq_slots s) = cap" using s by (simp add: sq_wf_def)
    then show ?thesis using ring.wr_full [OF q] slotq.wr_full [OF s] len by simp
  qed
qed

lemma queue_refines_read:
  assumes "queue_refines es cap q s" and "n \<le> es"
  shows "rel_option (\<lambda>(x, q') (y, s'). cells_refine x y \<and> queue_refines es cap q' s') (q_read1 n q) (sq_read1 n s)"
proof -
  have q: "ring_wf es cap q" and s: "sq_wf es cap s" and rel: "list_all2 cells_refine (ring_slots q) (sq_slots s)"
    using assms(1) by (auto simp: queue_refines_def)
  show ?thesis
  proof (cases "sq_slots s")
    case Nil
    then show ?thesis using rel ring.rd_empty [OF q] slotq.rd_empty [OF s] by simp
  next
    case (Cons y ys)
    with rel obtain x xs where x: "ring_slots q = x # xs" "cells_refine x y" "list_all2 cells_refine xs ys"
      by (auto simp: list_all2_Cons2)
    then show ?thesis
      using ring.rd_slot [OF q x(1) assms(2)] slotq.rd_slot [OF s Cons assms(2)] cells_refine_take
      by (auto simp: queue_refines_def)
  qed
qed

lemma ring_wf_new: "0 < es \<Longrightarrow> 0 < cap \<Longrightarrow> ring_wf es cap (Queue_new None cap es)"
  by (simp add: ring_wf_def Queue_new_def)

lemma ring_slots_new [simp]: "ring_slots (Queue_new None cap es) = []"
  by (simp add: ring_slots_def Queue_new_def)

section \<open>Properties\<close>

text \<open>
  C16: messages of any sizes that fit the ring together come out of a queue without pending
  slots whole, unchanged and in order, when they are read with the sizes they were written
  with, and leave it without pending slots again.
\<close>

theorem queue_messages_roundtrip:
  assumes "ring_wf es cap q" and "ring_slots q = []"
    and "sum_list (map (\<lambda>d. slots_needed es (length d)) ds) \<le> cap"
  shows "\<exists>q' q''. write_msgs q_write1 es ds q = Some q' \<and>
    read_msgs q_read1 es (map length ds) q' = Some (ds, q'') \<and> ring_wf es cap q'' \<and> ring_slots q'' = []"
  using assms by (rule ring.messages_fifo)

theorem queue_messages_roundtrip_witness:
  "\<exists>q' q''. write_msgs q_write1 2 [[Some 1, Some 2, Some 3], [Some 4]] (Queue_new None 4 2) = Some q' \<and>
     read_msgs q_read1 2 (map length [[Some 1, Some 2, Some 3], [Some 4]]) q' = Some ([[Some 1, Some 2, Some 3], [Some 4]], q'') \<and>
     ring_wf 2 4 q'' \<and> ring_slots q'' = []"
  using queue_messages_roundtrip [of 2 4 "Queue_new None 4 2" "[[Some 1, Some 2, Some 3], [Some 4]]"]
  by (simp add: ring_wf_new slots_needed_def)

text \<open>
  C15: in every interleaving of the two ends of a new queue, the transfers that left are the
  first ones that entered, in the same order, each with the bytes it was written with as far
  as both sizes go, and never more than \<open>max_num_elems\<close> transfers are in the ring.
\<close>

theorem queue_interleaving_fifo:
  assumes "q_steps q_read1 q_write1 es (Queue_new None cap es) ins outs q'" and "0 < es" and "0 < cap"
  shows "length outs \<le> length ins \<and> length ins \<le> length outs + cap \<and>
    (\<forall>i < length outs. length (outs ! i) \<le> length (ins ! i) \<longrightarrow> outs ! i = take (length (outs ! i)) (ins ! i))"
  using ring.interleaving_fifo [OF assms(1) ring_wf_new] assms(2,3) by simp

lemma q_steps_example:
  "q_steps q_read1 q_write1 2 (Queue_new None 1 2) [[Some 1], [Some 2, Some 3]] [[Some 1]]
     \<lparr>q_shm = [Some 2, Some 3], q_max_num_elems = 1, q_elem_size = 2, q_first_elem = 0, q_last_elem = 0,
      q_sem_num_elems = 1, q_sem_num_empty = 0\<rparr>"
proof -
  have 1: "q_steps q_read1 q_write1 2 (Queue_new None 1 2) ([] @ [[Some 1]]) []
     \<lparr>q_shm = [Some 1, Some 0], q_max_num_elems = 1, q_elem_size = 2, q_first_elem = 0, q_last_elem = 0,
      q_sem_num_elems = 1, q_sem_num_empty = 0\<rparr>"
    by (rule q_steps.put [OF q_steps.start])
      (simp_all add: q_write1_def Queue_new_def q_buff_size_def blit_def numeral_2_eq_2)
  have 2: "q_steps q_read1 q_write1 2 (Queue_new None 1 2) ([] @ [[Some 1]]) ([] @ [[Some 1]])
     \<lparr>q_shm = [Some 1, Some 0], q_max_num_elems = 1, q_elem_size = 2, q_first_elem = 0, q_last_elem = 0,
      q_sem_num_elems = 0, q_sem_num_empty = 1\<rparr>"
    by (rule q_steps.get [OF 1, of 1]) (simp_all add: q_read1_def q_buff_size_def seg_def)
  show ?thesis
    using q_steps.put [OF 2, of "[Some 2, Some 3]"] by (simp add: q_write1_def q_buff_size_def blit_def)
qed

theorem queue_interleaving_fifo_witness:
  "\<exists>q'. q_steps q_read1 q_write1 2 (Queue_new None 1 2) [[Some 1], [Some 2, Some 3]] [[Some 1]] q' \<and>
     length [[Some 1]] \<le> length [[Some 1], [Some 2, Some (3 :: byte)]]"
  using queue_interleaving_fifo [OF q_steps_example] q_steps_example by auto

text \<open>
  C14: the ring refines the list of slots: slot transfers block together at full and empty,
  and otherwise lead to related queues and hand over the bytes that were written.
\<close>

theorem ring_refines_slots:
  assumes "queue_refines es cap q s" and "length d \<le> es" and "n \<le> es"
  shows "rel_option (queue_refines es cap) (q_write1 d q) (sq_write1 d s) \<and>
    rel_option (\<lambda>(x, q') (y, s'). cells_refine x y \<and> queue_refines es cap q' s') (q_read1 n q) (sq_read1 n s)"
  using queue_refines_write queue_refines_read assms by simp

theorem ring_refines_slots_witness:
  "queue_refines 2 1 (Queue_new None 1 2) (sq_new 1 2) \<and>
   rel_option (queue_refines 2 1) (q_write1 [Some 5] (Queue_new None 1 2)) (sq_write1 [Some 5] (sq_new 1 2)) \<and>
   q_write1 [Some 5] (Queue_new None 1 2) \<noteq> None"
proof -
  have rel: "queue_refines 2 1 (Queue_new None 1 2) (sq_new 1 2)"
    by (simp add: queue_refines_def ring_wf_new sq_wf_def sq_new_def)
  show ?thesis using rel ring_refines_slots [OF rel, of "[Some 5]" 0] by (simp add: q_write1_def Queue_new_def)
qed

end
