(* ===== verification/Sectors.thy ===== *)
theory Sectors
  imports Prelude
begin

text \<open>
  The sector index of \<open>CapioFile\<close> (\<open>src/capio/server/src/capio_file.cpp\<close>): the member
  \<open>_sectors\<close>, a \<open>std::set\<close> of pairs ordered by \<open>compareSectors\<close>, that is by the first
  component only, and the member functions that read and update it.

  The set is the list of its elements in iteration order and an iterator is a position in
  that list, so \<open>begin()\<close> is \<open>0\<close> and \<open>end()\<close> is the length. A sector \<open>(lo, hi)\<close> records that
  the bytes \<open>lo, \<dots>, hi - 1\<close> hold data: every caller passes the end of a write, excluded,
  and \<open>FileBuffer::grow\<close> copies \<open>hi - lo\<close> bytes.

  \<open>wf_sectors\<close> is the representation invariant and \<open>covered\<close> the set of bytes the index
  stands for. The lemmas show that insertion keeps the invariant, exactly which bytes it
  adds, and what the four queries return in terms of \<open>covered\<close>.
\<close>

named_theorems sector_simps \<open>unfolding of the sector operations\<close>

type_synonym sector = "off64 \<times> off64"
type_synonym sectors = "sector list"

section \<open>The ordered set\<close>

definition compareSectors :: "sector \<Rightarrow> sector \<Rightarrow> bool" where
  "compareSectors lhs rhs \<longleftrightarrow> fst lhs < fst rhs"

definition lower_bound :: "sector \<Rightarrow> sectors \<Rightarrow> nat" where
  "lower_bound key ss = length (takeWhile (\<lambda>x. compareSectors x key) ss)"

definition upper_bound :: "sector \<Rightarrow> sectors \<Rightarrow> nat" where
  "upper_bound key ss = length (takeWhile (\<lambda>x. \<not> compareSectors key x) ss)"

definition erase_range :: "nat \<Rightarrow> nat \<Rightarrow> sectors \<Rightarrow> sectors" where
  "erase_range i j ss = take i ss @ drop j ss"

fun emplace :: "sector \<Rightarrow> sectors \<Rightarrow> sectors" where
  "emplace p [] = [p]"
| "emplace p (q # qs) =
     (if compareSectors p q then p # q # qs
      else if compareSectors q p then q # emplace p qs
      else q # qs)"

text \<open>The smallest value of the second component, written \<open>LLONG_MIN\<close> in the source.\<close>

definition LLONG_MIN :: off64 where
  "LLONG_MIN = - (2 ^ 63)"

definition CAPIO_SECTOR_NOT_FOUND :: off64 where
  "CAPIO_SECTOR_NOT_FOUND = - 1"

section \<open>The member functions\<close>

definition ss_insertSector :: "off64 \<Rightarrow> off64 \<Rightarrow> sectors \<Rightarrow> sectors" where
  "ss_insertSector new_start new_end ss =
     (let it_start = lower_bound (new_start, LLONG_MIN) ss;
          (new_start, new_end, it_start) =
            (if it_start \<noteq> 0 then
               (let it_prev = ss ! (it_start - 1)
                in if new_start \<le> snd it_prev
                   then (fst it_prev, max new_end (snd it_prev), it_start - 1)
                   else (new_start, new_end, it_start))
             else (new_start, new_end, it_start));
          it_end = upper_bound (new_end + 1, LLONG_MIN) ss;
          new_end =
            (if it_end \<noteq> 0 then
               (let it_last = ss ! (it_end - 1)
                in if new_end < snd it_last then snd it_last else new_end)
             else new_end)
      in emplace (new_start, new_end) (erase_range it_start it_end ss))"

definition ss_getFileSize :: "sectors \<Rightarrow> off64" where
  "ss_getFileSize ss = (if ss \<noteq> [] then snd (last ss) else 0)"

text \<open>The size reported while the file grows, read through \<open>_sectors.rbegin()\<close>.\<close>

definition ss_getStoredSize :: "sectors \<Rightarrow> off64" where
  "ss_getStoredSize ss = (case rev ss of [] \<Rightarrow> 0 | it # _ \<Rightarrow> snd it)"

definition ss_getSectorEnd :: "off64 \<Rightarrow> sectors \<Rightarrow> off64" where
  "ss_getSectorEnd offset ss =
     (if ss = [] then CAPIO_SECTOR_NOT_FOUND
      else let it = upper_bound (offset, 0) ss
           in if it \<noteq> 0 \<and> offset \<le> snd (ss ! (it - 1)) then snd (ss ! (it - 1))
              else CAPIO_SECTOR_NOT_FOUND)"

definition ss_seekData :: "off64 \<Rightarrow> sectors \<Rightarrow> off64" where
  "ss_seekData offset ss =
     (if ss = [] then (if offset = 0 then 0 else - 1)
      else let it = upper_bound (offset, 0) ss
           in if it = 0 then fst (ss ! it)
              else if offset \<le> snd (ss ! (it - 1)) then offset
              else if it = length ss then - 1
              else fst (ss ! it))"

definition ss_seekHole :: "off64 \<Rightarrow> sectors \<Rightarrow> off64" where
  "ss_seekHole offset ss =
     (if ss = [] then (if offset = 0 then 0 else - 1)
      else let it = upper_bound (offset, 0) ss
           in if it = 0 then offset
              else if offset \<le> snd (ss ! (it - 1)) then snd (ss ! (it - 1))
              else if it = length ss then - 1
              else offset)"

section \<open>Invariant and meaning\<close>

text \<open>Sectors are in order, none is inverted, and a byte lies strictly between two neighbours.\<close>

fun wf_sectors :: "sectors \<Rightarrow> bool" where
  "wf_sectors [] \<longleftrightarrow> True"
| "wf_sectors [(lo, hi)] \<longleftrightarrow> lo \<le> hi"
| "wf_sectors ((lo, hi) # (lo', hi') # ss) \<longleftrightarrow> lo \<le> hi \<and> hi < lo' \<and> wf_sectors ((lo', hi') # ss)"

definition covered :: "sectors \<Rightarrow> off64 set" where
  "covered ss = (\<Union>(lo, hi) \<in> set ss. {lo..<hi})"

definition wf_before :: "sector \<Rightarrow> sector \<Rightarrow> bool" where
  "wf_before p q \<longleftrightarrow> snd p < fst q"

lemma wf_sectors_iff:
  "wf_sectors ss \<longleftrightarrow> sorted_wrt wf_before ss \<and> (\<forall>p \<in> set ss. fst p \<le> snd p)"
proof (induction ss rule: wf_sectors.induct)
  case (3 lo hi lo' hi' ss)
  then show ?case by (force simp: wf_before_def)
qed auto

section \<open>Positions in an ordered index\<close>

lemma wf_fst_le_snd: "wf_sectors ss \<Longrightarrow> p \<in> set ss \<Longrightarrow> fst p \<le> snd p"
  by (simp add: wf_sectors_iff)

lemma wf_append_iff:
  "wf_sectors (A @ B) \<longleftrightarrow> wf_sectors A \<and> wf_sectors B \<and> (\<forall>a \<in> set A. \<forall>b \<in> set B. snd a < fst b)"
  by (auto simp: wf_sectors_iff sorted_wrt_append wf_before_def)

lemma wf_Cons_iff:
  "wf_sectors (p # B) \<longleftrightarrow> fst p \<le> snd p \<and> wf_sectors B \<and> (\<forall>b \<in> set B. snd p < fst b)"
  using wf_append_iff [of "[p]" B] by (cases p) simp

lemma length_takeWhile_append:
  assumes "\<forall>x \<in> set A. P x" and "B = [] \<or> \<not> P (hd B)"
  shows "length (takeWhile P (A @ B)) = length A"
proof -
  have "takeWhile P (A @ B) = A @ takeWhile P B" using assms(1) by (simp add: takeWhile_append2)
  moreover have "takeWhile P B = []" using assms(2) by (cases B) auto
  ultimately show ?thesis by simp
qed

lemma lower_bound_append:
  assumes "\<forall>x \<in> set A. fst x < fst k" and "B = [] \<or> fst k \<le> fst (hd B)"
  shows "lower_bound k (A @ B) = length A"
  using assms unfolding lower_bound_def
  by (intro length_takeWhile_append) (auto simp: compareSectors_def)

lemma upper_bound_append:
  assumes "\<forall>x \<in> set A. fst x \<le> fst k" and "B = [] \<or> fst k < fst (hd B)"
  shows "upper_bound k (A @ B) = length A"
  using assms unfolding upper_bound_def
  by (intro length_takeWhile_append) (auto simp: compareSectors_def)

lemma emplace_append:
  assumes "\<forall>x \<in> set A. fst x < fst p" and "\<forall>x \<in> set B. fst p < fst x"
  shows "emplace p (A @ B) = A @ p # B"
  using assms
proof (induction A)
  case Nil
  then show ?case by (cases B) (auto simp: compareSectors_def)
qed (auto simp: compareSectors_def)

text \<open>
  Every index splits at an offset into the sectors that end before it, and the rest; the
  rest starts with the sector that holds or touches the offset, if there is one.
\<close>

lemma wf_split_at:
  assumes "wf_sectors ss"
  obtains A R where "ss = A @ R" and "\<forall>p \<in> set A. snd p < s" and "\<forall>p \<in> set R. s \<le> snd p"
proof
  let ?A = "takeWhile (\<lambda>p. snd p < s) ss" and ?R = "dropWhile (\<lambda>p. snd p < s) ss"
  show ss: "ss = ?A @ ?R" by simp
  show "\<forall>p \<in> set ?A. snd p < s" by (auto dest: set_takeWhileD)
  show "\<forall>p \<in> set ?R. s \<le> snd p"
  proof (cases ?R)
    case (Cons r R')
    from assms ss have "wf_sectors ?R" using wf_append_iff [of ?A ?R] by simp
    moreover from Cons have "s \<le> snd r" using hd_dropWhile [of "\<lambda>p. snd p < s" ss] by auto
    ultimately show ?thesis using Cons by (force simp: wf_Cons_iff dest: wf_fst_le_snd)
  qed (simp del: dropWhile_eq_Nil_conv)
qed

lemma wf_split_start:
  assumes "wf_sectors ss"
  obtains A R where "ss = A @ R" and "\<forall>p \<in> set A. fst p \<le> x" and "\<forall>p \<in> set R. x < fst p"
proof
  let ?A = "takeWhile (\<lambda>p. fst p \<le> x) ss" and ?R = "dropWhile (\<lambda>p. fst p \<le> x) ss"
  show ss: "ss = ?A @ ?R" by simp
  show "\<forall>p \<in> set ?A. fst p \<le> x" by (auto dest: set_takeWhileD)
  show "\<forall>p \<in> set ?R. x < fst p"
  proof (cases ?R)
    case (Cons r R')
    from assms ss have "wf_sectors ?R" using wf_append_iff [of ?A ?R] by simp
    moreover from Cons have "x < fst r" using hd_dropWhile [of "\<lambda>p. fst p \<le> x" ss] by auto
    ultimately show ?thesis using Cons by (force simp: wf_Cons_iff)
  qed (simp del: dropWhile_eq_Nil_conv)
qed

section \<open>Insertion\<close>

text \<open>The two halves of the insertion: once the left edge is settled, the right edge is found.\<close>

lemma ss_insertSector_right:
  assumes "(let it_start = lower_bound (s, LLONG_MIN) ss
            in if it_start \<noteq> 0 then
               (let it_prev = ss ! (it_start - 1)
                in if s \<le> snd it_prev
                   then (fst it_prev, max e (snd it_prev), it_start - 1)
                   else (s, e, it_start))
             else (s, e, it_start)) = (s1, e1, i)"
    and "upper_bound (e1 + 1, LLONG_MIN) ss = j"
    and "(if j \<noteq> 0 then (let l = ss ! (j - 1) in if e1 < snd l then snd l else e1) else e1) = e2"
  shows "ss_insertSector s e ss = emplace (s1, e2) (erase_range i j ss)"
  using assms by (simp only: ss_insertSector_def Let_def prod.case)

text \<open>The end of the new sector once the sector that reaches into it from the left is merged.\<close>

definition merged_end :: "off64 \<Rightarrow> off64 \<Rightarrow> sectors \<Rightarrow> off64" where
  "merged_end s e ss =
     (case find (\<lambda>p. fst p < s \<and> s \<le> snd p) ss of None \<Rightarrow> e | Some p \<Rightarrow> max e (snd p))"

text \<open>The byte, if any, that an insertion marks although neither it nor an older write stored it.\<close>

definition bridged :: "off64 \<Rightarrow> off64 \<Rightarrow> sectors \<Rightarrow> off64 set" where
  "bridged s e ss =
     (let e1 = merged_end s e ss in if e1 + 1 \<in> set (map fst ss) then {e1} else {})"

text \<open>
  The cases of an insertion around \<open>M\<close>, the sectors that are merged, where \<open>A\<close> ends before the new sector and
  \<open>B\<close> starts behind it: the right edge, a first sector that reaches into the new one, and none that does.
\<close>

lemma insertSector_right_edge:
  assumes "\<forall>p \<in> set A. fst p \<le> snd p \<and> snd p < e1" and "\<forall>p \<in> set M. fst p \<le> e1 + 1" and "\<forall>p \<in> set B. e1 + 1 < fst p"
  shows "upper_bound (e1 + 1, LLONG_MIN) (A @ M @ B) = length (A @ M)"
    and "(if length (A @ M) \<noteq> 0 then
        (let l = (A @ M @ B) ! (length (A @ M) - 1) in if e1 < snd l then snd l else e1) else e1)
      = (if M \<noteq> [] then max e1 (snd (last M)) else e1)"
proof -
  show "upper_bound (e1 + 1, LLONG_MIN) (A @ M @ B) = length (A @ M)"
    using upper_bound_append [of "A @ M" "(e1 + 1, LLONG_MIN)" B] assms by (cases B) force+
  have "A \<noteq> [] \<Longrightarrow> snd (last A) < e1" using assms(1) last_in_set by blast
  moreover have "A @ M \<noteq> [] \<Longrightarrow> (A @ M @ B) ! (length (A @ M) - 1) = last (A @ M)"
    using nth_append [of "A @ M" B] by (simp add: last_conv_nth)
  ultimately show "(if length (A @ M) \<noteq> 0 then
        (let l = (A @ M @ B) ! (length (A @ M) - 1) in if e1 < snd l then snd l else e1) else e1)
      = (if M \<noteq> [] then max e1 (snd (last M)) else e1)" by (auto simp: Let_def max_def)
qed

lemma ss_insertSector_reached:
  assumes wf: "wf_sectors (A @ (r # M) @ B)" and A: "\<forall>p \<in> set A. fst p \<le> snd p \<and> snd p < s" and se: "s \<le> e"
    and r: "fst r < s" "s \<le> snd r" and e1: "e1 = max e (snd r)"
    and M: "\<forall>p \<in> set (r # M). fst p \<le> e1 + 1" and B: "\<forall>p \<in> set B. e1 + 1 < fst p"
  shows "ss_insertSector s e (A @ (r # M) @ B) = A @ (fst r, max e1 (snd (last (r # M)))) # B"
proof -
  have "\<forall>p \<in> set A. fst p \<le> snd p \<and> snd p < e1" using A se e1 by fastforce
  note edge = insertSector_right_edge [OF this M B]
  have "wf_sectors (r # (M @ B))" using wf by (simp add: wf_append_iff [of A])
  then have "\<forall>p \<in> set (M @ B). s \<le> fst p" using r(2) unfolding wf_Cons_iff by fastforce
  then have lb: "lower_bound (s, LLONG_MIN) (A @ (r # M) @ B) = Suc (length A)"
    using lower_bound_append [of "A @ [r]" "(s, LLONG_MIN)" "M @ B"] A r(1) by (cases "M @ B") fastforce+
  have er: "erase_range (length A) (length (A @ r # M)) (A @ (r # M) @ B) = A @ B" by (simp add: erase_range_def)
  have "\<forall>p \<in> set A. fst p < fst r" using wf A by (fastforce simp: wf_append_iff)
  then have "emplace (fst r, max e1 (snd (last (r # M)))) (A @ B) = A @ (fst r, max e1 (snd (last (r # M)))) # B"
    using B r(1) e1 se by (intro emplace_append) fastforce+
  moreover have "ss_insertSector s e (A @ (r # M) @ B) =
      emplace (fst r, if r # M \<noteq> [] then max e1 (snd (last (r # M))) else e1) (A @ B)"
    unfolding er [symmetric]
    by (intro ss_insertSector_right [OF _ edge]) (simp only: lb Let_def, simp add: r(2) e1)
  ultimately show ?thesis by simp
qed

lemma ss_insertSector_apart:
  assumes A: "\<forall>p \<in> set A. fst p \<le> snd p \<and> snd p < s" and se: "s \<le> e" and apart: "M = [] \<or> s \<le> fst (hd M)"
    and M: "\<forall>p \<in> set M. fst p \<le> e + 1" and B: "\<forall>p \<in> set B. e + 1 < fst p"
  shows "ss_insertSector s e (A @ M @ B) = A @ (s, if M \<noteq> [] then max e (snd (last M)) else e) # B"
proof -
  have "\<forall>p \<in> set A. fst p \<le> snd p \<and> snd p < e" using A se by fastforce
  note edge = insertSector_right_edge [OF this M B]
  have "M @ B = [] \<or> s \<le> fst (hd (M @ B))" using apart B se by (cases M; cases B) auto
  then have lb: "lower_bound (s, LLONG_MIN) (A @ M @ B) = length A"
    using lower_bound_append [of A "(s, LLONG_MIN)" "M @ B"] A by fastforce
  have prev: "A \<noteq> [] \<Longrightarrow> (A @ M @ B) ! (length A - 1) = last A \<and> snd (last A) < s"
    using A last_in_set by (fastforce simp: nth_append last_conv_nth)
  have er: "erase_range (length A) (length (A @ M)) (A @ M @ B) = A @ B" by (simp add: erase_range_def)
  have "emplace (s, if M \<noteq> [] then max e (snd (last M)) else e) (A @ B)
      = A @ (s, if M \<noteq> [] then max e (snd (last M)) else e) # B"
    using A B se by (intro emplace_append) fastforce+
  moreover have "ss_insertSector s e (A @ M @ B) =
      emplace (s, if M \<noteq> [] then max e (snd (last M)) else e) (A @ B)"
    unfolding er [symmetric] using prev lb
    by (intro ss_insertSector_right [OF _ edge]) (cases "A = []"; simp add: Let_def)
  ultimately show ?thesis by simp
qed

lemma ss_insertSector_split:
  assumes wf: "wf_sectors (A @ M @ B)" and se: "s \<le> e"
    and A: "\<forall>p \<in> set A. snd p < s" and M: "\<forall>p \<in> set M. s \<le> snd p"
    and e1: "e1 = (if M \<noteq> [] \<and> fst (hd M) < s then max e (snd (hd M)) else e)"
    and M': "\<forall>p \<in> set M. fst p \<le> e1 + 1" and B: "\<forall>p \<in> set B. e1 + 1 < fst p"
  shows "ss_insertSector s e (A @ M @ B) =
    A @ (if M \<noteq> [] then min s (fst (hd M)) else s,
         if M \<noteq> [] then max e1 (snd (last M)) else e1) # B"
proof -
  have A': "\<forall>p \<in> set A. fst p \<le> snd p \<and> snd p < s" using A wf wf_fst_le_snd [of "A @ M @ B"] by fastforce
  show ?thesis
  proof (cases "M \<noteq> [] \<and> fst (hd M) < s")
    case True
    then obtain r M2 where Mr: "M = r # M2" and r: "fst r < s" by (cases M) auto
    have "s \<le> snd r" and e1r: "e1 = max e (snd r)" using M Mr e1 True by simp_all
    from ss_insertSector_reached [OF wf [unfolded Mr] A' se r this M' [unfolded Mr] B]
    show ?thesis using Mr r by simp
  next
    case False
    then have "M = [] \<or> s \<le> fst (hd M)" and e1e: "e1 = e" using e1 by auto
    from ss_insertSector_apart [OF A' se this(1) M' [unfolded e1e] B [unfolded e1e]] this(1)
    show ?thesis by (auto simp: e1e min_def)
  qed
qed

lemma find_append_none: "\<forall>x \<in> set A. \<not> P x \<Longrightarrow> find P (A @ B) = find P B"
  by (induction A) auto

lemma merged_end_split:
  assumes "wf_sectors (A @ R)" and "\<forall>p \<in> set A. snd p < s" and "\<forall>p \<in> set R. s \<le> snd p"
  shows "merged_end s e (A @ R) = (if R \<noteq> [] \<and> fst (hd R) < s then max e (snd (hd R)) else e)"
proof -
  have "find (\<lambda>p. fst p < s \<and> s \<le> snd p) (A @ R) = find (\<lambda>p. fst p < s \<and> s \<le> snd p) R"
    using assms(2) by (intro find_append_none) auto
  moreover have "find (\<lambda>p. fst p < s \<and> s \<le> snd p) R =
      (if R \<noteq> [] \<and> fst (hd R) < s then Some (hd R) else None)"
  proof (cases R)
    case (Cons r R')
    have "\<forall>p \<in> set R'. s \<le> fst p" if "s \<le> fst r"
      using assms(1) Cons that by (fastforce simp: wf_append_iff wf_Cons_iff)
    then show ?thesis using assms(3) Cons by (fastforce simp: find_None_iff not_less)
  qed simp
  ultimately show ?thesis by (simp add: merged_end_def)
qed

lemma ss_insertSector_shape:
  assumes wf: "wf_sectors ss" and se: "s \<le> e"
  obtains A M B where "ss = A @ M @ B"
    and "\<forall>p \<in> set A. snd p < s"
    and "\<forall>p \<in> set M. s \<le> snd p \<and> fst p \<le> merged_end s e ss + 1"
    and "\<forall>p \<in> set B. merged_end s e ss + 1 < fst p"
    and "merged_end s e ss = (if M \<noteq> [] \<and> fst (hd M) < s then max e (snd (hd M)) else e)"
    and "ss_insertSector s e ss =
      A @ (if M \<noteq> [] then min s (fst (hd M)) else s,
           if M \<noteq> [] then max (merged_end s e ss) (snd (last M)) else merged_end s e ss) # B"
proof -
  let ?e1 = "merged_end s e ss"
  obtain A R where ss: "ss = A @ R" and A: "\<forall>p \<in> set A. snd p < s" and R: "\<forall>p \<in> set R. s \<le> snd p"
    using wf_split_at [OF wf] by blast
  have e1: "?e1 = (if R \<noteq> [] \<and> fst (hd R) < s then max e (snd (hd R)) else e)"
    using merged_end_split wf A R ss by metis
  have "wf_sectors R" using wf ss by (simp add: wf_append_iff)
  then obtain M B where MB: "R = M @ B" and M: "\<forall>p \<in> set M. fst p \<le> ?e1 + 1"
      and B: "\<forall>p \<in> set B. ?e1 + 1 < fst p"
    using wf_split_start by metis
  have "s \<le> ?e1" unfolding e1 using se by auto
  then have "R \<noteq> [] \<and> fst (hd R) < s \<longleftrightarrow> M \<noteq> [] \<and> fst (hd M) < s"
    using MB B by (cases M; cases B) auto
  then have e1': "?e1 = (if M \<noteq> [] \<and> fst (hd M) < s then max e (snd (hd M)) else e)"
    using e1 MB by (cases M) auto
  have "\<forall>p \<in> set M. s \<le> snd p" using R MB by simp
  from ss_insertSector_split [OF _ se A this e1' M B] wf ss MB
  show ?thesis using that [of A M B] ss MB A R M B e1' by simp
qed

lemma wf_insertSector:
  assumes "wf_sectors ss" and "s \<le> e"
  shows "wf_sectors (ss_insertSector s e ss)"
proof -
  obtain A M B where ss: "ss = A @ M @ B"
    and A: "\<forall>p \<in> set A. snd p < s"
    and M: "\<forall>p \<in> set M. s \<le> snd p \<and> fst p \<le> merged_end s e ss + 1"
    and B: "\<forall>p \<in> set B. merged_end s e ss + 1 < fst p"
    and e1: "merged_end s e ss = (if M \<noteq> [] \<and> fst (hd M) < s then max e (snd (hd M)) else e)"
    and ins: "ss_insertSector s e ss =
      A @ (if M \<noteq> [] then min s (fst (hd M)) else s,
           if M \<noteq> [] then max (merged_end s e ss) (snd (last M)) else merged_end s e ss) # B"
    using ss_insertSector_shape [OF assms] by blast
  have "s \<le> merged_end s e ss" unfolding e1 using assms(2) by auto
  with A B assms(1) ss show ?thesis unfolding ins
    by (cases "M = []") (auto simp: wf_append_iff wf_Cons_iff dest: last_in_set hd_in_set)
qed

lemma covered_Nil [simp]: "covered [] = {}"
  by (simp add: covered_def)

lemma covered_Cons [simp]: "covered (p # ss) = {fst p..<snd p} \<union> covered ss"
  by (cases p) (simp add: covered_def)

lemma covered_append [simp]: "covered (A @ B) = covered A \<union> covered B"
  by (simp add: covered_def)

lemma mem_covered_iff: "x \<in> covered ss \<longleftrightarrow> (\<exists>p \<in> set ss. fst p \<le> x \<and> x < snd p)"
  by (force simp: covered_def)

lemma wf_hd_last:
  assumes "wf_sectors M" and "p \<in> set M"
  shows "fst (hd M) \<le> fst p" and "snd p \<le> snd (last M)"
proof -
  show "fst (hd M) \<le> fst p" using assms by (cases M) (force simp: wf_Cons_iff)+
  from assms(2) obtain M0 l where M: "M = M0 @ [l]" by (cases M rule: rev_cases) auto
  with assms have "p = l \<or> snd p < fst l \<and> fst l \<le> snd l" by (auto simp: wf_append_iff wf_Cons_iff)
  then show "snd p \<le> snd (last M)" using M by auto
qed

lemma covered_block:
  assumes wf: "wf_sectors M" and ne: "M \<noteq> []" and se: "s \<le> e"
    and M: "\<forall>p \<in> set M. s \<le> snd p \<and> fst p \<le> e1 + 1"
    and e1: "e1 = (if fst (hd M) < s then max e (snd (hd M)) else e)"
  shows "{min s (fst (hd M))..<max e1 (snd (last M))}
    = covered M \<union> {s..<e} \<union> (if e1 + 1 \<in> fst ` set M then {e1} else {})" (is "?L = ?R")
proof (intro equalityI subsetI)
  have hd: "hd M \<in> set M" and la: "last M \<in> set M" using ne by simp_all
  fix x assume "x \<in> ?L"
  then consider "x < s" "fst (hd M) \<le> x" | "s \<le> x" "x < e" | "e \<le> x" "x < e1"
    | "e1 \<le> x" "x < snd (last M)" by force
  then show "x \<in> ?R"
  proof cases
    case 1
    moreover have "s \<le> snd (hd M)" using M hd by blast
    ultimately have "x \<in> covered M" using hd by (auto simp: mem_covered_iff intro: bexI [of _ "hd M"])
    then show ?thesis by simp
  next
    case 3
    with e1 se have "x \<in> covered M" using hd
      by (auto simp: mem_covered_iff intro!: bexI [of _ "hd M"] split: if_splits)
    then show ?thesis by simp
  next
    case 4
    show ?thesis
    proof (cases "fst (last M) \<le> x")
      case True
      with 4 have "x \<in> covered M" using la by (auto simp: mem_covered_iff intro: bexI [of _ "last M"])
      then show ?thesis by simp
    next
      case False
      with M la 4 have "x = e1" and "fst (last M) = e1 + 1" by fastforce+
      then show ?thesis using la by (auto simp: image_iff intro!: bexI [of _ "last M"])
    qed
  qed simp
next
  have "s \<le> e1" "e \<le> e1" using e1 se by auto
  fix x assume "x \<in> ?R"
  then consider "x \<in> covered M" | "s \<le> x" "x < e" | p where "p \<in> set M" "fst p = e1 + 1" "x = e1"
    by (auto split: if_splits)
  then show "x \<in> ?L"
  proof cases
    case 1
    then show ?thesis using wf_hd_last [OF wf] by (fastforce simp: mem_covered_iff)
  next
    case 3
    then have "e1 + 1 \<le> snd (last M)"
      using wf_hd_last(2) [OF wf 3(1)] wf_fst_le_snd [OF wf 3(1)] by simp
    then show ?thesis using 3 \<open>s \<le> e1\<close> by simp
  qed (use \<open>e \<le> e1\<close> in auto)
qed

lemma covered_insertSector:
  assumes "wf_sectors ss" and "s \<le> e"
  shows "covered (ss_insertSector s e ss) = covered ss \<union> {s..<e} \<union> bridged s e ss"
proof -
  let ?e1 = "merged_end s e ss"
  obtain A M B where ss: "ss = A @ M @ B"
    and A: "\<forall>p \<in> set A. snd p < s"
    and M: "\<forall>p \<in> set M. s \<le> snd p \<and> fst p \<le> ?e1 + 1"
    and B: "\<forall>p \<in> set B. ?e1 + 1 < fst p"
    and e1: "?e1 = (if M \<noteq> [] \<and> fst (hd M) < s then max e (snd (hd M)) else e)"
    and ins: "ss_insertSector s e ss =
      A @ (if M \<noteq> [] then min s (fst (hd M)) else s,
           if M \<noteq> [] then max ?e1 (snd (last M)) else ?e1) # B"
    using ss_insertSector_shape [OF assms] by blast
  have "s \<le> ?e1" unfolding e1 using assms(2) by auto
  then have "\<forall>p \<in> set A. fst p < ?e1 + 1" using A wf_fst_le_snd [OF assms(1)] ss by fastforce
  then have br: "bridged s e ss = (if ?e1 + 1 \<in> fst ` set M then {?e1} else {})"
    using B ss by (auto simp: bridged_def Let_def)
  show ?thesis
  proof (cases "M = []")
    case True
    then have "covered (ss_insertSector s e ss) = covered A \<union> {s..<e} \<union> covered B"
      using e1 unfolding ins by auto
    then show ?thesis using True br ss by auto
  next
    case False
    have "wf_sectors M" using assms(1) ss by (simp add: wf_append_iff)
    from covered_block [OF this False assms(2) M] e1 False
    have "{min s (fst (hd M))..<max ?e1 (snd (last M))} = covered M \<union> {s..<e} \<union> bridged s e ss"
      unfolding br by simp
    moreover have "covered (ss_insertSector s e ss) =
        covered A \<union> {min s (fst (hd M))..<max ?e1 (snd (last M))} \<union> covered B"
      using False unfolding ins by auto
    ultimately show ?thesis using ss by auto
  qed
qed

section \<open>Queries\<close>

lemma ss_getStoredSize_eq: "ss_getStoredSize ss = ss_getFileSize ss"
  by (cases ss rule: rev_cases) (simp_all add: ss_getStoredSize_def ss_getFileSize_def)

lemma ss_getFileSize_ge: "wf_sectors ss \<Longrightarrow> p \<in> set ss \<Longrightarrow> snd p \<le> ss_getFileSize ss"
  by (auto simp: ss_getFileSize_def wf_hd_last(2))

lemma ss_getFileSize_bounds: "wf_sectors ss \<Longrightarrow> x \<in> covered ss \<Longrightarrow> x < ss_getFileSize ss"
  using ss_getFileSize_ge by (fastforce simp: mem_covered_iff)

lemma ss_getFileSize_insertSector:
  assumes "wf_sectors ss" and "s \<le> e" and "0 \<le> e"
  shows "ss_getFileSize (ss_insertSector s e ss) = max e (ss_getFileSize ss)"
proof -
  let ?e1 = "merged_end s e ss"
  obtain A M B where ss: "ss = A @ M @ B"
    and A: "\<forall>p \<in> set A. snd p < s"
    and M: "\<forall>p \<in> set M. s \<le> snd p \<and> fst p \<le> ?e1 + 1"
    and B: "\<forall>p \<in> set B. ?e1 + 1 < fst p"
    and e1: "?e1 = (if M \<noteq> [] \<and> fst (hd M) < s then max e (snd (hd M)) else e)"
    and ins: "ss_insertSector s e ss =
      A @ (if M \<noteq> [] then min s (fst (hd M)) else s,
           if M \<noteq> [] then max ?e1 (snd (last M)) else ?e1) # B"
    using ss_insertSector_shape [OF assms(1,2)] by blast
  show ?thesis
  proof (cases B rule: rev_cases)
    case Nil
    have "M \<noteq> [] \<Longrightarrow> snd (hd M) \<le> snd (last M)"
      using assms(1) ss by (intro wf_hd_last(2)) (simp_all add: wf_append_iff)
    moreover have "A \<noteq> [] \<Longrightarrow> snd (last A) < s" using A by simp
    moreover have "ss_getFileSize (ss_insertSector s e ss) =
        (if M \<noteq> [] then max ?e1 (snd (last M)) else ?e1)"
      using Nil by (simp add: ss_getFileSize_def ins)
    moreover have "ss_getFileSize ss =
        (if M \<noteq> [] then snd (last M) else if A \<noteq> [] then snd (last A) else 0)"
      using Nil by (simp add: ss_getFileSize_def ss)
    ultimately show ?thesis using assms(2,3) by (cases "M = []"; cases "A = []") (auto simp: e1)
  next
    case (snoc B' b)
    have "e \<le> ?e1" unfolding e1 by simp
    moreover have "fst b \<le> snd b" using wf_fst_le_snd [OF assms(1)] ss snoc by simp
    ultimately have "e \<le> snd b" using B snoc by auto
    then show ?thesis using snoc ss unfolding ss_getFileSize_def ins by simp
  qed
qed

text \<open>
  The position found by \<open>upper_bound\<close> splits the index into the sectors that start at or
  before the offset and those that start after it.
\<close>

lemma ss_query_split:
  assumes "wf_sectors ss" and "ss \<noteq> []"
  obtains A R where "ss = A @ R" and "\<forall>p \<in> set A. fst p \<le> x" and "\<forall>p \<in> set R. x < fst p"
    and "ss_getSectorEnd x ss = (if A \<noteq> [] \<and> x \<le> snd (last A) then snd (last A) else - 1)"
    and "ss_seekData x ss = (if A \<noteq> [] \<and> x \<le> snd (last A) then x
           else if R \<noteq> [] then fst (hd R) else - 1)"
    and "ss_seekHole x ss = (if A \<noteq> [] \<and> x \<le> snd (last A) then snd (last A)
           else if R \<noteq> [] then x else - 1)"
proof -
  obtain A R where ss: "ss = A @ R" and A: "\<forall>p \<in> set A. fst p \<le> x" and R: "\<forall>p \<in> set R. x < fst p"
    using wf_split_start [OF assms(1)] by blast
  have ub: "upper_bound (x, 0) ss = length A"
    using upper_bound_append [of A "(x, 0)" R] ss A R by (cases R) auto
  have nth: "A \<noteq> [] \<Longrightarrow> ss ! (length A - Suc 0) = last A" "R \<noteq> [] \<Longrightarrow> ss ! length A = hd R"
    using ss by (simp_all add: nth_append last_conv_nth hd_conv_nth)
  have len: "length A = length ss \<longleftrightarrow> R = []" "A \<noteq> [] \<Longrightarrow> ss \<noteq> []"
    "ss \<noteq> [] \<Longrightarrow> A = [] \<Longrightarrow> R \<noteq> []" using ss by auto
  show ?thesis
  proof (rule that [OF ss A R])
    show "ss_getSectorEnd x ss = (if A \<noteq> [] \<and> x \<le> snd (last A) then snd (last A) else - 1)"
      using nth(1) len(2) by (cases "A = []") (simp_all add: ss_getSectorEnd_def Let_def ub CAPIO_SECTOR_NOT_FOUND_def)
    show "ss_seekData x ss = (if A \<noteq> [] \<and> x \<le> snd (last A) then x
        else if R \<noteq> [] then fst (hd R) else - 1)"
      using nth len assms(2) by (cases "A = []") (simp_all add: ss_seekData_def Let_def ub)
    show "ss_seekHole x ss = (if A \<noteq> [] \<and> x \<le> snd (last A) then snd (last A)
        else if R \<noteq> [] then x else - 1)"
      using nth len assms(2) by (cases "A = []") (simp_all add: ss_seekHole_def Let_def ub)
  qed
qed

lemma last_holds:
  assumes "wf_sectors (A @ R)" and "\<forall>p \<in> set R. x < fst p" and "p \<in> set (A @ R)"
    and "fst p \<le> x" and "x \<le> snd p" and "\<forall>p \<in> set A. fst p \<le> x"
  shows "A \<noteq> [] \<and> p = last A"
proof -
  have "p \<in> set A" using assms(2,3,4) by force
  then obtain A' a where A: "A = A' @ [a]" by (cases A rule: rev_cases) auto
  then have "p = a \<or> snd p < fst a" using assms(1) \<open>p \<in> set A\<close> by (auto simp: wf_append_iff wf_Cons_iff)
  then show ?thesis using A assms(5,6) by auto
qed

lemma ss_getSectorEnd_found:
  assumes "wf_sectors ss" and "p \<in> set ss" and "fst p \<le> x" and "x \<le> snd p"
  shows "ss_getSectorEnd x ss = snd p"
proof -
  have "ss \<noteq> []" using assms(2) by auto
  then show ?thesis by (rule ss_query_split [OF assms(1), of x]) (use last_holds assms in metis)
qed

lemma ss_getSectorEnd_none:
  assumes "wf_sectors ss" and "\<forall>p \<in> set ss. \<not> (fst p \<le> x \<and> x \<le> snd p)"
  shows "ss_getSectorEnd x ss = - 1"
proof (cases "ss = []")
  case False
  then show ?thesis by (rule ss_query_split [OF assms(1), of x]) (use assms(2) in auto)
qed (simp add: ss_getSectorEnd_def CAPIO_SECTOR_NOT_FOUND_def)

lemma sector_end_uncovered:
  assumes "wf_sectors ss" and "p \<in> set ss"
  shows "snd p \<notin> covered ss"
proof
  assume "snd p \<in> covered ss"
  then obtain q where q: "q \<in> set ss" "fst q \<le> snd p" "snd p < snd q" by (auto simp: mem_covered_iff)
  have "snd p = ss_getSectorEnd (snd p) ss"
    using ss_getSectorEnd_found [OF assms] wf_fst_le_snd [OF assms] by simp
  moreover have "ss_getSectorEnd (snd p) ss = snd q"
    using ss_getSectorEnd_found [OF assms(1) q(1)] q by simp
  ultimately show False using q by simp
qed

lemma ss_getSectorEnd_extent:
  assumes "wf_sectors ss" and "ss_getSectorEnd x ss \<noteq> - 1"
  shows "x \<le> ss_getSectorEnd x ss" and "{x..<ss_getSectorEnd x ss} \<subseteq> covered ss"
    and "ss_getSectorEnd x ss \<notin> covered ss"
proof -
  obtain p where p: "p \<in> set ss" "fst p \<le> x" "x \<le> snd p"
    using ss_getSectorEnd_none [OF assms(1)] assms(2) by blast
  note found = ss_getSectorEnd_found [OF assms(1) p]
  show "x \<le> ss_getSectorEnd x ss" using found p by simp
  show "{x..<ss_getSectorEnd x ss} \<subseteq> covered ss" using found p by (force simp: mem_covered_iff)
  show "ss_getSectorEnd x ss \<notin> covered ss" using found sector_end_uncovered [OF assms(1) p(1)] by simp
qed

lemma ss_seekHole_spec:
  assumes "wf_sectors ss" and "ss \<noteq> []" and "ss_seekHole x ss \<noteq> - 1"
  shows "x \<le> ss_seekHole x ss \<and> {x..<ss_seekHole x ss} \<subseteq> covered ss \<and> ss_seekHole x ss \<notin> covered ss"
proof (rule ss_query_split [OF assms(1,2), of x])
  fix A R
  assume ss: "ss = A @ R" and A: "\<forall>p \<in> set A. fst p \<le> x" and R: "\<forall>p \<in> set R. x < fst p"
    and hole: "ss_seekHole x ss = (if A \<noteq> [] \<and> x \<le> snd (last A) then snd (last A)
           else if R \<noteq> [] then x else - 1)"
    and getEnd: "ss_getSectorEnd x ss = (if A \<noteq> [] \<and> x \<le> snd (last A) then snd (last A) else - 1)"
  show ?thesis
  proof (cases "A \<noteq> [] \<and> x \<le> snd (last A)")
    case True
    then show ?thesis using hole getEnd ss_getSectorEnd_extent [OF assms(1)] assms(3) by metis
  next
    case False
    have "x \<notin> covered ss"
    proof
      assume "x \<in> covered ss"
      then obtain p where "p \<in> set (A @ R)" "fst p \<le> x" "x < snd p" using ss by (auto simp: mem_covered_iff)
      then show False using last_holds [of A R x p] assms(1) ss R A False by auto
    qed
    then show ?thesis using hole False assms(3) by (auto split: if_splits)
  qed
qed

lemma ss_seekData_spec:
  assumes "wf_sectors ss" and "ss \<noteq> []" and "ss_seekData x ss \<noteq> - 1"
  shows "x \<le> ss_seekData x ss \<and> {x..<ss_seekData x ss} \<inter> covered ss = {} \<and>
    (\<exists>p \<in> set ss. fst p \<le> ss_seekData x ss \<and> ss_seekData x ss \<le> snd p)"
proof (rule ss_query_split [OF assms(1,2), of x])
  fix A R
  assume ss: "ss = A @ R" and A: "\<forall>p \<in> set A. fst p \<le> x" and R: "\<forall>p \<in> set R. x < fst p"
    and data: "ss_seekData x ss = (if A \<noteq> [] \<and> x \<le> snd (last A) then x
           else if R \<noteq> [] then fst (hd R) else - 1)"
  show ?thesis
  proof (cases "A \<noteq> [] \<and> x \<le> snd (last A)")
    case True
    then show ?thesis using data ss A by (auto intro!: bexI [of _ "last A"])
  next
    case False
    with data assms(3) have R': "R \<noteq> []" and d: "ss_seekData x ss = fst (hd R)" by (auto split: if_splits)
    then have hd: "hd R \<in> set ss" and "x < fst (hd R)" using ss R by auto
    have "y \<notin> covered ss" if y: "x \<le> y" "y < fst (hd R)" for y
    proof
      assume "y \<in> covered ss"
      then obtain p where p: "p \<in> set ss" "fst p \<le> y" "y < snd p" by (auto simp: mem_covered_iff)
      have "wf_sectors R" using assms(1) ss by (simp add: wf_append_iff)
      then have "p \<in> set A" using p ss wf_hd_last(1) [of R p] y by fastforce
      then show False using last_holds [of A R x p] assms(1) ss R A False p y by auto
    qed
    then show ?thesis using d hd \<open>x < fst (hd R)\<close> wf_fst_le_snd [OF assms(1) hd] by auto
  qed
qed

lemma seek_past_end:
  assumes "wf_sectors ss" and "ss \<noteq> []" and "0 \<le> x"
  shows "ss_seekHole x ss = - 1 \<longleftrightarrow> ss_getFileSize ss < x"
    and "ss_seekData x ss = - 1 \<longleftrightarrow> ss_getFileSize ss < x"
proof -
  obtain A R where ss: "ss = A @ R" and R: "\<forall>p \<in> set R. x < fst p"
    and q: "ss_seekData x ss = (if A \<noteq> [] \<and> x \<le> snd (last A) then x
           else if R \<noteq> [] then fst (hd R) else - 1)"
      "ss_seekHole x ss = (if A \<noteq> [] \<and> x \<le> snd (last A) then snd (last A)
           else if R \<noteq> [] then x else - 1)"
    by (rule ss_query_split [OF assms(1,2), of x])
  have "ss_getFileSize ss < x \<longleftrightarrow> R = [] \<and> snd (last A) < x"
  proof (cases "R = []")
    case False
    then have "x < fst (last R)" "fst (last R) \<le> snd (last R)"
      using R ss wf_fst_le_snd [OF assms(1)] by auto
    then show ?thesis using False ss by (simp add: ss_getFileSize_def)
  qed (use ss assms(2) in \<open>simp add: ss_getFileSize_def\<close>)
  moreover have "R \<noteq> [] \<Longrightarrow> x < fst (hd R)" using R by simp
  ultimately show "ss_seekHole x ss = - 1 \<longleftrightarrow> ss_getFileSize ss < x"
    and "ss_seekData x ss = - 1 \<longleftrightarrow> ss_getFileSize ss < x"
    using q assms(2,3) ss by auto
qed

section \<open>The contract of the index\<close>

text \<open>
  What the file operations rely on: an invariant kept by insertion, the set of marked bytes,
  and a query that returns the end of the marked run at an offset.
\<close>

locale extent_index =
  fixes inv :: "'i \<Rightarrow> bool"
    and marked :: "'i \<Rightarrow> off64 set"
    and ins :: "off64 \<Rightarrow> off64 \<Rightarrow> 'i \<Rightarrow> 'i"
    and run_end :: "off64 \<Rightarrow> 'i \<Rightarrow> off64"
  assumes ins_inv: "inv i \<Longrightarrow> s \<le> e \<Longrightarrow> inv (ins s e i)"
    and ins_marks: "inv i \<Longrightarrow> s \<le> e \<Longrightarrow> marked i \<union> {s..<e} \<subseteq> marked (ins s e i)"
    and run_end_found: "inv i \<Longrightarrow> 0 \<le> x \<Longrightarrow> x \<in> marked i \<Longrightarrow> run_end x i \<noteq> - 1"
    and run_end_marked: "inv i \<Longrightarrow> run_end x i \<noteq> - 1 \<Longrightarrow> {x..<run_end x i} \<subseteq> marked i"
    and run_end_stops: "inv i \<Longrightarrow> run_end x i \<noteq> - 1 \<Longrightarrow> x \<le> run_end x i \<and> run_end x i \<notin> marked i"
begin

lemma inserted_run:
  assumes "inv i" and "0 \<le> s" and "s < e"
  shows "e \<le> run_end s (ins s e i)"
proof -
  let ?j = "ins s e i"
  have j: "inv ?j" and cov: "{s..<e} \<subseteq> marked ?j" using ins_inv ins_marks assms by auto
  then have "run_end s ?j \<noteq> - 1" using run_end_found [OF j assms(2)] assms(3) by auto
  then have "s \<le> run_end s ?j" "run_end s ?j \<notin> marked ?j" using run_end_stops [OF j] by auto
  then show ?thesis using cov by fastforce
qed

lemma run_kept:
  assumes "inv i" and "0 \<le> x" and "s \<le> e" and "run_end x i \<noteq> - 1" and "x < run_end x i"
  shows "run_end x i \<le> run_end x (ins s e i)"
proof -
  let ?j = "ins s e i"
  have j: "inv ?j" using ins_inv assms by auto
  have cov: "{x..<run_end x i} \<subseteq> marked ?j" using run_end_marked ins_marks assms by blast
  then have "run_end x ?j \<noteq> - 1" using run_end_found [OF j assms(2)] assms(5) by auto
  then have "x \<le> run_end x ?j" "run_end x ?j \<notin> marked ?j" using run_end_stops [OF j] by auto
  then show ?thesis using cov by fastforce
qed

end

interpretation ss_index: extent_index wf_sectors covered ss_insertSector ss_getSectorEnd
proof
  fix ss s e x
  assume wf: "wf_sectors ss"
  show "s \<le> e \<Longrightarrow> wf_sectors (ss_insertSector s e ss)" using wf by (rule wf_insertSector)
  show "s \<le> e \<Longrightarrow> covered ss \<union> {s..<e} \<subseteq> covered (ss_insertSector s e ss)"
    using covered_insertSector [OF wf] by auto
  show "0 \<le> x \<Longrightarrow> x \<in> covered ss \<Longrightarrow> ss_getSectorEnd x ss \<noteq> - 1"
    using ss_getSectorEnd_found [OF wf, of _ x] by (fastforce simp: mem_covered_iff)
  show "ss_getSectorEnd x ss \<noteq> - 1 \<Longrightarrow> {x..<ss_getSectorEnd x ss} \<subseteq> covered ss"
    and "ss_getSectorEnd x ss \<noteq> - 1 \<Longrightarrow> x \<le> ss_getSectorEnd x ss \<and> ss_getSectorEnd x ss \<notin> covered ss"
    using ss_getSectorEnd_extent [OF wf] by auto
qed

section \<open>Properties\<close>

text \<open>
  C9: inserting the sector of a write keeps the index ordered and free of overlaps, makes
  the file size the larger of the old one and the end of the write, and marks as data
  exactly the bytes marked before, the bytes of the write, and the single byte in front of
  a sector that starts one byte after the (merged) end of the write.
\<close>

theorem insertSector_exact:
  assumes "wf_sectors ss" and "s \<le> e" and "0 \<le> e"
  shows "wf_sectors (ss_insertSector s e ss) \<and>
    covered (ss_insertSector s e ss) = covered ss \<union> {s..<e} \<union> bridged s e ss \<and>
    ss_getFileSize (ss_insertSector s e ss) = max e (ss_getFileSize ss)"
  using wf_insertSector covered_insertSector ss_getFileSize_insertSector assms by simp

theorem insertSector_exact_witness:
  "wf_sectors [(0, 4), (8, 12), (20, 21)] \<and>
   covered (ss_insertSector 3 9 [(0, 4), (8, 12), (20, 21)]) =
     covered [(0, 4), (8, 12), (20, 21)] \<union> {3..<9} \<union> bridged 3 9 [(0, 4), (8, 12), (20, 21)]"
  using insertSector_exact [of "[(0, 4), (8, 12), (20, 21)]" 3 9] by simp

text \<open>
  A write that ends one byte before an existing sector is merged with it, so the byte
  between them, which nobody wrote, counts as data; the same two writes in the other order
  leave it a hole. The comment in the source announces the merge of adjacent sectors, but
  with an excluded end the adjacent sector starts at the end, not one byte after it.
\<close>

theorem insertSector_bridges_gap:
  "ss_insertSector 0 10 [(11, 20)] = [(0, 20)] \<and> 10 \<notin> covered [(11, 20)] \<union> {0..<10} \<and>
   ss_insertSector 11 20 [(0, 10)] = [(0, 10), (11, 20)]"
  by (simp add: ss_insertSector_def Let_def lower_bound_def upper_bound_def compareSectors_def
      erase_range_def)





end
