(* ===== verification/File_Buffer.thy ===== *)
theory File_Buffer
  imports Sectors
begin

text \<open>
  The data buffer behind a file: \<open>FileBuffer\<close> (\<open>storage/file_buffer.hpp\<close>) and its two
  strategies \<open>HeapStorageInterface\<close> (\<open>storage/interfaces/heap.hpp\<close>) and
  \<open>MappedStorageInterface\<close> (\<open>storage/interfaces/mapped.hpp\<close>).

  The memory block is a list of cells, \<open>None\<close> the null pointer. The results of the system
  calls are the record \<open>sys\<close>, and the memory quota is the argument \<open>quota\<close> of the operations
  that call \<open>computeAllocableMemQuota\<close>. An operation returns the value of the C++ function
  and the new buffer, or a fault.

  After a commit the mapped pages past the committed size have no file behind them; the
  model drops their cells.
\<close>

section \<open>System calls\<close>

record sys =
  sys_new :: "off64 \<Rightarrow> bool"
  sys_open :: "path \<Rightarrow> int"
  sys_file :: "path \<Rightarrow> byte list"
  sys_ftruncate :: "int \<Rightarrow> off64 \<Rightarrow> bool"
  sys_mmap :: "off64 \<Rightarrow> bool"
  sys_mremap :: "off64 \<Rightarrow> bool"
  sys_close :: "int \<Rightarrow> bool"
  sys_create_directory :: "path \<Rightarrow> bool"

text \<open>Bytes of a file set to a length by \<open>ftruncate\<close>: the prefix, padded with zeros.\<close>

definition truncated :: "nat \<Rightarrow> cell list \<Rightarrow> cell list" where
  "truncated n bs = take n bs @ replicate (n - length bs) (Some 0)"

lemma length_truncated [simp]: "length (truncated n bs) = n"
  by (simp add: truncated_def)

lemma nth_truncated: "i < n \<Longrightarrow> i < length bs \<Longrightarrow> truncated n bs ! i = bs ! i"
  by (simp add: truncated_def nth_append)

section \<open>State\<close>

datatype storage_interface =
    HeapStorageInterface
  | MappedStorageInterface (stg_fd: int) (stg_map_len: off64)

record file_buffer =
  buf_data :: "cell list option"
  buf_size :: off64
  buf_storage :: storage_interface

definition HeapBuffer :: file_buffer where
  "HeapBuffer = \<lparr>buf_data = None, buf_size = 0, buf_storage = HeapStorageInterface\<rparr>"

definition MappedBuffer :: file_buffer where
  "MappedBuffer = \<lparr>buf_data = None, buf_size = 0, buf_storage = MappedStorageInterface (- 1) 0\<rparr>"

definition buf_empty :: "file_buffer \<Rightarrow> bool" where
  "buf_empty b \<longleftrightarrow> buf_data b = None"

section \<open>The heap strategy\<close>

text \<open>\<open>new char[n]\<close>: indeterminate bytes, or an exception.\<close>

definition new_char :: "sys \<Rightarrow> off64 \<Rightarrow> fault + cell list" where
  "new_char S n =
     (if n < 0 \<or> \<not> sys_new S n then Inl (Throws ''std::bad_alloc'')
      else Inr (replicate (nat n) None))"

definition heap_allocate :: "sys \<Rightarrow> (off64 \<Rightarrow> off64) \<Rightarrow> off64 \<Rightarrow> file_buffer \<Rightarrow> fault + bool \<times> file_buffer" where
  "heap_allocate S quota requested b =
     (let size = quota requested
      in case new_char S size of
           Inl e \<Rightarrow> Inl e
         | Inr d \<Rightarrow> Inr (True, b\<lparr>buf_data := Some d, buf_size := size\<rparr>))"

text \<open>\<open>memcpy(nb + lo, data + lo, hi - lo)\<close>, a fault unless both ranges are inside their blocks.\<close>

definition copy_sector :: "cell list option \<Rightarrow> sector \<Rightarrow> cell list \<Rightarrow> fault + cell list" where
  "copy_sector data p nb =
     (let lo = fst p; hi = snd p
      in if lo = hi then Inr nb
         else case data of
           None \<Rightarrow> Inl NullDeref
         | Some d \<Rightarrow>
             (if lo < 0 \<or> hi < lo \<or> int (length d) < hi \<or> int (length nb) < hi then Inl OutOfBounds
              else Inr (blit (nat lo) (seg (nat lo) (nat (hi - lo)) d) nb)))"

fun copy_sectors :: "cell list option \<Rightarrow> sectors \<Rightarrow> cell list \<Rightarrow> fault + cell list" where
  "copy_sectors data [] nb = Inr nb"
| "copy_sectors data (p # ps) nb =
     (case copy_sector data p nb of Inl e \<Rightarrow> Inl e | Inr nb' \<Rightarrow> copy_sectors data ps nb')"

definition heap_grow :: "sys \<Rightarrow> off64 \<Rightarrow> sectors \<Rightarrow> file_buffer \<Rightarrow> fault + bool \<times> file_buffer" where
  "heap_grow S new_size sectors b =
     (case new_char S new_size of
        Inl e \<Rightarrow> Inl e
      | Inr nb \<Rightarrow>
          (case copy_sectors (buf_data b) sectors nb of
             Inl e \<Rightarrow> Inl e
           | Inr nb' \<Rightarrow> Inr (True, b\<lparr>buf_data := Some nb', buf_size := new_size\<rparr>)))"

section \<open>The mapped strategy\<close>

definition mapped_allocate ::
    "sys \<Rightarrow> (off64 \<Rightarrow> off64) \<Rightarrow> path \<Rightarrow> off64 \<Rightarrow> file_buffer \<Rightarrow> fault + bool \<times> file_buffer" where
  "mapped_allocate S quota path requested b =
     (let size = quota requested;
          fd = sys_open S path;
          len = stg_map_len (buf_storage b)
      in if fd < 0 \<or> \<not> sys_ftruncate S fd size then
           Inr (False, b\<lparr>buf_size := size, buf_storage := MappedStorageInterface (if 0 \<le> fd then - 1 else fd) len\<rparr>)
         else if \<not> sys_mmap S size then
           Inr (False, b\<lparr>buf_data := None, buf_size := size, buf_storage := MappedStorageInterface (- 1) len\<rparr>)
         else
           Inr (True, b\<lparr>buf_data := Some (truncated (nat size) (map Some (sys_file S path))),
                        buf_size := size, buf_storage := MappedStorageInterface fd size\<rparr>))"

definition mapped_commit :: "sys \<Rightarrow> off64 \<Rightarrow> file_buffer \<Rightarrow> fault + bool \<times> file_buffer" where
  "mapped_commit S committed b =
     (let fd = stg_fd (buf_storage b); len = stg_map_len (buf_storage b)
      in if \<not> sys_ftruncate S fd committed then Inr (False, b)
         else
           let b = b\<lparr>buf_data := map_option (take (nat committed)) (buf_data b), buf_size := committed\<rparr>
           in if \<not> sys_close S fd then Inr (False, b)
              else Inr (True, b\<lparr>buf_storage := MappedStorageInterface (- 1) len\<rparr>))"

definition mapped_grow :: "sys \<Rightarrow> off64 \<Rightarrow> file_buffer \<Rightarrow> fault + bool \<times> file_buffer" where
  "mapped_grow S new_size b =
     (let fd = stg_fd (buf_storage b)
      in if fd < 0 \<or> \<not> sys_ftruncate S fd new_size then Inr (False, b)
         else if \<not> sys_mremap S new_size then Inr (False, b)
         else case buf_data b of
                None \<Rightarrow> Inr (False, b)
              | Some d \<Rightarrow>
                  Inr (True, b\<lparr>buf_data := Some (truncated (nat new_size) d), buf_size := new_size,
                               buf_storage := MappedStorageInterface fd new_size\<rparr>))"

section \<open>The buffer\<close>

text \<open>
  The overload of \<open>allocate\<close> without a path is instantiated for the heap strategy only, the
  one with a path for the mapped strategy only.
\<close>

definition buf_allocate :: "sys \<Rightarrow> (off64 \<Rightarrow> off64) \<Rightarrow> off64 \<Rightarrow> file_buffer \<Rightarrow> fault + bool \<times> file_buffer" where
  "buf_allocate S quota sz b =
     (if \<not> buf_empty b then Inr (False, b) else heap_allocate S quota sz b)"

definition buf_allocate_path ::
    "sys \<Rightarrow> (off64 \<Rightarrow> off64) \<Rightarrow> path \<Rightarrow> off64 \<Rightarrow> file_buffer \<Rightarrow> fault + bool \<times> file_buffer" where
  "buf_allocate_path S quota path sz b =
     (if \<not> buf_empty b then Inr (False, b) else mapped_allocate S quota path sz b)"

definition buf_commit :: "sys \<Rightarrow> off64 \<Rightarrow> file_buffer \<Rightarrow> fault + bool \<times> file_buffer" where
  "buf_commit S sz b =
     (case buf_storage b of
        HeapStorageInterface \<Rightarrow> Inr (False, b)
      | MappedStorageInterface _ _ \<Rightarrow> mapped_commit S sz b)"

definition buf_grow ::
    "sys \<Rightarrow> (off64 \<Rightarrow> off64) \<Rightarrow> off64 \<Rightarrow> sectors \<Rightarrow> file_buffer \<Rightarrow> fault + bool \<times> file_buffer" where
  "buf_grow S quota data_size sectors b =
     (let new_size = max data_size (quota (buf_size b * 2))
      in case buf_storage b of
           HeapStorageInterface \<Rightarrow> heap_grow S new_size sectors b
         | MappedStorageInterface _ _ \<Rightarrow> mapped_grow S new_size b)"

definition buf_release :: "file_buffer \<Rightarrow> file_buffer" where
  "buf_release b =
     b\<lparr>buf_data := None, buf_size := 0,
       buf_storage := (case buf_storage b of
                         HeapStorageInterface \<Rightarrow> HeapStorageInterface
                       | MappedStorageInterface fd _ \<Rightarrow> MappedStorageInterface (if 0 \<le> fd then - 1 else fd) 0)\<rparr>"

section \<open>Invariant and data preservation\<close>

definition buf_wf :: "file_buffer \<Rightarrow> bool" where
  "buf_wf b \<longleftrightarrow> (case buf_data b of None \<Rightarrow> True | Some d \<Rightarrow> int (length d) = buf_size b)"

text \<open>The cell at an offset, if the offset lies in the block.\<close>

definition cell_at :: "file_buffer \<Rightarrow> off64 \<Rightarrow> cell option" where
  "cell_at b x =
     (case buf_data b of
        None \<Rightarrow> None
      | Some d \<Rightarrow> if 0 \<le> x \<and> x < int (length d) then Some (d ! nat x) else None)"

definition sectors_within :: "sectors \<Rightarrow> off64 \<Rightarrow> bool" where
  "sectors_within ss n \<longleftrightarrow> (\<forall>p \<in> set ss. 0 \<le> fst p \<and> fst p \<le> snd p \<and> snd p \<le> n)"

lemma sectors_within_mono: "sectors_within ss n \<Longrightarrow> n \<le> m \<Longrightarrow> sectors_within ss m"
  by (force simp: sectors_within_def)

lemma covered_within: "sectors_within ss n \<Longrightarrow> x \<in> covered ss \<Longrightarrow> 0 \<le> x \<and> x < n"
  by (force simp: sectors_within_def mem_covered_iff)

lemma sectors_within_insert:
  assumes "wf_sectors ss" and "sectors_within ss n" and "0 \<le> s" and "s \<le> e" and "e \<le> n"
  shows "sectors_within (ss_insertSector s e ss) n"
proof -
  let ?e1 = "merged_end s e ss"
  obtain A M B where ss: "ss = A @ M @ B"
    and "\<forall>p \<in> set A. snd p < s"
    and "\<forall>p \<in> set M. s \<le> snd p \<and> fst p \<le> ?e1 + 1"
    and "\<forall>p \<in> set B. ?e1 + 1 < fst p"
    and e1: "?e1 = (if M \<noteq> [] \<and> fst (hd M) < s then max e (snd (hd M)) else e)"
    and ins: "ss_insertSector s e ss =
      A @ (if M \<noteq> [] then min s (fst (hd M)) else s,
           if M \<noteq> [] then max ?e1 (snd (last M)) else ?e1) # B"
    using ss_insertSector_shape [OF assms(1,4)] by blast
  have M: "M \<noteq> [] \<Longrightarrow> 0 \<le> fst (hd M) \<and> snd (hd M) \<le> n \<and> snd (last M) \<le> n"
    using assms(2) ss by (auto simp: sectors_within_def)
  then have "?e1 \<le> n" "s \<le> ?e1" unfolding e1 using assms(4,5) by auto
  moreover have "\<forall>p \<in> set A \<union> set B. 0 \<le> fst p \<and> fst p \<le> snd p \<and> snd p \<le> n"
    using assms(2) ss by (auto simp: sectors_within_def)
  ultimately show ?thesis
    using M assms(3) unfolding ins by (cases "M = []") (simp_all add: sectors_within_def ball_Un)
qed

lemma copy_sectors_spec:
  assumes "sectors_within ps (int (length d))" and "sectors_within ps (int (length nb))"
  shows "\<exists>nb'. copy_sectors (Some d) ps nb = Inr nb' \<and> length nb' = length nb \<and>
    (\<forall>i < length nb. nb' ! i = (if int i \<in> covered ps then d ! i else nb ! i))"
  using assms
proof (induction ps arbitrary: nb)
  case (Cons p ps)
  let ?lo = "nat (fst p)" and ?n = "nat (snd p - fst p)"
  let ?nb = "blit ?lo (seg ?lo ?n d) nb"
  from Cons.prems have p: "0 \<le> fst p" "fst p \<le> snd p" "snd p \<le> int (length d)" "snd p \<le> int (length nb)"
    and ps: "sectors_within ps (int (length d))" "sectors_within ps (int (length nb))"
    by (auto simp: sectors_within_def)
  have n: "?lo + ?n \<le> length d" "?lo + ?n \<le> length nb" using p by linarith+
  then have len: "length (seg ?lo ?n d) = ?n" "length ?nb = length nb" by (simp_all add: list_mem)
  have cell: "?nb ! i = (if fst p \<le> int i \<and> int i < snd p then d ! i else nb ! i)" if "i < length nb" for i
  proof -
    have "(?lo \<le> i \<and> i < ?lo + ?n) = (fst p \<le> int i \<and> int i < snd p)" using p by linarith
    moreover have "seg ?lo ?n d ! (i - ?lo) = d ! i" if "?lo \<le> i" "i < ?lo + ?n"
      using nth_seg_diff that n by blast
    ultimately show ?thesis
      using that n len(1) nth_blit [of ?lo "seg ?lo ?n d" nb i] by metis
  qed
  have "copy_sector (Some d) p nb = Inr ?nb" using p by (simp add: copy_sector_def Let_def)
  moreover obtain nb' where "copy_sectors (Some d) ps ?nb = Inr nb'" "length nb' = length nb"
    "\<forall>i < length nb. nb' ! i = (if int i \<in> covered ps then d ! i else ?nb ! i)"
    using Cons.IH [of ?nb] ps len by auto
  ultimately show ?case using cell by (auto simp: covered_def)
qed simp

lemma heap_grow_cases:
  assumes "buf_data b = Some d" and "sectors_within ss (int (length d))" and "int (length d) \<le> n"
  shows "heap_grow S n ss b = Inl (Throws ''std::bad_alloc'') \<or>
    (\<exists>d'. heap_grow S n ss b = Inr (True, b\<lparr>buf_data := Some d', buf_size := n\<rparr>) \<and> int (length d') = n \<and>
      (\<forall>i < length d. int i \<in> covered ss \<longrightarrow> d' ! i = d ! i))"
proof (cases "sys_new S n")
  case True
  have n: "int (nat n) = n" "length d \<le> nat n" using assms(3) by linarith+
  have "sectors_within ss (int (length (replicate (nat n) (None :: cell))))"
    using sectors_within_mono [OF assms(2,3)] n by simp
  from copy_sectors_spec [OF assms(2) this] obtain d' where
    "copy_sectors (Some d) ss (replicate (nat n) None) = Inr d'" "length d' = nat n"
    "\<forall>i < nat n. d' ! i = (if int i \<in> covered ss then d ! i else replicate (nat n) None ! i)" by auto
  then show ?thesis using assms True n by (auto simp: heap_grow_def new_char_def)
qed (simp add: heap_grow_def new_char_def)

lemma mapped_grow_cases:
  assumes "buf_data b = Some d" and "int (length d) \<le> n"
  shows "mapped_grow S n b = Inr (False, b) \<or>
    (\<exists>d' fd. mapped_grow S n b = Inr (True, b\<lparr>buf_data := Some d', buf_size := n,
        buf_storage := MappedStorageInterface fd n\<rparr>) \<and> int (length d') = n \<and>
      (\<forall>i < length d. d' ! i = d ! i))"
  using assms by (auto simp: mapped_grow_def Let_def nth_truncated)

lemma cell_at_nth: "buf_data b = Some d \<Longrightarrow> 0 \<le> x \<Longrightarrow> x < int (length d) \<Longrightarrow> cell_at b x = Some (d ! nat x)"
  by (simp add: cell_at_def)

definition same_cells :: "off64 set \<Rightarrow> file_buffer \<Rightarrow> file_buffer \<Rightarrow> bool" where
  "same_cells X b b' \<longleftrightarrow> (\<forall>x \<in> X. cell_at b' x = cell_at b x)"

lemma same_cellsI:
  assumes "buf_data b = Some d" and "buf_data b' = Some d'" and "length d \<le> length d'"
    and "sectors_within ss (int (length d))"
    and "\<forall>i < length d. int i \<in> covered ss \<longrightarrow> d' ! i = d ! i"
  shows "same_cells (covered ss) b b'"
  unfolding same_cells_def
proof
  fix x assume "x \<in> covered ss"
  moreover from this have "0 \<le> x" "x < int (length d)" using covered_within [OF assms(4)] by auto
  ultimately show "cell_at b' x = cell_at b x"
    using assms by (auto simp: cell_at_def nat_less_iff)
qed

lemma buf_grow_cases:
  assumes "buf_wf b" and "\<not> buf_empty b" and "sectors_within ss (buf_size b)" and "buf_size b \<le> n"
  shows "buf_grow S quota n ss b = Inl (Throws ''std::bad_alloc'') \<or> buf_grow S quota n ss b = Inr (False, b) \<or>
    (\<exists>b'. buf_grow S quota n ss b = Inr (True, b') \<and> buf_wf b' \<and> \<not> buf_empty b' \<and> n \<le> buf_size b' \<and>
      same_cells (covered ss) b b')"
proof -
  let ?n = "max n (quota (buf_size b * 2))"
  obtain d where d: "buf_data b = Some d" "int (length d) = buf_size b"
    using assms(1,2) by (auto simp: buf_wf_def buf_empty_def)
  then have within: "sectors_within ss (int (length d))" and le: "int (length d) \<le> ?n" using assms(3,4) by auto
  have good: "buf_wf b' \<and> \<not> buf_empty b' \<and> n \<le> buf_size b' \<and> same_cells (covered ss) b b'"
    if "buf_data b' = Some d'" "buf_size b' = ?n" "int (length d') = ?n"
      "\<forall>i < length d. int i \<in> covered ss \<longrightarrow> d' ! i = d ! i" for b' d'
    using that same_cellsI [OF d(1) that(1) _ within that(4)] le by (auto simp: buf_wf_def buf_empty_def)
  show ?thesis
  proof (cases "buf_storage b")
    case HeapStorageInterface
    then have "buf_grow S quota n ss b = heap_grow S ?n ss b" by (simp add: buf_grow_def Let_def)
    then show ?thesis using heap_grow_cases [OF d(1) within le, of S] good by fastforce
  next
    case (MappedStorageInterface fd len)
    then have "buf_grow S quota n ss b = mapped_grow S ?n b" by (simp add: buf_grow_def Let_def)
    then show ?thesis using mapped_grow_cases [OF d(1) le, of S] good by fastforce
  qed
qed

section \<open>Properties\<close>

text \<open>
  C20: growing an allocated buffer to at least its current size, with sectors inside it,
  either throws for lack of memory, or reports failure and leaves the buffer as it was, or
  gives a buffer of at least the required size in which every byte of every sector is
  unchanged; for both strategies no copy leaves its block.
\<close>

theorem grow_keeps_data:
  assumes "buf_wf b" and "\<not> buf_empty b" and "sectors_within ss (buf_size b)" and "buf_size b \<le> n"
  shows "case buf_grow S quota n ss b of
      Inl e \<Rightarrow> e = Throws ''std::bad_alloc''
    | Inr (False, b') \<Rightarrow> b' = b
    | Inr (True, b') \<Rightarrow> buf_wf b' \<and> \<not> buf_empty b' \<and> n \<le> buf_size b' \<and> same_cells (covered ss) b b'"
  using buf_grow_cases [OF assms, of S quota] by auto

definition sys_ok :: sys where
  "sys_ok = \<lparr>sys_new = (\<lambda>_. True), sys_open = (\<lambda>_. 3), sys_file = (\<lambda>_. []),
     sys_ftruncate = (\<lambda>fd n. 0 \<le> fd \<and> 0 \<le> n), sys_mmap = (\<lambda>n. 0 < n), sys_mremap = (\<lambda>n. 0 < n),
     sys_close = (\<lambda>fd. 0 \<le> fd), sys_create_directory = (\<lambda>_. True)\<rparr>"

theorem grow_keeps_data_witness:
  "\<exists>b'. buf_grow sys_ok id 5 [(1, 2)]
       \<lparr>buf_data = Some [None, Some 7], buf_size = 2, buf_storage = HeapStorageInterface\<rparr> = Inr (True, b') \<and>
     same_cells (covered [(1, 2)])
       \<lparr>buf_data = Some [None, Some 7], buf_size = 2, buf_storage = HeapStorageInterface\<rparr> b'"
  using grow_keeps_data [of "\<lparr>buf_data = Some [None, Some 7], buf_size = 2, buf_storage = HeapStorageInterface\<rparr>"
      "[(1, 2)]" 5 sys_ok id]
  by (simp add: buf_wf_def buf_empty_def sectors_within_def buf_grow_def heap_grow_def new_char_def
      sys_ok_def copy_sector_def)

end
