(* ===== verification/Storage_Allocator.thy ===== *)
theory Storage_Allocator
  imports Text_Utils
begin

text \<open>
  The memory quota of the server: \<open>computeAllocableMemQuota\<close> and its helpers
  (\<open>src/storage_allocator.cpp\<close>), for the three build configurations.

  The files of \<open>/proc\<close> and \<open>/sys/fs/cgroup\<close> are the record \<open>memfs\<close>; a descriptor is the
  path it was opened on. Sizes keep their 64-bit unsigned type. The lemmas show that the
  quota is never more than what was asked nor more than what the host and the control group
  leave, and that the key lookup only accepts a key at the start of a line.
\<close>

record memfs =
  mf_access :: "path \<Rightarrow> bool"
  mf_open :: "path \<Rightarrow> bool"
  mf_pread :: "path \<Rightarrow> nat \<Rightarrow> nat \<Rightarrow> string option"
  mf_contents :: "path \<Rightarrow> string option"

definition kUnlimited :: "64 word" where
  "kUnlimited = - 1"

definition kV1UnlimitedThreshold :: "64 word" where
  "kV1UnlimitedThreshold = push_bit 62 1"

record cgroup_mem =
  cg_usage_fd :: "path option"
  cg_stat_fd :: "path option"
  cg_limit :: "64 word"
  cg_inactive_key :: string

definition CgroupMem_default :: cgroup_mem where
  "CgroupMem_default = \<lparr>cg_usage_fd = None, cg_stat_fd = None, cg_limit = kUnlimited, cg_inactive_key = []\<rparr>"

definition cg_active :: "cgroup_mem \<Rightarrow> bool" where
  "cg_active cg \<longleftrightarrow> cg_usage_fd cg \<noteq> None"

section \<open>Reading and parsing\<close>

text \<open>
  \<open>pread_all\<close> with the bytes read so far as accumulator. \<open>pread\<close> is given the offset and the
  room left; it returns \<open>None\<close> on an error and no bytes at the end of the file.
\<close>

function pread_all :: "(nat \<Rightarrow> nat \<Rightarrow> string option) \<Rightarrow> nat \<Rightarrow> string \<Rightarrow> string" where
  "pread_all pread cap buf =
     (if length buf < cap then
        (case pread (length buf) (cap - length buf) of
           None \<Rightarrow> buf
         | Some s \<Rightarrow> if s = [] then buf else pread_all pread cap (buf @ s))
      else buf)"
  by pat_completeness auto
termination
  by (relation "measure (\<lambda>(pread, cap, buf). cap - length buf)")
    (auto simp: diff_less_mono2 simp flip: length_greater_0_conv)

declare pread_all.simps [simp del]

definition parse_u64 :: "string \<Rightarrow> 64 word option" where
  "parse_u64 s = (if take 3 s = ''max'' then Some kUnlimited else from_chars_u64 s)"

definition pread_u64 :: "memfs \<Rightarrow> path \<Rightarrow> 64 word option" where
  "pread_u64 fs fd =
     (let buf = pread_all (mf_pread fs fd) 32 []
      in if 0 < length buf then parse_u64 buf else None)"

definition read_u64_file :: "memfs \<Rightarrow> path \<Rightarrow> 64 word option" where
  "read_u64_file fs p =
     (case mf_contents fs p of
        None \<Rightarrow> None
      | Some c \<Rightarrow> (case next_word c of None \<Rightarrow> None | Some (token, _) \<Rightarrow> parse_u64 token))"

lemma text_find_progress:
  "text_find s key pos = Some p \<Longrightarrow> key \<noteq> [] \<Longrightarrow> Suc (length s) - (p + length key) < Suc (length s) - pos"
  using text_find_SomeD [of s key pos p] by (cases key) auto

text \<open>
  \<open>find_key\<close> from a position on. Every key in the source is a non-empty literal; on an empty
  one \<open>key.back()\<close> is undefined, which the model answers with \<open>None\<close>.
\<close>

function find_key_from :: "string \<Rightarrow> string \<Rightarrow> nat \<Rightarrow> 64 word option" where
  "find_key_from s key pos =
     (if key = [] then None
      else case text_find s key pos of
             None \<Rightarrow> None
           | Some p \<Rightarrow>
               let e = p + length key
               in if (p = 0 \<or> s ! (p - 1) = newline) \<and> e < length s \<and> (s ! e = CHR '' '' \<or> last key = CHR '':'')
                  then (case find_first_not_of s (CHR '' '') e of
                          None \<Rightarrow> None
                        | Some num \<Rightarrow> from_chars_u64 (drop num s))
                  else find_key_from s key e)"
  by pat_completeness auto
termination
  by (relation "measure (\<lambda>(s, key, pos). Suc (length s) - pos)") (simp_all add: text_find_progress)

declare find_key_from.simps [simp del]

definition find_key :: "string \<Rightarrow> string \<Rightarrow> 64 word option" where
  "find_key s key = find_key_from s key 0"

text \<open>Whether a comma-separated controller list names \<open>memory\<close>, from a position on.\<close>

function has_memory_from :: "string \<Rightarrow> nat \<Rightarrow> bool" where
  "has_memory_from ctrls p =
     (if p \<le> length ctrls then
        let comma = (case find_char ctrls (CHR '','') p of None \<Rightarrow> length ctrls | Some c \<Rightarrow> c)
        in if seg p (comma - p) ctrls = ''memory'' then True else has_memory_from ctrls (comma + 1)
      else False)"
  by pat_completeness auto
termination
  by (relation "measure (\<lambda>(ctrls, p). Suc (length ctrls) - p)")
    (auto dest: find_char_SomeD split: option.splits)

declare has_memory_from.simps [simp del]

fun cgroup_path_of :: "bool \<Rightarrow> string list \<Rightarrow> string" where
  "cgroup_path_of v2 [] = []"
| "cgroup_path_of v2 (line # rest) =
     (case find_char line (CHR '':'') 0 of
        None \<Rightarrow> cgroup_path_of v2 rest
      | Some c1 \<Rightarrow>
          (case find_char line (CHR '':'') (c1 + 1) of
             None \<Rightarrow> cgroup_path_of v2 rest
           | Some c2 \<Rightarrow>
               let ident = take c1 line;
                   ctrls = seg (c1 + 1) (c2 - c1 - 1) line;
                   p = drop (c2 + 1) line
               in if v2 then (if ident = ''0'' \<and> ctrls = [] then p else cgroup_path_of v2 rest)
                  else if has_memory_from ctrls 0 then p else cgroup_path_of v2 rest))"

definition self_cgroup_path :: "memfs \<Rightarrow> bool \<Rightarrow> string" where
  "self_cgroup_path fs v2 =
     (case mf_contents fs ''/proc/self/cgroup'' of
        None \<Rightarrow> []
      | Some c \<Rightarrow> cgroup_path_of v2 (getlines_std c))"

section \<open>The control group\<close>

text \<open>The limits from a directory up to the mount point; \<open>resize\<close> of \<open>npos\<close> throws.\<close>

function smallest_limit :: "memfs \<Rightarrow> string \<Rightarrow> string \<Rightarrow> string \<Rightarrow> 64 word \<Rightarrow> fault + 64 word" where
  "smallest_limit fs limit_file mount d limit =
     (let limit = (case read_u64_file fs (d @ ''/'' @ limit_file) of
                     None \<Rightarrow> limit
                   | Some v \<Rightarrow> min limit (if kV1UnlimitedThreshold \<le> v then kUnlimited else v))
      in if length d \<le> length mount then Inr limit
         else case rfind_char d (CHR ''/'') of
                None \<Rightarrow> Inl (Throws ''std::length_error'')
              | Some p \<Rightarrow> smallest_limit fs limit_file mount (take p d) limit)"
  by pat_completeness auto
termination
  by (relation "measure (\<lambda>(fs, limit_file, mount, d, limit). length d)") (auto dest: rfind_char_SomeD)

declare smallest_limit.simps [simp del]

definition try_hierarchy :: "memfs \<Rightarrow> cgroup_mem \<Rightarrow> string \<Rightarrow> bool \<Rightarrow> fault + bool \<times> cgroup_mem" where
  "try_hierarchy fs cg mount v2 =
     (let usage_file = (if v2 then ''memory.current'' else ''memory.usage_in_bytes'');
          limit_file = (if v2 then ''memory.max'' else ''memory.limit_in_bytes'');
          p = self_cgroup_path fs v2;
          dir = (if p \<noteq> [] \<and> p \<noteq> ''/'' \<and> mf_access fs (mount @ p @ ''/'' @ usage_file) then mount @ p else mount);
          usage = dir @ ''/'' @ usage_file
      in if \<not> mf_open fs usage then Inr (False, cg\<lparr>cg_usage_fd := None\<rparr>)
         else if pread_u64 fs usage = None then Inr (False, cg\<lparr>cg_usage_fd := None\<rparr>)
         else
           let stat = dir @ ''/memory.stat'';
               stat_fd = (if mf_open fs stat then Some stat else None);
               cg = cg\<lparr>cg_usage_fd := Some usage, cg_stat_fd := stat_fd,
                       cg_inactive_key := (if v2 then ''inactive_file'' else ''total_inactive_file'')\<rparr>
           in case smallest_limit fs limit_file mount dir (cg_limit cg) of
                Inl e \<Rightarrow> Inl e
              | Inr limit \<Rightarrow>
                  let limit =
                    (case stat_fd of
                       Some sfd \<Rightarrow>
                         if v2 then limit
                         else (case find_key (pread_all (mf_pread fs sfd) 8192 []) ''hierarchical_memory_limit'' of
                                 None \<Rightarrow> limit
                               | Some h \<Rightarrow> if h < kV1UnlimitedThreshold then min limit h else limit)
                     | None \<Rightarrow> limit)
                  in Inr (True, cg\<lparr>cg_limit := limit\<rparr>))"

definition resolve_cgroup :: "memfs \<Rightarrow> fault + cgroup_mem" where
  "resolve_cgroup fs =
     (let finish = (\<lambda>found cg. if \<not> found \<or> cg_limit cg = kUnlimited then CgroupMem_default else cg)
      in case try_hierarchy fs CgroupMem_default ''/sys/fs/cgroup'' True of
           Inl e \<Rightarrow> Inl e
         | Inr (True, cg) \<Rightarrow> Inr (finish True cg)
         | Inr (False, cg) \<Rightarrow>
             (case try_hierarchy fs cg ''/sys/fs/cgroup/unified'' True of
                Inl e \<Rightarrow> Inl e
              | Inr (True, cg) \<Rightarrow> Inr (finish True cg)
              | Inr (False, cg) \<Rightarrow>
                  (case try_hierarchy fs cg ''/sys/fs/cgroup/memory'' False of
                     Inl e \<Rightarrow> Inl e
                   | Inr (found, cg) \<Rightarrow> Inr (finish found cg))))"

section \<open>The quota\<close>

datatype memory_checks = MEMORY_CHECKS_NONE | MEMORY_CHECKS_FAST | MEMORY_CHECKS_FULL

text \<open>What the control group still allows: nothing to say when it is not active.\<close>

definition cg_available_fast :: "memfs \<Rightarrow> cgroup_mem \<Rightarrow> 64 word option" where
  "cg_available_fast fs cg =
     (case cg_usage_fd cg of
        None \<Rightarrow> None
      | Some fd \<Rightarrow>
          (case pread_u64 fs fd of
             None \<Rightarrow> None
           | Some usage \<Rightarrow> Some (if usage < cg_limit cg then cg_limit cg - usage else 0)))"

definition cg_available_full :: "memfs \<Rightarrow> cgroup_mem \<Rightarrow> 64 word option" where
  "cg_available_full fs cg =
     (case cg_usage_fd cg of
        None \<Rightarrow> None
      | Some fd \<Rightarrow>
          (case pread_u64 fs fd of
             None \<Rightarrow> None
           | Some usage \<Rightarrow>
               let inactive = (case cg_stat_fd cg of
                                 None \<Rightarrow> 0
                               | Some sfd \<Rightarrow>
                                   (case find_key (pread_all (mf_pread fs sfd) 8192 []) (cg_inactive_key cg) of
                                      None \<Rightarrow> 0 | Some v \<Rightarrow> v));
                   working = (if inactive < usage then usage - inactive else 0)
               in Some (if working < cg_limit cg then cg_limit cg - working else 0)))"

text \<open>The memory the check finds; \<open>None\<close> when it cannot tell.\<close>

definition mem_available :: "memory_checks \<Rightarrow> memfs \<Rightarrow> cgroup_mem \<Rightarrow> int \<Rightarrow> int \<Rightarrow> 64 word option" where
  "mem_available checks fs cg pages page_size =
     (case checks of
        MEMORY_CHECKS_NONE \<Rightarrow> None
      | MEMORY_CHECKS_FAST \<Rightarrow>
          if pages < 0 \<or> page_size < 0 then None
          else let host = word_of_int pages * word_of_int page_size
               in Some (case cg_available_fast fs cg of None \<Rightarrow> host | Some a \<Rightarrow> min host a)
      | MEMORY_CHECKS_FULL \<Rightarrow>
          (case find_key (case mf_pread fs ''/proc/meminfo'' 0 256 of None \<Rightarrow> [] | Some s \<Rightarrow> s) ''MemAvailable:'' of
             None \<Rightarrow> None
           | Some kb \<Rightarrow>
               let host = kb * 1024
               in Some (case cg_available_full fs cg of None \<Rightarrow> host | Some a \<Rightarrow> min host a)))"

definition computeAllocableMemQuota ::
    "memory_checks \<Rightarrow> memfs \<Rightarrow> cgroup_mem \<Rightarrow> int \<Rightarrow> int \<Rightarrow> off64 \<Rightarrow> off64" where
  "computeAllocableMemQuota checks fs cg pages page_size requested_size =
     (case mem_available checks fs cg pages page_size of
        None \<Rightarrow> requested_size
      | Some avail \<Rightarrow>
          if requested_size < 0 \<or> word_of_int requested_size \<le> avail then requested_size else sint avail)"

section \<open>Bounds\<close>

lemma min_word_le: "uint (min a b :: 64 word) \<le> uint a" "uint (min a b :: 64 word) \<le> uint b"
  by (simp_all add: min_def word_le_def)

lemma cg_available_le_limit:
  "cg_available_fast fs cg = Some a \<Longrightarrow> a \<le> cg_limit cg"
  "cg_available_full fs cg = Some a \<Longrightarrow> a \<le> cg_limit cg"
  by (auto simp: cg_available_fast_def cg_available_full_def Let_def word_sub_le
      split: option.splits if_splits)

lemma quota_bounds:
  assumes "0 \<le> r" and "r < 2 ^ 63"
  shows "0 \<le> computeAllocableMemQuota checks fs cg pages page_size r \<and>
    computeAllocableMemQuota checks fs cg pages page_size r \<le> r \<and>
    (\<forall>a. mem_available checks fs cg pages page_size = Some a \<longrightarrow>
       computeAllocableMemQuota checks fs cg pages page_size r \<le> uint a)"
proof (cases "mem_available checks fs cg pages page_size")
  case None
  then show ?thesis using assms by (simp add: computeAllocableMemQuota_def)
next
  case (Some a)
  have r: "uint (word_of_int r :: 64 word) = r" using assms by (simp add: uint_word_of_int)
  show ?thesis
  proof (cases "word_of_int r \<le> a")
    case True
    then have "r \<le> uint a" using r by (simp add: word_le_def)
    then show ?thesis using Some True assms by (simp add: computeAllocableMemQuota_def)
  next
    case False
    then have lt: "uint a < r" using r by (simp add: word_le_def)
    then have "- (2 ^ 63) \<le> uint a" and "uint a < 2 ^ 63"
      using assms(2) order_trans [OF _ uint_ge_0 [of a], of "- (2 ^ 63)"] by simp_all
    then have "sint a = uint a" by (simp add: sint_uint signed_take_bit_int_eq_self)
    then show ?thesis using Some False lt assms by (simp add: computeAllocableMemQuota_def)
  qed
qed

lemma find_key_from_sound:
  assumes "find_key_from s key pos = Some v"
  shows "\<exists>p num. pos \<le> p \<and> take (length key) (drop p s) = key \<and> (p = 0 \<or> s ! (p - 1) = newline) \<and>
    p + length key \<le> num \<and> (\<forall>i. p + length key \<le> i \<and> i < num \<longrightarrow> s ! i = CHR '' '') \<and>
    from_chars_u64 (drop num s) = Some v"
  using assms
proof (induction s key pos rule: find_key_from.induct)
  case (1 s key pos)
  from "1.prems" have ne: "key \<noteq> []" by (subst (asm) find_key_from.simps) (auto split: if_splits)
  from "1.prems" obtain p where p: "text_find s key pos = Some p"
    by (subst (asm) find_key_from.simps) (auto split: if_splits option.splits)
  let ?e = "p + length key"
  let ?ok = "(p = 0 \<or> s ! (p - 1) = newline) \<and> ?e < length s \<and> (s ! ?e = CHR '' '' \<or> last key = CHR '':'')"
  have unf: "find_key_from s key pos =
      (if ?ok then (case find_first_not_of s (CHR '' '') ?e of None \<Rightarrow> None
         | Some num \<Rightarrow> from_chars_u64 (drop num s)) else find_key_from s key ?e)"
    using p ne by (subst find_key_from.simps) (simp add: Let_def)
  show ?case
  proof (cases ?ok)
    case True
    with unf "1.prems" obtain num where num: "find_first_not_of s (CHR '' '') ?e = Some num"
      "from_chars_u64 (drop num s) = Some v" by (auto split: option.splits)
    have spaces: "s ! i = CHR '' ''" if "?e \<le> i" "i < num" for i
    proof -
      obtain k where "k < length s - ?e" "[?e..<length s] ! k = num"
        "\<forall>j < k. s ! ([?e..<length s] ! j) = CHR '' ''"
        using num(1) by (auto simp: find_first_not_of_def find_Some_iff)
      then have "num = ?e + k" "\<forall>j < k. s ! (?e + j) = CHR '' ''" by simp_all
      then show ?thesis using that by (metis add_diff_inverse_nat nat_add_left_cancel_less not_less)
    qed
    moreover have "?e \<le> num" using find_Some_bounds [OF num(1) [unfolded find_first_not_of_def]] by simp
    ultimately show ?thesis using True num(2) text_find_SomeD [OF p] by blast
  next
    case False
    then have "find_key_from s key pos = find_key_from s key ?e" unfolding unf by (rule if_not_P)
    then have "find_key_from s key ?e = Some v" using "1.prems" by simp
    then obtain p' num where "?e \<le> p'" "take (length key) (drop p' s) = key" "p' = 0 \<or> s ! (p' - 1) = newline"
      "p' + length key \<le> num" "\<forall>i. p' + length key \<le> i \<and> i < num \<longrightarrow> s ! i = CHR '' ''"
      "from_chars_u64 (drop num s) = Some v"
      using "1.IH" [OF ne p refl False] by blast
    moreover have "pos \<le> p'" using \<open>?e \<le> p'\<close> text_find_SomeD(1) [OF p] by simp
    ultimately show ?thesis by blast
  qed
qed

lemma pread_all_short_reads:
  assumes "\<And>off n. off < length content \<Longrightarrow> 0 < n \<Longrightarrow>
      \<exists>s. pread off n = Some s \<and> s \<noteq> [] \<and> length s \<le> n \<and> s = take (length s) (drop off content)"
    and "\<And>off n. length content \<le> off \<Longrightarrow> pread off n = Some []"
    and "buf = take (length buf) content" and "length buf \<le> cap"
  shows "pread_all pread cap buf = take cap content"
  using assms(3,4)
proof (induction buf rule: measure_induct_rule [of "\<lambda>buf. cap - length buf"])
  case (less buf)
  show ?case
  proof (cases "length buf < cap \<and> length buf < length content")
    case True
    then obtain t where t: "pread (length buf) (cap - length buf) = Some t" "t \<noteq> []"
      "length t \<le> cap - length buf" "t = take (length t) (drop (length buf) content)"
      using assms(1) [of "length buf" "cap - length buf"] by auto
    have len: "length t \<le> length content - length buf" using t(4) by (metis length_drop length_take min.cobounded1)
    have "buf @ t = take (length buf) content @ take (length t) (drop (length buf) content)"
      using less.prems(1) t(4) by simp
    also have "\<dots> = take (length (buf @ t)) content" by (simp add: take_add)
    finally have eq: "buf @ t = take (length (buf @ t)) content" .
    have "cap - length (buf @ t) < cap - length buf" and "length (buf @ t) \<le> cap"
      using t(2,3) True by (cases t; simp)+
    then have "pread_all pread cap (buf @ t) = take cap content" using less.IH eq by blast
    then show ?thesis using t(1,2) True by (subst pread_all.simps) simp
  next
    case False
    then show ?thesis
    proof (cases "length buf < cap")
      case True
      then have all: "length content \<le> length buf" using False by simp
      then have "buf = content" using less.prems(1) by simp
      then show ?thesis using True assms(2) [OF all] by (subst pread_all.simps) simp
    next
      case False
      then have "length buf = cap" using less.prems(2) by simp
      then show ?thesis using less.prems(1) by (subst pread_all.simps) simp
    qed
  qed
qed

section \<open>Properties\<close>


definition memfs_empty :: memfs where
  "memfs_empty = \<lparr>mf_access = (\<lambda>_. False), mf_open = (\<lambda>_. False), mf_pread = (\<lambda>_ _ _. None),
     mf_contents = (\<lambda>_. None)\<rparr>"


text \<open>
  A value found for a key stands, after blanks only, behind an occurrence of the key at
  the start of the text or of a line, so \<open>inactive_file\<close> is never taken from the line of
  \<open>total_inactive_file\<close>.
\<close>

theorem find_key_at_line_start:
  assumes "find_key s key = Some v"
  shows "\<exists>p num. take (length key) (drop p s) = key \<and> (p = 0 \<or> s ! (p - 1) = newline) \<and>
    p + length key \<le> num \<and> (\<forall>i. p + length key \<le> i \<and> i < num \<longrightarrow> s ! i = CHR '' '') \<and>
    from_chars_u64 (drop num s) = Some v"
  using find_key_from_sound [of s key 0 v] assms by (auto simp: find_key_def)

theorem find_key_at_line_start_witness:
  "find_key (''xk 5'' @ newline # ''k 7'') ''k'' = Some 7 \<and>
   (\<exists>p num. take 1 (drop p (''xk 5'' @ newline # ''k 7'')) = ''k'' \<and>
      from_chars_u64 (drop num (''xk 5'' @ newline # ''k 7'')) = Some 7)"
proof -
  have f: "find_key (''xk 5'' @ newline # ''k 7'') ''k'' = Some 7"
    by (simp add: find_key_def find_key_from.simps text_find_def find_first_not_of_def upt_rec
        from_chars_u64_def digits_val_def is_digit_def digit_val_def newline_def Let_def)
  from find_key_at_line_start [OF f] obtain p num where
    "take (length ''k'') (drop p (''xk 5'' @ newline # ''k 7'')) = ''k''"
    "from_chars_u64 (drop num (''xk 5'' @ newline # ''k 7'')) = Some 7" by blast
  then have "take 1 (drop p (''xk 5'' @ newline # ''k 7'')) = ''k'' \<and>
      from_chars_u64 (drop num (''xk 5'' @ newline # ''k 7'')) = Some 7" by simp
  then show ?thesis using f by blast
qed

end
