(* ===== verification/Capio_File.thy ===== *)
theory Capio_File
  imports File_Buffer Shm_Queue Storage_Allocator
begin

text \<open>
  The class \<open>CapioFile\<close> (\<open>storage/capio_file.hpp\<close>, \<open>src/capio_file.cpp\<close>): the record
  \<open>capio_file\<close> holds its members, and there is one definition per member function.

  Mutexes are left out: every operation is one atomic step. The condition variables are the
  counters \<open>f_committed_cv\<close> and \<open>f_data_avail_cv\<close> of the \<open>notify_all\<close> calls made on them;
  the predicates the waiters test are \<open>waitForCommit_done\<close> and \<open>waitForData_done\<close>.

  \<open>file_wf\<close> ties the sector index to the buffer. The lemmas show that every operation keeps
  it, that a write followed by the registration of its sector stays inside the buffer,
  stores exactly its bytes and leaves every other byte of the file alone, and that no
  waiter's condition becomes true without a notification.
\<close>

record capio_file =
  f_buffer :: file_buffer
  f_requested_size :: off64
  f_n_close :: int
  f_n_opens :: int
  f_n_files :: int
  f_n_files_expected :: "32 word"
  f_n_close_expected :: "32 word"
  f_home_node :: bool
  f_committed :: bool
  f_directory :: bool
  f_permanent :: bool
  f_first_write :: bool
  f_sectors :: sectors
  f_real_file_size :: off64
  f_threads_fd :: "(int \<times> int) list"
  f_committed_cv :: nat
  f_data_avail_cv :: nat

definition CapioFile_default :: capio_file where
  "CapioFile_default =
     \<lparr>f_buffer = HeapBuffer, f_requested_size = 0, f_n_close = 0, f_n_opens = 0, f_n_files = 0,
      f_n_files_expected = 0, f_n_close_expected = 0, f_home_node = False, f_committed = False,
      f_directory = False, f_permanent = False, f_first_write = True, f_sectors = [],
      f_real_file_size = 0, f_threads_fd = [], f_committed_cv = 0, f_data_avail_cv = 0\<rparr>"

definition CapioFile_dir :: "bool \<Rightarrow> 32 word \<Rightarrow> bool \<Rightarrow> off64 \<Rightarrow> int \<Rightarrow> capio_file" where
  "CapioFile_dir directory n_files_expected permanent init_size n_close_expected =
     CapioFile_default\<lparr>f_requested_size := init_size, f_n_files_expected := n_files_expected + 2,
       f_n_close_expected := word_of_int n_close_expected, f_directory := directory,
       f_permanent := permanent\<rparr>"

definition CapioFile_file :: "bool \<Rightarrow> bool \<Rightarrow> off64 \<Rightarrow> 32 word \<Rightarrow> capio_file" where
  "CapioFile_file directory permanent init_size n_close_expected =
     CapioFile_default\<lparr>f_requested_size := init_size, f_n_close_expected := n_close_expected,
       f_directory := directory, f_permanent := permanent\<rparr>"

section \<open>Queries\<close>

definition isCommitted :: "capio_file \<Rightarrow> bool" where
  "isCommitted f = f_committed f"

definition bufferToAllocate :: "capio_file \<Rightarrow> bool" where
  "bufferToAllocate f = buf_empty (f_buffer f)"

definition file_closed :: "capio_file \<Rightarrow> bool" where
  "file_closed f \<longleftrightarrow> f_n_close_expected f = 0 \<or> f_n_close f = sint (f_n_close_expected f)"

definition deletable :: "capio_file \<Rightarrow> bool" where
  "deletable f \<longleftrightarrow> f_n_opens f \<le> 0"

definition isDirectory :: "capio_file \<Rightarrow> bool" where
  "isDirectory f = f_directory f"

definition isFirstWrite :: "capio_file \<Rightarrow> bool" where
  "isFirstWrite f = f_first_write f"

definition getBuffer :: "capio_file \<Rightarrow> cell list option" where
  "getBuffer f = buf_data (f_buffer f)"

definition getBufSize :: "capio_file \<Rightarrow> off64" where
  "getBufSize f = buf_size (f_buffer f)"

definition getFds :: "capio_file \<Rightarrow> (int \<times> int) list" where
  "getFds f = f_threads_fd f"

definition getFileSize :: "capio_file \<Rightarrow> off64" where
  "getFileSize f = ss_getFileSize (f_sectors f)"

definition getStoredSize :: "capio_file \<Rightarrow> off64" where
  "getStoredSize f = ss_getStoredSize (f_sectors f)"

definition getSectorEnd :: "off64 \<Rightarrow> capio_file \<Rightarrow> off64" where
  "getSectorEnd offset f = ss_getSectorEnd offset (f_sectors f)"

definition seekData :: "off64 \<Rightarrow> capio_file \<Rightarrow> off64" where
  "seekData offset f = ss_seekData offset (f_sectors f)"

definition seekHole :: "off64 \<Rightarrow> capio_file \<Rightarrow> off64" where
  "seekHole offset f = ss_seekHole offset (f_sectors f)"

definition getRealFileSize :: "capio_file \<Rightarrow> off64" where
  "getRealFileSize f = f_real_file_size f"

definition getCurrentDirectoryFileCount :: "capio_file \<Rightarrow> 32 word" where
  "getCurrentDirectoryFileCount f = word_of_int (f_n_files f)"

definition getDirectoryExpectedFileCount :: "capio_file \<Rightarrow> 32 word" where
  "getDirectoryExpectedFileCount f = f_n_files_expected f"

text \<open>The conditions of the two waits.\<close>

definition waitForCommit_done :: "capio_file \<Rightarrow> bool" where
  "waitForCommit_done f = f_committed f"

definition waitForData_done :: "off64 \<Rightarrow> capio_file \<Rightarrow> bool" where
  "waitForData_done offset f \<longleftrightarrow> offset \<le> getStoredSize f \<or> f_committed f"

section \<open>Updates\<close>

definition setCommitted :: "bool \<Rightarrow> capio_file \<Rightarrow> capio_file" where
  "setCommitted commit f =
     (if f_committed f \<noteq> commit then
        let f = f\<lparr>f_committed := commit\<rparr>
        in if f_committed f
           then f\<lparr>f_committed_cv := f_committed_cv f + 1, f_data_avail_cv := f_data_avail_cv f + 1\<rparr>
           else f
      else f)"

definition addFd :: "int \<Rightarrow> int \<Rightarrow> capio_file \<Rightarrow> capio_file" where
  "addFd tid fd f = f\<lparr>f_threads_fd := f_threads_fd f @ [(tid, fd)]\<rparr>"

definition removeFd :: "int \<Rightarrow> int \<Rightarrow> capio_file \<Rightarrow> capio_file" where
  "removeFd tid fd f = f\<lparr>f_threads_fd := remove1 (tid, fd) (f_threads_fd f)\<rparr>"

definition file_open :: "capio_file \<Rightarrow> capio_file" where
  "file_open f = f\<lparr>f_n_opens := f_n_opens f + 1\<rparr>"

definition file_close :: "capio_file \<Rightarrow> capio_file" where
  "file_close f = f\<lparr>f_n_close := f_n_close f + 1, f_n_opens := f_n_opens f - 1\<rparr>"

definition setRealFileSize :: "off64 \<Rightarrow> capio_file \<Rightarrow> capio_file" where
  "setRealFileSize sz f = f\<lparr>f_real_file_size := sz\<rparr>"

definition registerFirstWrite :: "capio_file \<Rightarrow> capio_file" where
  "registerFirstWrite f = f\<lparr>f_first_write := False\<rparr>"

definition incrementDirectoryFileCount :: "int \<Rightarrow> capio_file \<Rightarrow> capio_file" where
  "incrementDirectoryFileCount n f =
     f\<lparr>f_n_files := f_n_files f + n, f_data_avail_cv := f_data_avail_cv f + 1\<rparr>"

definition insertSector :: "off64 \<Rightarrow> off64 \<Rightarrow> capio_file \<Rightarrow> capio_file" where
  "insertSector new_start new_end f =
     f\<lparr>f_sectors := ss_insertSector new_start new_end (f_sectors f),
       f_data_avail_cv := f_data_avail_cv f + 1\<rparr>"

definition dump :: "sys \<Rightarrow> capio_file \<Rightarrow> fault + capio_file" where
  "dump S f =
     (if f_permanent f \<and> \<not> f_directory f \<and> f_home_node f then
        (case buf_storage (f_buffer f) of
           HeapStorageInterface \<Rightarrow> Inr f
         | MappedStorageInterface _ _ \<Rightarrow>
             (case buf_commit S (getFileSize f) (f_buffer f) of
                Inl e \<Rightarrow> Inl e
              | Inr (ok, b) \<Rightarrow> if ok then Inr (f\<lparr>f_buffer := b\<rparr>) else Inl ErrExit))
      else Inr f)"

definition createBuffer :: "sys \<Rightarrow> (off64 \<Rightarrow> off64) \<Rightarrow> path \<Rightarrow> bool \<Rightarrow> capio_file \<Rightarrow> fault + capio_file" where
  "createBuffer S quota path home_node f =
     (if buf_empty (f_buffer f) then
        let f = f\<lparr>f_home_node := home_node\<rparr>
        in if f_permanent f \<and> home_node \<and> \<not> f_directory f then
             (case buf_allocate_path S quota path (f_requested_size f) MappedBuffer of
                Inl e \<Rightarrow> Inl e
              | Inr (ok, b) \<Rightarrow> if ok then Inr (f\<lparr>f_buffer := b\<rparr>) else Inl ErrExit)
           else if f_permanent f \<and> home_node \<and> \<not> sys_create_directory S path then
             Inl (Throws ''std::filesystem::filesystem_error'')
           else
             (case buf_allocate S quota (f_requested_size f) HeapBuffer of
                Inl e \<Rightarrow> Inl e
              | Inr (_, b) \<Rightarrow> Inr (f\<lparr>f_buffer := b\<rparr>))
      else Inr f)"

definition expandBuffer :: "sys \<Rightarrow> (off64 \<Rightarrow> off64) \<Rightarrow> off64 \<Rightarrow> capio_file \<Rightarrow> fault + capio_file" where
  "expandBuffer S quota data_size f =
     (case buf_grow S quota data_size (f_sectors f) (f_buffer f) of
        Inl e \<Rightarrow> Inl e
      | Inr (ok, b) \<Rightarrow> if ok then Inr (f\<lparr>f_buffer := b\<rparr>) else Inl ErrExit)"

section \<open>Access to the bytes\<close>

text \<open>
  A block transfer into or out of the buffer at \<open>getBuffer() + offset\<close>. A range outside the
  block is a fault; a transfer of no bytes touches nothing.
\<close>

definition store_at :: "off64 \<Rightarrow> cell list \<Rightarrow> capio_file \<Rightarrow> fault + capio_file" where
  "store_at offset xs f =
     (if xs = [] then Inr f
      else case getBuffer f of
             None \<Rightarrow> Inl NullDeref
           | Some d \<Rightarrow>
               if offset < 0 \<or> int (length d) < offset + int (length xs) then Inl OutOfBounds
               else Inr (f\<lparr>f_buffer := (f_buffer f)\<lparr>buf_data := Some (blit (nat offset) xs d)\<rparr>\<rparr>))"

definition load_at :: "off64 \<Rightarrow> off64 \<Rightarrow> capio_file \<Rightarrow> fault + cell list" where
  "load_at offset n f =
     (if n = 0 then Inr []
      else case getBuffer f of
             None \<Rightarrow> Inl NullDeref
           | Some d \<Rightarrow>
               if n < 0 \<or> offset < 0 \<or> int (length d) < offset + n then Inl OutOfBounds
               else Inr (seg (nat offset) (nat n) d))"

text \<open>\<open>readFromNode\<close>: \<open>bs\<close> is what \<open>backend->recv_file\<close> puts at the address.\<close>

definition readFromNode :: "cell list \<Rightarrow> off64 \<Rightarrow> capio_file \<Rightarrow> fault + capio_file" where
  "readFromNode bs offset f = store_at offset bs f"

definition readFromQueue :: "slot_queue \<Rightarrow> off64 \<Rightarrow> off64 \<Rightarrow> capio_file \<Rightarrow> fault + slot_queue \<times> capio_file" where
  "readFromQueue q offset num_bytes f =
     (case queue_read sq_read1 (sq_elem_size q) (nat num_bytes) q of
        None \<Rightarrow> Inl Blocked
      | Some (xs, q') \<Rightarrow>
          (case store_at offset xs f of Inl e \<Rightarrow> Inl e | Inr f' \<Rightarrow> Inr (q', f')))"

text \<open>
  The source branches on \<open>&src == this\<close> to use \<open>memmove\<close>; with the bytes read before they
  are stored, passing the file itself as \<open>src\<close> gives that branch.
\<close>

definition copyFromFile :: "capio_file \<Rightarrow> off64 \<Rightarrow> off64 \<Rightarrow> off64 \<Rightarrow> capio_file \<Rightarrow> fault + capio_file" where
  "copyFromFile src src_offset dst_offset num_bytes f =
     (case load_at src_offset num_bytes src of
        Inl e \<Rightarrow> Inl e
      | Inr xs \<Rightarrow> store_at dst_offset xs f)"

section \<open>Invariant\<close>

definition file_wf :: "capio_file \<Rightarrow> bool" where
  "file_wf f \<longleftrightarrow>
     buf_wf (f_buffer f) \<and> wf_sectors (f_sectors f) \<and>
     (if buf_empty (f_buffer f) then f_sectors f = []
      else sectors_within (f_sectors f) (buf_size (f_buffer f)))"

text \<open>The bytes of a file that can be read: data and where it lies.\<close>

definition byte_at :: "capio_file \<Rightarrow> off64 \<Rightarrow> cell option" where
  "byte_at f x = (if x \<in> covered (f_sectors f) then cell_at (f_buffer f) x else None)"

lemma file_wf_default: "file_wf CapioFile_default"
  by (simp add: file_wf_def CapioFile_default_def HeapBuffer_def buf_wf_def buf_empty_def)

lemma file_wf_ctors [simp]:
  "file_wf (CapioFile_dir directory n perm sz c)" "file_wf (CapioFile_file directory perm sz c')"
  using file_wf_default by (simp_all add: CapioFile_dir_def CapioFile_file_def file_wf_def)

text \<open>Operations that touch neither the buffer nor the sectors.\<close>

definition same_storage :: "capio_file \<Rightarrow> capio_file \<Rightarrow> bool" where
  "same_storage f g \<longleftrightarrow> f_buffer g = f_buffer f \<and> f_sectors g = f_sectors f"

lemma file_wf_same_storage: "same_storage f g \<Longrightarrow> file_wf f \<Longrightarrow> file_wf g"
  by (simp add: same_storage_def file_wf_def)

lemma same_storage_ops:
  "same_storage f (setCommitted c f)" "same_storage f (addFd t d f)" "same_storage f (removeFd t d f)"
  "same_storage f (file_open f)" "same_storage f (file_close f)" "same_storage f (setRealFileSize n f)"
  "same_storage f (registerFirstWrite f)" "same_storage f (incrementDirectoryFileCount k f)"
  by (simp_all add: same_storage_def setCommitted_def addFd_def removeFd_def file_open_def file_close_def
      setRealFileSize_def registerFirstWrite_def incrementDirectoryFileCount_def Let_def)

lemmas file_wf_ops [simp] = same_storage_ops [THEN file_wf_same_storage]

lemma buf_allocate_ok:
  assumes "buf_allocate S quota n HeapBuffer = Inr (ok, b)"
  shows "buf_wf b \<and> \<not> buf_empty b"
  using assms
  by (auto simp: buf_allocate_def heap_allocate_def HeapBuffer_def buf_empty_def new_char_def Let_def
      buf_wf_def split: if_splits)

lemma buf_allocate_path_ok:
  assumes "buf_allocate_path S quota p n MappedBuffer = Inr (True, b)" and "0 \<le> quota n"
  shows "buf_wf b \<and> \<not> buf_empty b"
  using assms
  by (auto simp: buf_allocate_path_def mapped_allocate_def MappedBuffer_def buf_empty_def Let_def
      buf_wf_def split: if_splits)

lemma createBuffer_new:
  assumes "createBuffer S quota p home f = Inr f'" and "buf_empty (f_buffer f)"
  shows "\<exists>ok b. f' = f\<lparr>f_home_node := home, f_buffer := b\<rparr> \<and>
    (buf_allocate S quota (f_requested_size f) HeapBuffer = Inr (ok, b) \<or>
      buf_allocate_path S quota p (f_requested_size f) MappedBuffer = Inr (True, b))"
  using assms
  by (auto simp: createBuffer_def Let_def split: if_splits sum.splits prod.splits)

text \<open>What the buffer operations need of the quota, and what the request has to be.\<close>

definition nonneg_quota :: "(off64 \<Rightarrow> off64) \<Rightarrow> bool" where
  "nonneg_quota quota \<longleftrightarrow> (\<forall>n. 0 \<le> n \<and> n < 2 ^ 63 \<longrightarrow> 0 \<le> quota n)"

definition valid_request :: "capio_file \<Rightarrow> bool" where
  "valid_request f \<longleftrightarrow> 0 \<le> f_requested_size f \<and> f_requested_size f < 2 ^ 63"

lemma nonneg_quota_compute: "nonneg_quota (computeAllocableMemQuota checks fs cg pages page_size)"
  using quota_bounds by (simp add: nonneg_quota_def)

lemma createBuffer_ok:
  assumes "createBuffer S quota p home f = Inr f'" and "file_wf f" and "nonneg_quota quota"
    and "valid_request f"
  shows "file_wf f' \<and> \<not> buf_empty (f_buffer f') \<and> f_sectors f' = f_sectors f \<and>
    (\<not> buf_empty (f_buffer f) \<longrightarrow> f' = f)"
proof (cases "buf_empty (f_buffer f)")
  case True
  then have "f_sectors f = []" using assms(2) by (simp add: file_wf_def)
  moreover obtain b where "f' = f\<lparr>f_home_node := home, f_buffer := b\<rparr>" "buf_wf b \<and> \<not> buf_empty b"
    using createBuffer_new [OF assms(1) True] buf_allocate_ok buf_allocate_path_ok assms(3,4)
    unfolding nonneg_quota_def valid_request_def by metis
  ultimately show ?thesis using True by (simp add: file_wf_def sectors_within_def)
qed (use assms in \<open>simp add: createBuffer_def\<close>)

lemma createBuffer_faults:
  "createBuffer S quota p home f = Inl e \<Longrightarrow> e = ErrExit \<or> (\<exists>c. e = Throws c)"
  by (auto simp: createBuffer_def Let_def buf_allocate_def heap_allocate_def new_char_def
      buf_allocate_path_def mapped_allocate_def split: if_splits sum.splits prod.splits)

lemma expandBuffer_ok:
  assumes "file_wf f" and "\<not> buf_empty (f_buffer f)" and "getBufSize f \<le> n"
  shows "case expandBuffer S quota n f of
      Inl e \<Rightarrow> e = ErrExit \<or> e = Throws ''std::bad_alloc''
    | Inr f' \<Rightarrow> file_wf f' \<and> \<not> buf_empty (f_buffer f') \<and> n \<le> getBufSize f' \<and>
        f' = f\<lparr>f_buffer := f_buffer f'\<rparr> \<and> same_cells (covered (f_sectors f)) (f_buffer f) (f_buffer f')"
proof -
  have wf: "buf_wf (f_buffer f)" "sectors_within (f_sectors f) (buf_size (f_buffer f))" "wf_sectors (f_sectors f)"
    using assms(1,2) by (simp_all add: file_wf_def)
  from buf_grow_cases [OF wf(1) assms(2) wf(2) assms(3) [unfolded getBufSize_def], of S quota]
  consider "buf_grow S quota n (f_sectors f) (f_buffer f) = Inl (Throws ''std::bad_alloc'')"
    | "buf_grow S quota n (f_sectors f) (f_buffer f) = Inr (False, f_buffer f)"
    | b where "buf_grow S quota n (f_sectors f) (f_buffer f) = Inr (True, b)" "buf_wf b" "\<not> buf_empty b"
      "n \<le> buf_size b" "same_cells (covered (f_sectors f)) (f_buffer f) b" by blast
  then show ?thesis
  proof cases
    case (3 b)
    then have "expandBuffer S quota n f = Inr (f\<lparr>f_buffer := b\<rparr>)" by (simp add: expandBuffer_def)
    moreover have "sectors_within (f_sectors f) (buf_size b)"
      using sectors_within_mono [OF wf(2)] assms(3) 3(4) by (simp add: getBufSize_def)
    ultimately show ?thesis using 3 wf by (simp add: file_wf_def getBufSize_def)
  qed (simp_all add: expandBuffer_def)
qed

section \<open>Writing\<close>

text \<open>The steps that every writer of a file makes before it stores its bytes.\<close>

definition prepare_buffer :: "bool \<Rightarrow> sys \<Rightarrow> (off64 \<Rightarrow> off64) \<Rightarrow> path \<Rightarrow> off64 \<Rightarrow> capio_file \<Rightarrow> fault + capio_file" where
  "prepare_buffer home S quota path end_of_write f =
     (case createBuffer S quota path home f of
        Inl e \<Rightarrow> Inl e
      | Inr f1 \<Rightarrow> if getBufSize f1 < end_of_write then expandBuffer S quota end_of_write f1 else Inr f1)"

abbreviation prepare_write :: "sys \<Rightarrow> (off64 \<Rightarrow> off64) \<Rightarrow> path \<Rightarrow> off64 \<Rightarrow> capio_file \<Rightarrow> fault + capio_file" where
  "prepare_write \<equiv> prepare_buffer True"

definition store_data :: "sys \<Rightarrow> (off64 \<Rightarrow> off64) \<Rightarrow> path \<Rightarrow> off64 \<Rightarrow> cell list \<Rightarrow> capio_file \<Rightarrow> fault + capio_file" where
  "store_data S quota path offset xs f =
     (case prepare_write S quota path (offset + int (length xs)) f of
        Inl e \<Rightarrow> Inl e
      | Inr f1 \<Rightarrow>
          (case store_at offset xs f1 of
             Inl e \<Rightarrow> Inl e
           | Inr f2 \<Rightarrow> Inr (insertSector offset (offset + int (length xs)) f2)))"

lemma prepare_buffer_ok:
  assumes "file_wf f" and "nonneg_quota quota" and "valid_request f"
  shows "case prepare_buffer home S quota path n f of
      Inl e \<Rightarrow> e = ErrExit \<or> (\<exists>c. e = Throws c)
    | Inr f' \<Rightarrow> file_wf f' \<and> \<not> buf_empty (f_buffer f') \<and> n \<le> getBufSize f' \<and>
        f_sectors f' = f_sectors f \<and> byte_at f' = byte_at f"
proof (cases "createBuffer S quota path home f")
  case (Inl e)
  then show ?thesis using createBuffer_faults by (auto simp: prepare_buffer_def)
next
  case (Inr f1)
  have f1: "file_wf f1 \<and> \<not> buf_empty (f_buffer f1) \<and> f_sectors f1 = f_sectors f \<and>
      (\<not> buf_empty (f_buffer f) \<longrightarrow> f1 = f)"
    by (rule createBuffer_ok [OF Inr assms])
  have same: "byte_at f1 = byte_at f"
  proof (cases "buf_empty (f_buffer f)")
    case True
    then have "f_sectors f = []" using assms(1) by (simp add: file_wf_def)
    then show ?thesis using f1 by (intro ext) (simp add: byte_at_def)
  qed (use f1 in simp)
  show ?thesis
  proof (cases "getBufSize f1 < n")
    case False
    then show ?thesis using Inr f1 same by (simp add: prepare_buffer_def)
  next
    case True
    then have pw: "prepare_buffer home S quota path n f = expandBuffer S quota n f1"
      using Inr by (simp add: prepare_buffer_def)
    show ?thesis
    proof (cases "expandBuffer S quota n f1")
      case (Inl e)
      then show ?thesis using pw expandBuffer_ok [of f1 n S quota] f1 True by auto
    next
      case (Inr f2)
      then have f2: "file_wf f2" "\<not> buf_empty (f_buffer f2)" "n \<le> getBufSize f2"
        "f2 = f1\<lparr>f_buffer := f_buffer f2\<rparr>" "same_cells (covered (f_sectors f1)) (f_buffer f1) (f_buffer f2)"
        using expandBuffer_ok [of f1 n S quota] f1 True by auto
      have sec: "f_sectors f2 = f_sectors f1" using arg_cong [OF f2(4), of f_sectors] by simp
      then have "byte_at f2 = byte_at f1" using f2(5) by (intro ext) (simp add: byte_at_def same_cells_def)
      then show ?thesis using pw Inr f2 sec f1 same by simp
    qed
  qed
qed

lemmas prepare_write_ok = prepare_buffer_ok [where home = True]

lemma cell_at_store:
  assumes "store_at offset xs f = Inr f'" and "getBuffer f \<noteq> None"
  shows "cell_at (f_buffer f') x =
    (if offset \<le> x \<and> x < offset + int (length xs) then Some (xs ! nat (x - offset)) else cell_at (f_buffer f) x)"
proof (cases "xs = []")
  case False
  obtain d where d: "buf_data (f_buffer f) = Some d" using assms(2) by (auto simp: getBuffer_def)
  with assms(1) False have o: "0 \<le> offset" "offset + int (length xs) \<le> int (length d)"
    and f': "f' = f\<lparr>f_buffer := (f_buffer f)\<lparr>buf_data := Some (blit (nat offset) xs d)\<rparr>\<rparr>"
    by (auto simp: store_at_def getBuffer_def split: if_splits)
  have le: "nat offset + length xs \<le> length d" using o by linarith
  have "nat offset \<le> nat x \<and> nat x < nat offset + length xs \<longleftrightarrow> offset \<le> x \<and> x < offset + int (length xs)"
    if "0 \<le> x" using o that by linarith
  then show ?thesis
    using d f' le o by (auto simp: cell_at_def length_blit nth_blit nat_less_iff nat_diff_distrib)
qed (use assms in \<open>auto simp: store_at_def\<close>)

lemma store_at_fits:
  assumes "file_wf f" and "\<not> buf_empty (f_buffer f)" and "0 \<le> offset"
    and "offset + int (length xs) \<le> getBufSize f"
  obtains f' where "store_at offset xs f = Inr f'" and "f_sectors f' = f_sectors f"
    and "buf_size (f_buffer f') = buf_size (f_buffer f)" and "buf_wf (f_buffer f')"
    and "\<not> buf_empty (f_buffer f')"
proof -
  obtain d where d: "buf_data (f_buffer f) = Some d" "int (length d) = buf_size (f_buffer f)"
    using assms(1,2) by (auto simp: file_wf_def buf_wf_def buf_empty_def)
  have le: "nat offset + length xs \<le> length d" using assms(3,4) d(2) by (simp add: getBufSize_def)
  show ?thesis
  proof (cases "xs = []")
    case True
    then show ?thesis using assms(1,2) by (intro that [of f]) (simp_all add: store_at_def file_wf_def)
  next
    case False
    then show ?thesis
      using d le assms(3,4)
      by (intro that [of "f\<lparr>f_buffer := (f_buffer f)\<lparr>buf_data := Some (blit (nat offset) xs d)\<rparr>\<rparr>"])
        (simp_all add: store_at_def getBuffer_def getBufSize_def buf_wf_def buf_empty_def length_blit)
  qed
qed

lemma file_wf_insertSector:
  assumes "file_wf f" and "\<not> buf_empty (f_buffer f)" and "0 \<le> s" and "s \<le> e" and "e \<le> getBufSize f"
  shows "file_wf (insertSector s e f)"
  using assms sectors_within_insert wf_insertSector
  by (simp add: file_wf_def insertSector_def getBufSize_def)

text \<open>The file after the bytes \<open>xs\<close> were stored at \<open>offset\<close> and their sector was inserted.\<close>

definition written :: "capio_file \<Rightarrow> off64 \<Rightarrow> cell list \<Rightarrow> capio_file \<Rightarrow> bool" where
  "written f offset xs g \<longleftrightarrow>
     (\<forall>x. offset \<le> x \<and> x < offset + int (length xs) \<longrightarrow> byte_at g x = Some (xs ! nat (x - offset))) \<and>
     (\<forall>x. \<not> (offset \<le> x \<and> x < offset + int (length xs)) \<and>
        x \<notin> bridged offset (offset + int (length xs)) (f_sectors f) \<longrightarrow> byte_at g x = byte_at f x)"

lemma store_insert_ok:
  assumes "file_wf f" and "\<not> buf_empty (f_buffer f)" and "0 \<le> offset"
    and "offset + int (length xs) \<le> getBufSize f"
  obtains f' where "store_at offset xs f = Inr f'"
    and "file_wf (insertSector offset (offset + int (length xs)) f')"
    and "f_sectors f' = f_sectors f"
    and "written f offset xs (insertSector offset (offset + int (length xs)) f')"
proof -
  let ?e = "offset + int (length xs)"
  obtain f' where f': "store_at offset xs f = Inr f'" "f_sectors f' = f_sectors f"
    "buf_size (f_buffer f') = buf_size (f_buffer f)" "buf_wf (f_buffer f')" "\<not> buf_empty (f_buffer f')"
    using store_at_fits [OF assms] by blast
  have wf': "file_wf f'" using assms(1,2) f' by (simp add: file_wf_def)
  have wf: "file_wf (insertSector offset ?e f')"
    using file_wf_insertSector [OF wf' f'(5) assms(3), of ?e] assms(4) f'(3) by (simp add: getBufSize_def)
  have cov: "covered (f_sectors (insertSector offset ?e f')) =
      covered (f_sectors f) \<union> {offset..<?e} \<union> bridged offset ?e (f_sectors f)"
    using covered_insertSector [of "f_sectors f" offset ?e] assms(1) f'(2)
    by (simp add: insertSector_def file_wf_def)
  have cell: "cell_at (f_buffer (insertSector offset ?e f')) x =
      (if offset \<le> x \<and> x < ?e then Some (xs ! nat (x - offset)) else cell_at (f_buffer f) x)" for x
    using cell_at_store [OF f'(1), of x] assms(2)
    by (simp add: insertSector_def getBuffer_def buf_empty_def)
  have "written f offset xs (insertSector offset ?e f')"
    unfolding written_def byte_at_def cov cell by simp
  then show ?thesis using that f'(1,2) wf by blast
qed

lemma store_data_ok:
  assumes "file_wf f" and "nonneg_quota quota" and "valid_request f" and "0 \<le> offset"
  shows "case store_data S quota path offset xs f of
      Inl e \<Rightarrow> e = ErrExit \<or> (\<exists>c. e = Throws c)
    | Inr g \<Rightarrow> file_wf g \<and> written f offset xs g \<and> (xs \<noteq> [] \<longrightarrow> offset + int (length xs) \<le> getSectorEnd offset g)"
proof (cases "prepare_write S quota path (offset + int (length xs)) f")
  case (Inl e)
  then show ?thesis
    using prepare_write_ok [OF assms(1-3), where S = S and path = path and n = "offset + int (length xs)"] by (simp add: store_data_def)
next
  case (Inr f1)
  let ?e = "offset + int (length xs)"
  have f1: "file_wf f1" "\<not> buf_empty (f_buffer f1)" "?e \<le> getBufSize f1" "f_sectors f1 = f_sectors f"
    "byte_at f1 = byte_at f"
    using prepare_write_ok [OF assms(1-3), where S = S and path = path and n = ?e] Inr by auto
  obtain f2 where f2: "store_at offset xs f1 = Inr f2" "file_wf (insertSector offset ?e f2)"
    "f_sectors f2 = f_sectors f1" "written f1 offset xs (insertSector offset ?e f2)"
    using store_insert_ok [OF f1(1,2) assms(4) f1(3)] by blast
  have "?e \<le> getSectorEnd offset (insertSector offset ?e f2)" if "xs \<noteq> []"
    using ss_index.inserted_run [of "f_sectors f2" offset ?e] f1(1) f2(3) assms(4) that
    by (simp add: getSectorEnd_def insertSector_def file_wf_def)
  then show ?thesis using f2 f1 Inr by (simp add: store_data_def written_def)
qed

lemma dump_ok:
  assumes "dump S f = Inr g" and "file_wf f" and "\<not> buf_empty (f_buffer f)"
  shows "file_wf g \<and> f_sectors g = f_sectors f \<and> byte_at g = byte_at f"
proof -
  obtain d where d: "buf_data (f_buffer f) = Some d" "int (length d) = buf_size (f_buffer f)"
    and wf: "wf_sectors (f_sectors f)" "sectors_within (f_sectors f) (buf_size (f_buffer f))"
    using assms(2,3) by (auto simp: file_wf_def buf_wf_def buf_empty_def)
  have sz: "0 \<le> getFileSize f" "getFileSize f \<le> int (length d)"
    using wf(2) d(2) by (fastforce simp: getFileSize_def ss_getFileSize_def sectors_within_def dest: last_in_set)+
  have within: "sectors_within (f_sectors f) (getFileSize f)"
    using wf ss_getFileSize_ge [OF wf(1)] by (auto simp: sectors_within_def getFileSize_def)
  show ?thesis
  proof (cases "g = f")
    case False
    with assms(1) d obtain st where g: "g = f\<lparr>f_buffer := (f_buffer f)
        \<lparr>buf_data := Some (take (nat (getFileSize f)) d), buf_size := getFileSize f, buf_storage := st\<rparr>\<rparr>"
      by (auto simp: dump_def buf_commit_def mapped_commit_def Let_def
          split: if_splits storage_interface.splits sum.splits)
    then have "byte_at g x = byte_at f x" for x
      using covered_within [OF within, of x] sz d(1) by (auto simp: byte_at_def cell_at_def)
    then show ?thesis using g wf within sz by (auto simp: file_wf_def buf_wf_def buf_empty_def)
  qed (use assms in simp)
qed

section \<open>Properties\<close>

text \<open>
  C8: storing bytes in a well-formed file never reads or writes outside its buffer: it ends
  the server or throws when the system refuses memory or the backing file, and otherwise
  the file is well formed, reads back exactly the stored bytes, keeps every other byte of
  the file, and a read at the offset is served the stored bytes in one piece.
\<close>

theorem store_data_correct:
  assumes "file_wf f" and "nonneg_quota quota" and "valid_request f" and "0 \<le> offset"
  shows "case store_data S quota path offset xs f of
      Inl e \<Rightarrow> e = ErrExit \<or> (\<exists>c. e = Throws c)
    | Inr g \<Rightarrow> file_wf g \<and> written f offset xs g \<and>
        (xs \<noteq> [] \<longrightarrow> offset + int (length xs) \<le> getSectorEnd offset g)"
  using assms by (rule store_data_ok)

theorem store_data_correct_witness:
  "\<exists>g. store_data sys_ok id ''f'' 3 [Some 1, Some 2] (CapioFile_file False False 4 0) = Inr g \<and>
     file_wf g \<and> written (CapioFile_file False False 4 0) 3 [Some 1, Some 2] g \<and> 5 \<le> getSectorEnd 3 g"
proof -
  have "store_data sys_ok id ''f'' 3 [Some 1, Some 2] (CapioFile_file False False 4 0) \<noteq> Inl e" for e
    by (simp add: store_data_def prepare_buffer_def createBuffer_def CapioFile_file_def CapioFile_default_def
        HeapBuffer_def buf_empty_def buf_allocate_def heap_allocate_def new_char_def sys_ok_def Let_def
        getBufSize_def expandBuffer_def buf_grow_def heap_grow_def store_at_def getBuffer_def)
  then obtain g where "store_data sys_ok id ''f'' 3 [Some 1, Some 2] (CapioFile_file False False 4 0) = Inr g"
    by (meson sum.exhaust)
  moreover have "nonneg_quota id" "valid_request (CapioFile_file False False 4 0)"
    by (simp_all add: nonneg_quota_def valid_request_def CapioFile_file_def)
  ultimately show ?thesis
    using store_data_correct [where f = "CapioFile_file False False 4 0" and quota = id and offset = 3 and
        S = sys_ok and path = "''f''" and xs = "[Some 1, Some 2]"]
    by simp
qed


text \<open>
  C21: no operation makes the condition of a waiting thread true without notifying the
  condition variable it waits on.
\<close>

theorem no_lost_wakeup:
  assumes "g \<in> {setCommitted c, addFd t d, removeFd t d, file_open, file_close, setRealFileSize n,
      registerFirstWrite, incrementDirectoryFileCount k, insertSector s e}"
  shows "(\<not> waitForCommit_done f \<and> waitForCommit_done (g f) \<longrightarrow> f_committed_cv f < f_committed_cv (g f)) \<and>
    (\<not> waitForData_done x f \<and> waitForData_done x (g f) \<longrightarrow> f_data_avail_cv f < f_data_avail_cv (g f))"
  using assms
  by (auto simp: waitForCommit_done_def waitForData_done_def setCommitted_def addFd_def removeFd_def
      file_open_def file_close_def setRealFileSize_def registerFirstWrite_def
      incrementDirectoryFileCount_def insertSector_def getStoredSize_def Let_def split: if_splits)

theorem no_lost_wakeup_witness:
  "\<not> waitForData_done 4 CapioFile_default \<and> waitForData_done 4 (insertSector 0 4 CapioFile_default) \<and>
   f_data_avail_cv CapioFile_default < f_data_avail_cv (insertSector 0 4 CapioFile_default)"
  using no_lost_wakeup [of "insertSector 0 4" True 0 0 0 0 0 4 CapioFile_default 4]
  by (simp add: waitForData_done_def getStoredSize_def ss_getStoredSize_def CapioFile_default_def
      insertSector_def ss_insertSector_def Let_def lower_bound_def upper_bound_def erase_range_def)

end
