(* ===== verification/Server_State.thy ===== *)
theory Server_State
  imports Capio_File Wire "HOL-Library.AList"
begin

text \<open>
  The state of a CAPIO server process: the members of \<open>ClientManager\<close>, of \<open>StorageManager\<close>
  and the globals of \<open>utils/location.hpp\<close>, the detached threads that wait for a condition,
  and the messages handed to the backend; and the surroundings of the server, which are
  parameters of the model.

  Files live in a store \<open>s_files\<close> indexed by identities, because descriptors hold pointers
  to them; a pointer to a destroyed file is an identity that is not in the store. The
  offsets shared by duplicated descriptors live in the store \<open>s_offsets\<close>.

  Maps that the code iterates over are association lists. Their order stands for the
  iteration order of the C++ containers, which is unspecified; no theorem depends on it.
\<close>

section \<open>Paths\<close>

text \<open>\<open>std::filesystem::path::filename\<close>: the part after the last slash.\<close>

definition path_filename :: "path \<Rightarrow> string" where
  "path_filename p = (case rfind_char p (CHR ''/'') of None \<Rightarrow> p | Some i \<Rightarrow> drop (Suc i) p)"

definition get_parent_dir_path :: "path \<Rightarrow> path" where
  "get_parent_dir_path p =
     (if p = ''/'' \<or> p = [] then p
      else case rfind_char p (CHR ''/'') of None \<Rightarrow> p | Some pos \<Rightarrow> take pos p)"

section \<open>Surroundings\<close>

datatype commit_rule = ON_CLOSE | ON_FILE | ON_N_FILES | ON_TERMINATION

text \<open>
  \<open>cl_\<close> are the queries to the CAPIO-CL engine, \<open>rc_\<close> the values of \<open>RuntimeConfiguration\<close>,
  \<open>be_\<close> those of the backend. \<open>stdio_pos\<close> is the position of the descriptor below a \<open>FILE\<close>
  of the given length after the given number of bytes was consumed through its buffer.
\<close>

record env =
  env_sys :: sys
  env_quota :: "off64 \<Rightarrow> off64"
  cl_isProducer :: "path \<Rightarrow> string \<Rightarrow> bool"
  cl_isFirable :: "path \<Rightarrow> bool"
  cl_getCommitRule :: "path \<Rightarrow> commit_rule"
  cl_isExcluded :: "path \<Rightarrow> bool"
  cl_isPermanent :: "path \<Rightarrow> bool"
  cl_getDirectoryFileCount :: "path \<Rightarrow> int"
  cl_getCommitCloseCount :: "path \<Rightarrow> int"
  rc_capio_dir :: path
  rc_file_initial_size :: off64
  rc_prefetch_data_size :: off64
  rc_cache_lines :: nat
  rc_cache_line_size :: nat
  be_node_name :: string
  be_nodes :: "string list"
  stdio_pos :: "nat \<Rightarrow> nat \<Rightarrow> nat"
  std_hash :: "path \<Rightarrow> 64 word"

definition CAPIO_DEFAULT_DIR_INITIAL_SIZE :: off64 where
  "CAPIO_DEFAULT_DIR_INITIAL_SIZE = 1024 * 1024 * 1024"

definition CAPIO_DEFAULT_FILE_INITIAL_SIZE :: off64 where
  "CAPIO_DEFAULT_FILE_INITIAL_SIZE = 1024 * 1024 * 1024 * 4"

definition CAPIO_DEFAULT_APP_NAME :: string where
  "CAPIO_DEFAULT_APP_NAME = ''default_app''"

definition CAPIO_REQ_BUFF_CNT :: nat where
  "CAPIO_REQ_BUFF_CNT = 512"

definition CAPIO_POSIX_SYSCALL_REQUEST_SKIP :: off64 where
  "CAPIO_POSIX_SYSCALL_REQUEST_SKIP = - 2"

section \<open>Data\<close>

text \<open>
  A node name stored as \<open>const char *\<close>: the buffer of the backend's own name, or a copy.
  Some comparisons of the source compare the pointers.
\<close>

datatype node_ptr = OwnName | NodeCopy string

definition node_str :: "env \<Rightarrow> node_ptr \<Rightarrow> string" where
  "node_str E p = (case p of OwnName \<Rightarrow> be_node_name E | NodeCopy s \<Rightarrow> s)"

type_synonym location = "node_ptr \<times> off64"

record thread_fd =
  t_pointer :: "nat option"
  t_offset :: "nat option"
  t_path :: path

definition thread_fd_default :: thread_fd where
  "thread_fd_default = \<lparr>t_pointer = None, t_offset = None, t_path = []\<rparr>"

record copy_range =
  cp_tid :: int
  cp_fd_in :: int
  cp_fd_out :: int
  cp_offset_in :: off64
  cp_offset_out :: off64
  cp_count :: off64
  cp_path_in :: path
  cp_path_out :: path

text \<open>
  The detached threads, named after the function or the lambda they run, with the values
  they captured; a captured reference to a file is its identity. A thread whose function looks
  something up before it waits has a \<open>Start_\<close> entry for that part.
\<close>

datatype waiter =
    Wait_cloned_child int
  | Wait_file_creation path int int
  | Wait_read_commit nat int int off64 off64
  | Wait_read_data nat int int off64 off64
  | Wait_file path int int off64
  | Wait_file_completion int path
  | Start_dirent_data nat off64 int int off64
  | Wait_dirent_data nat off64 int int off64 off64
  | Wait_getdents path int int off64
  | Wait_copy_commit nat copy_range
  | Wait_copy_data nat copy_range
  | Wait_copy_creation copy_range
  | Start_remote_data path string int int off64 off64 bool
  | Wait_remote_data nat path string int int off64 off64 bool
  | Start_remote_completion path int string
  | Wait_remote_completion nat path int string
  | Wait_remote_copy nat path string int int int off64 off64 off64

record server =
  s_responses :: "int \<rightharpoonup> off64 list"
  s_data_buffers :: "int \<rightharpoonup> slot_queue \<times> cell list list"
  s_app_names :: "int \<rightharpoonup> string"
  s_by_producer :: "int \<rightharpoonup> path list"
  s_by_app :: "string \<rightharpoonup> path list"
  s_allowed :: "int list"
  s_storage :: "(path \<times> nat) list"
  s_files :: "nat \<rightharpoonup> capio_file"
  s_next_file :: nat
  s_fds :: "((int \<times> int) \<times> thread_fd) list"
  s_offsets :: "nat \<rightharpoonup> off64"
  s_next_offset :: nat
  s_locations :: "path \<rightharpoonup> location"
  s_texts :: "string \<Rightarrow> string"
  s_waiting :: "waiter list"
  s_sent :: "(string \<times> string \<times> cell list) list"

type_synonym 'a srv = "('a, server) comp"

definition server_init :: server where
  "server_init =
     \<lparr>s_responses = Map.empty, s_data_buffers = Map.empty, s_app_names = Map.empty,
      s_by_producer = Map.empty, s_by_app = Map.empty, s_allowed = [], s_storage = [],
      s_files = Map.empty, s_next_file = 0, s_fds = [], s_offsets = Map.empty, s_next_offset = 0,
      s_locations = Map.empty, s_texts = (\<lambda>_. []), s_waiting = [], s_sent = []\<rparr>"

section \<open>Access to the stores\<close>

definition file_at :: "nat \<Rightarrow> capio_file srv" where
  "file_at i s = (case s_files s i of None \<Rightarrow> Inl Dangling | Some f \<Rightarrow> Inr (f, s))"

definition set_file :: "nat \<Rightarrow> capio_file \<Rightarrow> unit srv" where
  "set_file i f = modifyM (\<lambda>s. s\<lparr>s_files := (s_files s)(i \<mapsto> f)\<rparr>)"

definition update_file :: "nat \<Rightarrow> (capio_file \<Rightarrow> capio_file) \<Rightarrow> unit srv" where
  "update_file i g = bindM (file_at i) (\<lambda>f. set_file i (g f))"

definition try_update_file :: "nat \<Rightarrow> (capio_file \<Rightarrow> fault + capio_file) \<Rightarrow> unit srv" where
  "try_update_file i g = bindM (file_at i) (\<lambda>f. bindM (liftM (g f)) (set_file i))"

definition spawn :: "waiter \<Rightarrow> unit srv" where
  "spawn w = modifyM (\<lambda>s. s\<lparr>s_waiting := s_waiting s @ [w]\<rparr>)"

text \<open>\<open>backend->send_request\<close> and \<open>backend->send_file\<close>: destination, message and data.\<close>

definition send :: "string \<Rightarrow> string \<Rightarrow> cell list \<Rightarrow> unit srv" where
  "send dest message payload = modifyM (\<lambda>s. s\<lparr>s_sent := s_sent s @ [(dest, message, payload)]\<rparr>)"

text \<open>\<open>emplace\<close> on a map: nothing happens when the key is present.\<close>

definition map_emplace :: "'k \<Rightarrow> 'v \<Rightarrow> ('k \<rightharpoonup> 'v) \<Rightarrow> ('k \<rightharpoonup> 'v)" where
  "map_emplace k v m = (case m k of None \<Rightarrow> m(k \<mapsto> v) | Some _ \<Rightarrow> m)"

end
