(* ===== verification/Posix_State.thy ===== *)
theory Posix_State
  imports Paths Shm_Queue Server_State
begin

text \<open>
  The state of a thread of the intercepting library \<open>libcapio_posix\<close> and the tables of
  \<open>posix/utils/filesystem.hpp\<close>.

  A \<open>host\<close> is what the library runs on: the operating system and the C library, and the shared
  memory through which it talks to the server. It is a parameter of every operation, with a
  state of any type \<open>'w\<close>; a queue operation returns \<open>None\<close> when the thread would wait. Values of
  system calls are those of the kernel: a negative value is an error number. \<open>h_reserve\<close> waits
  for a free slot of the write queue, \<open>h_commit\<close> is that slot with its bytes, and \<open>h_wake\<close> is the
  point at which a server that waits for data proceeds.

  The state holds the three tables, the offsets that duplicated descriptors share, the current
  directory, \<open>errno\<close>, the named objects in shared memory that carry the tables over \<open>execve\<close>,
  and the two caches.
\<close>

section \<open>Constants of the system headers\<close>

abbreviation (input) O_RDONLY :: int where "O_RDONLY \<equiv> 0"
abbreviation (input) O_WRONLY :: int where "O_WRONLY \<equiv> 1"
abbreviation (input) O_RDWR :: int where "O_RDWR \<equiv> 2"
abbreviation (input) O_ACCMODE :: int where "O_ACCMODE \<equiv> 3"
abbreviation (input) O_CREAT :: int where "O_CREAT \<equiv> 64"
abbreviation (input) O_EXCL :: int where "O_EXCL \<equiv> 128"
abbreviation (input) O_TRUNC :: int where "O_TRUNC \<equiv> 512"
abbreviation (input) O_APPEND :: int where "O_APPEND \<equiv> 1024"
abbreviation (input) O_NONBLOCK :: int where "O_NONBLOCK \<equiv> 2048"
abbreviation (input) O_ASYNC :: int where "O_ASYNC \<equiv> 8192"
abbreviation (input) O_DIRECT :: int where "O_DIRECT \<equiv> 16384"
abbreviation (input) O_LARGEFILE :: int where "O_LARGEFILE \<equiv> 0"
abbreviation (input) O_DIRECTORY :: int where "O_DIRECTORY \<equiv> 65536"
abbreviation (input) O_NOATIME :: int where "O_NOATIME \<equiv> 262144"
abbreviation (input) O_CLOEXEC :: int where "O_CLOEXEC \<equiv> 524288"
abbreviation (input) O_PATH :: int where "O_PATH \<equiv> 2097152"
abbreviation (input) AT_FDCWD :: int where "AT_FDCWD \<equiv> - 100"
abbreviation (input) AT_REMOVEDIR :: int where "AT_REMOVEDIR \<equiv> 512"
abbreviation (input) AT_EMPTY_PATH :: int where "AT_EMPTY_PATH \<equiv> 4096"
abbreviation (input) SEEK_SET :: int where "SEEK_SET \<equiv> 0"
abbreviation (input) SEEK_CUR :: int where "SEEK_CUR \<equiv> 1"
abbreviation (input) SEEK_END :: int where "SEEK_END \<equiv> 2"
abbreviation (input) SEEK_DATA :: int where "SEEK_DATA \<equiv> 3"
abbreviation (input) SEEK_HOLE :: int where "SEEK_HOLE \<equiv> 4"
abbreviation (input) ENOENT :: int where "ENOENT \<equiv> 2"
abbreviation (input) EIO :: int where "EIO \<equiv> 5"
abbreviation (input) EBADF :: int where "EBADF \<equiv> 9"
abbreviation (input) EAGAIN :: int where "EAGAIN \<equiv> 11"
abbreviation (input) ENOMEM :: int where "ENOMEM \<equiv> 12"
abbreviation (input) EFAULT :: int where "EFAULT \<equiv> 14"
abbreviation (input) EEXIST :: int where "EEXIST \<equiv> 17"
abbreviation (input) ENOTDIR :: int where "ENOTDIR \<equiv> 20"
abbreviation (input) EISDIR :: int where "EISDIR \<equiv> 21"
abbreviation (input) EINVAL :: int where "EINVAL \<equiv> 22"
abbreviation (input) ENOTTY :: int where "ENOTTY \<equiv> 25"
abbreviation (input) ERANGE :: int where "ERANGE \<equiv> 34"
abbreviation (input) ENODATA :: int where "ENODATA \<equiv> 61"
abbreviation (input) ENONET :: int where "ENONET \<equiv> 64"
abbreviation (input) EOVERFLOW :: int where "EOVERFLOW \<equiv> 75"
abbreviation (input) ENOTSUP :: int where "ENOTSUP \<equiv> 95"
abbreviation (input) SSIZE_MAX :: int where "SSIZE_MAX \<equiv> 9223372036854775807"

definition CAPIO_POSIX_SYSCALL_ERRNO :: int where
  "CAPIO_POSIX_SYSCALL_ERRNO = - 1"

definition CAPIO_POSIX_SYSCALL_SKIP :: int where
  "CAPIO_POSIX_SYSCALL_SKIP = 1"

definition CAPIO_POSIX_SYSCALL_SUCCESS :: int where
  "CAPIO_POSIX_SYSCALL_SUCCESS = 0"

section \<open>The host\<close>

text \<open>What \<open>fstat\<close> tells of a descriptor of the kernel.\<close>

record kernel_stat =
  ks_dir :: bool
  ks_reg :: bool
  ks_size :: off64

record 'w host =
  h_capio_dir :: path
  h_app_name :: "string option"
  h_cache_lines :: nat
  h_cache_line_size :: nat
  h_page_size :: int
  h_hash :: "string \<Rightarrow> int"
  h_uid :: int
  h_gid :: int
  h_pid :: int
  h_getcwd :: "'w \<Rightarrow> path"
  h_realpath :: "path \<Rightarrow> 'w \<Rightarrow> int + path"
  h_readlink :: "int \<Rightarrow> 'w \<Rightarrow> path option"
  h_fstat :: "int \<Rightarrow> 'w \<Rightarrow> kernel_stat option"
  h_open_null :: "int \<Rightarrow> 'w \<Rightarrow> int \<times> 'w"
  h_dup2 :: "int \<Rightarrow> int \<Rightarrow> 'w \<Rightarrow> int \<times> 'w"
  h_dup3 :: "int \<Rightarrow> int \<Rightarrow> int \<Rightarrow> 'w \<Rightarrow> int \<times> 'w"
  h_fcntl :: "int \<Rightarrow> int \<Rightarrow> int \<Rightarrow> 'w \<Rightarrow> int \<times> 'w"
  h_lseek :: "int \<Rightarrow> off64 \<Rightarrow> int \<Rightarrow> 'w \<Rightarrow> int \<times> 'w"
  h_read :: "int \<Rightarrow> off64 option \<Rightarrow> off64 \<Rightarrow> 'w \<Rightarrow> (int \<times> cell list) \<times> 'w"
  h_write :: "int \<Rightarrow> off64 option \<Rightarrow> cell list \<Rightarrow> 'w \<Rightarrow> int \<times> 'w"
  h_mmap :: "off64 \<Rightarrow> 'w \<Rightarrow> int \<times> 'w"
  h_statfs :: "path \<Rightarrow> 'w \<Rightarrow> int"
  h_copy :: "path \<Rightarrow> path \<Rightarrow> 'w \<Rightarrow> fault + 'w"
  h_fork :: "'w \<Rightarrow> int \<times> 'w"
  h_gettid :: "'w \<Rightarrow> int"
  h_connect :: "int \<Rightarrow> 'w \<Rightarrow> 'w"
  h_request :: "string \<Rightarrow> 'w \<Rightarrow> fault + 'w"
  h_response :: "int \<Rightarrow> 'w \<Rightarrow> fault + off64 \<times> 'w"
  h_reserve :: "int \<Rightarrow> 'w \<Rightarrow> 'w option"
  h_commit :: "int \<Rightarrow> cell list \<Rightarrow> 'w \<Rightarrow> fault + 'w"
  h_write1 :: "int \<Rightarrow> cell list \<Rightarrow> 'w \<Rightarrow> 'w option"
  h_wake :: "'w \<Rightarrow> fault + 'w"
  h_read1 :: "int \<Rightarrow> nat \<Rightarrow> 'w \<Rightarrow> (cell list \<times> 'w) option"

section \<open>The state of a thread\<close>

record file_entry =
  fe_offset :: nat
  fe_size :: off64
  fe_flags :: int
  fe_cloexec :: bool

text \<open>
  The caches of \<open>posix/utils/cache.hpp\<close>. \<open>_cache\<close> points to a slot of the queue or is null: the
  model keeps the bytes of the slot, of a write slot those stored so far.
\<close>

record read_cache =
  rc_cache :: "cell list option"
  rc_last_fd :: int
  rc_max_line_size :: off64
  rc_actual_size :: off64
  rc_cache_offset :: off64

record write_cache =
  wc_cache :: "cell list option"
  wc_fd :: int
  wc_max_line_size :: off64
  wc_actual_size :: off64

text \<open>The objects \<open>create_shm\<close> makes for a snapshot: numbers, or a text.\<close>

datatype shm_object = Shm_numbers "int list" | Shm_text string

record 'w client =
  c_tid :: int
  c_descriptors :: "(int \<times> path) list"
  c_paths :: "(path \<times> int list) list"
  c_files :: "(int \<times> file_entry) list"
  c_offsets :: "off64 list"
  c_current_dir :: path
  c_errno :: int
  c_rw_hints :: "path \<rightharpoonup> int"
  c_shm :: "string \<rightharpoonup> shm_object"
  c_read_cache :: read_cache
  c_write_cache :: write_cache
  c_world :: 'w

type_synonym ('a, 'w) lib = "('a, 'w client) comp"

definition set_errno :: "int \<Rightarrow> (unit, 'w) lib" where
  "set_errno e = modifyM (\<lambda>s. s\<lparr>c_errno := e\<rparr>)"

text \<open>Operations of the host: one that returns, one that only looks, one that may wait.\<close>

definition onWorld :: "('w \<Rightarrow> 'a \<times> 'w) \<Rightarrow> ('a, 'w) lib" where
  "onWorld g s = (case g (c_world s) of (x, w) \<Rightarrow> Inr (x, s\<lparr>c_world := w\<rparr>))"

definition askWorld :: "('w \<Rightarrow> 'a) \<Rightarrow> ('a, 'w) lib" where
  "askWorld g = getsM (\<lambda>s. g (c_world s))"

definition tryWorld :: "('w \<Rightarrow> fault + 'w) \<Rightarrow> (unit, 'w) lib" where
  "tryWorld g s = (case g (c_world s) of Inl e \<Rightarrow> Inl e | Inr w \<Rightarrow> Inr ((), s\<lparr>c_world := w\<rparr>))"

definition runWorld :: "('a, 'w) comp \<Rightarrow> ('a, 'w) lib" where
  "runWorld m s = (case m (c_world s) of Inl e \<Rightarrow> Inl e | Inr (x, w) \<Rightarrow> Inr (x, s\<lparr>c_world := w\<rparr>))"

definition waitWorld :: "('w \<Rightarrow> ('a \<times> 'w) option) \<Rightarrow> ('a, 'w) lib" where
  "waitWorld g s =
     (case g (c_world s) of None \<Rightarrow> Inl Blocked | Some (x, w) \<Rightarrow> Inr (x, s\<lparr>c_world := w\<rparr>))"

section \<open>Unordered maps\<close>

text \<open>
  A map of the source is the list of its pairs, in an order that the source leaves open.
  \<open>um_at\<close> is \<open>at\<close>, which throws; \<open>um_insert\<close> leaves an existing pair alone.
\<close>

definition um_at :: "'k \<Rightarrow> ('k \<times> 'v) list \<Rightarrow> ('v, 's) comp" where
  "um_at k m = optM (Throws ''std::out_of_range'') (map_of m k)"

definition um_insert :: "'k \<Rightarrow> 'v \<Rightarrow> ('k \<times> 'v) list \<Rightarrow> ('k \<times> 'v) list" where
  "um_insert k v m = (if map_of m k = None then m @ [(k, v)] else m)"

definition um_erase :: "'k \<Rightarrow> ('k \<times> 'v) list \<Rightarrow> ('k \<times> 'v) list" where
  "um_erase k m = filter (\<lambda>e. fst e \<noteq> k) m"

definition um_set :: "'k \<Rightarrow> 'v \<Rightarrow> ('k \<times> 'v) list \<Rightarrow> ('k \<times> 'v) list" where
  "um_set k v m = map (\<lambda>e. if fst e = k then (k, v) else e) m"

lemma map_of_um_insert [simp]:
  "map_of (um_insert k v m) = (if map_of m k = None then (map_of m)(k \<mapsto> v) else map_of m)"
  by (rule ext) (auto simp: um_insert_def map_add_def split: option.split)

lemma map_of_um_erase [simp]: "map_of (um_erase k m) = (map_of m)(k := None)"
  by (induction m) (auto simp: um_erase_def fun_upd_def)

lemma map_of_um_set [simp]:
  "map_of (um_set k v m) = (if map_of m k = None then map_of m else (map_of m)(k \<mapsto> v))"
  by (induction m) (auto simp: um_set_def fun_upd_def)

lemma keys_um_insert: "distinct (map fst m) \<Longrightarrow> distinct (map fst (um_insert k v m))"
  by (auto simp: um_insert_def map_of_eq_None_iff)

lemma keys_um_erase: "distinct (map fst m) \<Longrightarrow> distinct (map fst (um_erase k m))"
  by (simp add: um_erase_def distinct_map_filter)

lemma keys_um_set [simp]: "map fst (um_set k v m) = map fst m"
  by (auto simp: um_set_def)

section \<open>The tables of descriptors and paths\<close>

definition set_capio_fd_cloexec :: "int \<Rightarrow> bool \<Rightarrow> (unit, 'w) lib" where
  "set_capio_fd_cloexec fd is_cloexec =
     bindM (getsM c_files) (\<lambda>fs. bindM (um_at fd fs) (\<lambda>e.
       modifyM (\<lambda>s. s\<lparr>c_files := um_set fd (e\<lparr>fe_cloexec := is_cloexec\<rparr>) fs\<rparr>)))"

definition get_current_dir :: "(path, 'w) lib" where
  "get_current_dir = getsM c_current_dir"

definition add_capio_path :: "path \<Rightarrow> (unit, 'w) lib" where
  "add_capio_path p = modifyM (\<lambda>s. s\<lparr>c_paths := um_insert p [] (c_paths s)\<rparr>)"

text \<open>\<open>capio_files_paths->at(path).insert(fd)\<close> and \<open>.erase(fd)\<close>.\<close>

definition path_fds_update :: "path \<Rightarrow> (int list \<Rightarrow> int list) \<Rightarrow> (unit, 'w) lib" where
  "path_fds_update p g =
     bindM (getsM c_paths) (\<lambda>ps. bindM (um_at p ps) (\<lambda>fds.
       modifyM (\<lambda>s. s\<lparr>c_paths := um_set p (g fds) ps\<rparr>)))"

definition add_capio_fd :: "path \<Rightarrow> int \<Rightarrow> off64 \<Rightarrow> off64 \<Rightarrow> int \<Rightarrow> bool \<Rightarrow> (unit, 'w) lib" where
  "add_capio_fd p fd offset init_size flags is_cloexec =
     thenM (add_capio_path p)
    (thenM (path_fds_update p (List.insert fd))
    (thenM (modifyM (\<lambda>s. s\<lparr>c_descriptors := um_insert fd p (c_descriptors s)\<rparr>))
           (modifyM (\<lambda>s. s\<lparr>c_offsets := c_offsets s @ [offset],
              c_files := um_insert fd \<lparr>fe_offset = length (c_offsets s), fe_size = init_size,
                fe_flags = flags, fe_cloexec = is_cloexec\<rparr> (c_files s)\<rparr>))))"

definition capio_posix_realpath :: "'w host \<Rightarrow> path \<Rightarrow> (path, 'w) lib" where
  "capio_posix_realpath H pathname =
     bindM (askWorld (h_realpath H pathname)) (\<lambda>r.
       case r of
         Inr posix_real_path \<Rightarrow> returnM posix_real_path
       | Inl e \<Rightarrow>
           thenM (set_errno e)
             (if path_is_absolute pathname then returnM (capio_normal_path pathname)
              else bindM get_current_dir (\<lambda>cwd.
                let new_path = capio_normal_path (path_append cwd pathname)
                in returnM (if is_capio_path (h_capio_dir H) new_path then new_path else []))))"

definition capio_absolute :: "'w host \<Rightarrow> path \<Rightarrow> (path, 'w) lib" where
  "capio_absolute H p =
     (if path_is_absolute p then returnM (capio_normal_path p) else capio_posix_realpath H p)"

definition delete_capio_fd :: "int \<Rightarrow> (unit, 'w) lib" where
  "delete_capio_fd fd =
     bindM (getsM c_descriptors) (\<lambda>ds. bindM (um_at fd ds) (\<lambda>p.
       thenM (path_fds_update p (removeAll fd))
         (modifyM (\<lambda>s. s\<lparr>c_descriptors := um_erase fd (c_descriptors s), c_files := um_erase fd (c_files s)\<rparr>))))"

text \<open>The iterator is advanced before the call erases the element it stood on.\<close>

definition delete_capio_path :: "path \<Rightarrow> (unit, 'w) lib" where
  "delete_capio_path p =
     bindM (getsM c_paths) (\<lambda>ps. bindM (um_at p ps) (\<lambda>fds.
       thenM (forM delete_capio_fd fds) (modifyM (\<lambda>s. s\<lparr>c_paths := um_erase p (c_paths s)\<rparr>))))"

definition dup_capio_fd :: "int \<Rightarrow> int \<Rightarrow> bool \<Rightarrow> (unit, 'w) lib" where
  "dup_capio_fd oldfd newfd is_cloexec =
     bindM (getsM c_descriptors) (\<lambda>ds. bindM (um_at oldfd ds) (\<lambda>p.
       thenM (path_fds_update p (List.insert newfd))
      (bindM (getsM c_files) (\<lambda>fs. bindM (um_at oldfd fs) (\<lambda>e.
         thenM (modifyM (\<lambda>s. s\<lparr>c_files := um_insert newfd e (c_files s)\<rparr>))
        (thenM (set_capio_fd_cloexec newfd is_cloexec)
               (modifyM (\<lambda>s. s\<lparr>c_descriptors := um_insert newfd p (c_descriptors s)\<rparr>))))))))"

definition exists_capio_fd :: "int \<Rightarrow> (bool, 'w) lib" where
  "exists_capio_fd fd = getsM (\<lambda>s. map_of (c_files s) fd \<noteq> None)"

definition exists_capio_path :: "path \<Rightarrow> (bool, 'w) lib" where
  "exists_capio_path p = getsM (\<lambda>s. map_of (c_paths s) p \<noteq> None)"

definition capio_fd_entry :: "int \<Rightarrow> (file_entry, 'w) lib" where
  "capio_fd_entry fd = bindM (getsM c_files) (um_at fd)"

definition get_capio_fd_cloexec :: "int \<Rightarrow> (bool, 'w) lib" where
  "get_capio_fd_cloexec fd = bindM (capio_fd_entry fd) (\<lambda>e. returnM (fe_cloexec e))"

definition get_capio_fd_flags :: "int \<Rightarrow> (int, 'w) lib" where
  "get_capio_fd_flags fd = bindM (capio_fd_entry fd) (\<lambda>e. returnM (fe_flags e))"

definition get_capio_fd_path :: "int \<Rightarrow> (path, 'w) lib" where
  "get_capio_fd_path fd = bindM (getsM c_descriptors) (um_at fd)"

definition get_capio_fd_offset :: "int \<Rightarrow> (off64, 'w) lib" where
  "get_capio_fd_offset fd =
     bindM (capio_fd_entry fd) (\<lambda>e. bindM (getsM c_offsets) (\<lambda>os.
       if fe_offset e < length os then returnM (os ! fe_offset e) else failM Dangling))"

definition get_capio_fd_size :: "int \<Rightarrow> (off64, 'w) lib" where
  "get_capio_fd_size fd = bindM (capio_fd_entry fd) (\<lambda>e. returnM (fe_size e))"

definition get_capio_fds :: "(int list, 'w) lib" where
  "get_capio_fds = getsM (\<lambda>s. map fst (c_files s))"

definition get_dir_path :: "'w host \<Rightarrow> int \<Rightarrow> (path, 'w) lib" where
  "get_dir_path H dirfd =
     (if dirfd = AT_FDCWD then get_current_dir
      else bindM (getsM c_descriptors) (\<lambda>ds.
        case map_of ds dirfd of
          Some p \<Rightarrow> returnM p
        | None \<Rightarrow> bindM (askWorld (h_readlink H dirfd)) (\<lambda>r.
            returnM (case r of None \<Rightarrow> [] | Some p \<Rightarrow> p))))"

definition init_filesystem :: "'w host \<Rightarrow> (unit, 'w) lib" where
  "init_filesystem H =
     bindM (askWorld (h_getcwd H)) (\<lambda>cwd.
       modifyM (\<lambda>s. s\<lparr>c_current_dir := cwd, c_descriptors := [], c_paths := [], c_files := []\<rparr>))"

text \<open>\<open>capio_files_descriptors->at(fd).assign(newpath)\<close>.\<close>

definition assign_path :: "path \<Rightarrow> int \<Rightarrow> (unit, 'w) lib" where
  "assign_path newpath fd =
     bindM (getsM c_descriptors) (\<lambda>ds. thenM (um_at fd ds)
       (modifyM (\<lambda>s. s\<lparr>c_descriptors := um_set fd newpath (c_descriptors s)\<rparr>)))"

text \<open>
  \<open>extract\<close> gives an empty handle when the path is unknown, whose key must not be used. A handle
  that is not inserted is destroyed with the set it holds.
\<close>

definition rename_capio_path :: "path \<Rightarrow> path \<Rightarrow> (unit, 'w) lib" where
  "rename_capio_path oldpath newpath =
     bindM (getsM c_paths) (\<lambda>ps.
       case map_of ps oldpath of
         None \<Rightarrow> failM NullDeref
       | Some entry \<Rightarrow>
           thenM (modifyM (\<lambda>s. s\<lparr>c_paths := um_insert newpath entry (um_erase oldpath ps)\<rparr>))
          (bindM (getsM c_paths) (\<lambda>ps'. bindM (um_at newpath ps') (\<lambda>fds.
             forM (assign_path newpath) fds))))"

definition set_capio_fd_flags :: "int \<Rightarrow> int \<Rightarrow> (unit, 'w) lib" where
  "set_capio_fd_flags fd flags =
     bindM (getsM c_files) (\<lambda>fs. bindM (um_at fd fs) (\<lambda>e.
       modifyM (\<lambda>s. s\<lparr>c_files := um_set fd (e\<lparr>fe_flags := flags\<rparr>) fs\<rparr>)))"

definition set_capio_fd_offset :: "int \<Rightarrow> off64 \<Rightarrow> (unit, 'w) lib" where
  "set_capio_fd_offset fd offset =
     bindM (capio_fd_entry fd) (\<lambda>e. bindM (getsM c_offsets) (\<lambda>os.
       if fe_offset e < length os
       then modifyM (\<lambda>s. s\<lparr>c_offsets := os[fe_offset e := offset]\<rparr>) else failM Dangling))"

definition set_current_dir :: "path \<Rightarrow> (unit, 'w) lib" where
  "set_current_dir cwd = modifyM (\<lambda>s. s\<lparr>c_current_dir := cwd\<rparr>)"

end
