(* ===== verification/Posix_Requests.thy ===== *)
theory Posix_Requests
  imports Posix_State Wire
begin

text \<open>
  The requests of the library to the server (\<open>posix/utils/requests.hpp\<close>).

  Each function prints its request into an array of \<open>CAPIO_REQ_MAX_SIZE\<close> bytes, puts it in the
  request queue and, unless the server does not answer it, takes the answer from the response
  queue of the thread. A text that does not fit with its terminating zero overruns the array.
  An offset printed with \<open>%zu\<close> is its value as an unsigned number.

  That the server reads such a text back with the arguments it was printed from is shown in \<open>Wire\<close>.
\<close>

definition write_text :: "'w host \<Rightarrow> string \<Rightarrow> (unit, 'w) lib" where
  "write_text H req =
     (if CAPIO_REQ_MAX_SIZE \<le> length req then failM OutOfBounds else tryWorld (h_request H req))"

definition read_response :: "'w host \<Rightarrow> (off64, 'w) lib" where
  "read_response H = bindM (getsM c_tid) (\<lambda>tid. runWorld (h_response H tid))"

definition access_request :: "'w host \<Rightarrow> path \<Rightarrow> int \<Rightarrow> (off64, 'w) lib" where
  "access_request H p tid =
     thenM (write_text H (request_text CAPIO_REQUEST_ACCESS [IntA tid, StrA p])) (read_response H)"

text \<open>The format of this request has two blanks after the code.\<close>

definition clone_request :: "'w host \<Rightarrow> int \<Rightarrow> int \<Rightarrow> (unit, 'w) lib" where
  "clone_request H parent_tid child_tid =
     write_text H (show_pad4 CAPIO_REQUEST_CLONE @ '' '' @ show_args [IntA parent_tid, IntA child_tid])"

definition close_request :: "'w host \<Rightarrow> int \<Rightarrow> int \<Rightarrow> (unit, 'w) lib" where
  "close_request H fd tid =
     write_text H (request_text CAPIO_REQUEST_CLOSE [IntA tid, IntA fd])"

definition rename_request :: "'w host \<Rightarrow> int \<Rightarrow> path \<Rightarrow> path \<Rightarrow> (off64, 'w) lib" where
  "rename_request H tid old_path newpath =
     thenM (write_text H (request_text CAPIO_REQUEST_RENAME [StrA old_path, StrA newpath, IntA tid])) (read_response H)"

definition create_request :: "'w host \<Rightarrow> int \<Rightarrow> path \<Rightarrow> int \<Rightarrow> (off64, 'w) lib" where
  "create_request H fd p tid =
     thenM (write_text H (request_text CAPIO_REQUEST_CREATE [IntA tid, IntA fd, StrA p])) (read_response H)"

definition create_exclusive_request :: "'w host \<Rightarrow> int \<Rightarrow> path \<Rightarrow> int \<Rightarrow> (off64, 'w) lib" where
  "create_exclusive_request H fd p tid =
     thenM (write_text H (request_text CAPIO_REQUEST_CREATE_EXCLUSIVE [IntA tid, IntA fd, StrA p])) (read_response H)"

definition dup_request :: "'w host \<Rightarrow> int \<Rightarrow> int \<Rightarrow> int \<Rightarrow> (unit, 'w) lib" where
  "dup_request H old_fd new_fd tid =
     write_text H (request_text CAPIO_REQUEST_DUP [IntA tid, IntA old_fd, IntA new_fd])"

definition exit_group_request :: "'w host \<Rightarrow> int \<Rightarrow> (unit, 'w) lib" where
  "exit_group_request H tid =
     write_text H (request_text CAPIO_REQUEST_EXIT_GROUP [IntA tid])"

definition getdents_request :: "'w host \<Rightarrow> int \<Rightarrow> off64 \<Rightarrow> bool \<Rightarrow> int \<Rightarrow> (off64, 'w) lib" where
  "getdents_request H fd count is64bit tid =
     thenM (write_text H (request_text (if is64bit then CAPIO_REQUEST_GETDENTS64 else CAPIO_REQUEST_GETDENTS) [IntA tid, IntA fd, IntA count])) (read_response H)"

definition handshake_anonymous_request :: "'w host \<Rightarrow> int \<Rightarrow> int \<Rightarrow> (unit, 'w) lib" where
  "handshake_anonymous_request H tid pid =
     write_text H (request_text CAPIO_REQUEST_HANDSHAKE_ANONYMOUS [IntA tid, IntA pid])"

definition handshake_named_request :: "'w host \<Rightarrow> int \<Rightarrow> int \<Rightarrow> string \<Rightarrow> bool \<Rightarrow> (unit, 'w) lib" where
  "handshake_named_request H tid pid app_name wait =
     thenM (write_text H (request_text CAPIO_REQUEST_HANDSHAKE_NAMED
              [IntA tid, IntA pid, StrA app_name, IntA (if wait then 1 else 0)]))
       (whenM wait (bindM (read_response H) (\<lambda>_. returnM ())))"

definition fstat_request :: "'w host \<Rightarrow> int \<Rightarrow> int \<Rightarrow> (off64 \<times> off64, 'w) lib" where
  "fstat_request H fd tid =
     thenM (write_text H (request_text CAPIO_REQUEST_FSTAT [IntA tid, IntA fd]))
    (bindM (read_response H) (\<lambda>file_size. bindM (read_response H) (\<lambda>is_dir.
       returnM (file_size, is_dir))))"

definition mkdir_request :: "'w host \<Rightarrow> path \<Rightarrow> int \<Rightarrow> (off64, 'w) lib" where
  "mkdir_request H p tid =
     thenM (write_text H (request_text CAPIO_REQUEST_MKDIR [IntA tid, StrA p])) (read_response H)"

definition open_request :: "'w host \<Rightarrow> int \<Rightarrow> path \<Rightarrow> int \<Rightarrow> (off64, 'w) lib" where
  "open_request H fd p tid =
     thenM (write_text H (request_text CAPIO_REQUEST_OPEN [IntA tid, IntA fd, StrA p])) (read_response H)"

definition copy_file_range_request :: "'w host \<Rightarrow> int \<Rightarrow> int \<Rightarrow> off64 \<Rightarrow> off64 \<Rightarrow> off64 \<Rightarrow> int \<Rightarrow> (off64, 'w) lib" where
  "copy_file_range_request H fd_in fd_out offset_in offset_out count tid =
     thenM (write_text H (request_text CAPIO_REQUEST_COPY_FILE_RANGE [IntA tid, IntA fd_in, IntA fd_out, IntA offset_in, IntA offset_out, IntA count])) (read_response H)"

definition read_request :: "'w host \<Rightarrow> int \<Rightarrow> off64 \<Rightarrow> int \<Rightarrow> (off64, 'w) lib" where
  "read_request H fd count tid =
     thenM (write_text H (request_text CAPIO_REQUEST_READ [IntA tid, IntA fd, IntA count])) (read_response H)"

definition seek_data_request :: "'w host \<Rightarrow> int \<Rightarrow> off64 \<Rightarrow> int \<Rightarrow> (off64, 'w) lib" where
  "seek_data_request H fd offset tid =
     thenM (write_text H (request_text CAPIO_REQUEST_SEEK_DATA [IntA tid, IntA fd, IntA (to_u64 offset)])) (read_response H)"

definition seek_end_request :: "'w host \<Rightarrow> int \<Rightarrow> int \<Rightarrow> (off64, 'w) lib" where
  "seek_end_request H fd tid =
     thenM (write_text H (request_text CAPIO_REQUEST_SEEK_END [IntA tid, IntA fd]))
    (bindM (read_response H) (\<lambda>res. bindM (read_response H) (\<lambda>is_dir. returnM res)))"

definition seek_hole_request :: "'w host \<Rightarrow> int \<Rightarrow> off64 \<Rightarrow> int \<Rightarrow> (off64, 'w) lib" where
  "seek_hole_request H fd offset tid =
     thenM (write_text H (request_text CAPIO_REQUEST_SEEK_HOLE [IntA tid, IntA fd, IntA (to_u64 offset)])) (read_response H)"

definition seek_request :: "'w host \<Rightarrow> int \<Rightarrow> off64 \<Rightarrow> int \<Rightarrow> (off64, 'w) lib" where
  "seek_request H fd offset tid =
     thenM (write_text H (request_text CAPIO_REQUEST_SEEK [IntA tid, IntA fd, IntA (to_u64 offset)])) (read_response H)"

definition stat_request :: "'w host \<Rightarrow> path \<Rightarrow> int \<Rightarrow> (off64 \<times> off64, 'w) lib" where
  "stat_request H p tid =
     thenM (write_text H (request_text CAPIO_REQUEST_STAT [IntA tid, StrA p]))
    (bindM (read_response H) (\<lambda>file_size.
       if file_size = CAPIO_POSIX_SYSCALL_REQUEST_SKIP then returnM (CAPIO_POSIX_SYSCALL_REQUEST_SKIP, - 1)
       else bindM (read_response H) (\<lambda>is_dir. returnM (file_size, is_dir))))"

definition unlink_request :: "'w host \<Rightarrow> path \<Rightarrow> int \<Rightarrow> (off64, 'w) lib" where
  "unlink_request H p tid =
     thenM (write_text H (request_text CAPIO_REQUEST_UNLINK [IntA tid, StrA p])) (read_response H)"

definition rmdir_request :: "'w host \<Rightarrow> path \<Rightarrow> int \<Rightarrow> (off64, 'w) lib" where
  "rmdir_request H dir_path tid =
     thenM (write_text H (request_text CAPIO_REQUEST_RMDIR [StrA dir_path, IntA tid])) (read_response H)"

definition write_request :: "'w host \<Rightarrow> int \<Rightarrow> off64 \<Rightarrow> int \<Rightarrow> (unit, 'w) lib" where
  "write_request H fd count tid =
     write_text H (request_text CAPIO_REQUEST_WRITE [IntA tid, IntA fd, IntA count])"

end
