(* ===== verification/Client_Manager.thy ===== *)
theory Client_Manager
  imports Server_State
begin

text \<open>
  \<open>ClientManager\<close> (\<open>client-manager/client_manager.hpp\<close>, \<open>src/client_manager.cpp\<close>): the
  clients registered with the server, their response and data buffers, and the files they
  produce.

  A response buffer is the list of the values not read yet; a data buffer is the queue of
  slots from the client and the list of messages to it.
\<close>

definition getAppName :: "int \<Rightarrow> string srv" where
  "getAppName tid =
     getsM (\<lambda>s. case s_app_names s tid of Some n \<Rightarrow> n | None \<Rightarrow> CAPIO_DEFAULT_APP_NAME)"

definition registerClient :: "env \<Rightarrow> int \<Rightarrow> string \<Rightarrow> bool \<Rightarrow> unit srv" where
  "registerClient E tid app_name wait =
     thenM
       (modifyM (\<lambda>s. s\<lparr>
          s_data_buffers := map_emplace tid (sq_new (rc_cache_lines E) (rc_cache_line_size E), []) (s_data_buffers s),
          s_app_names := map_emplace tid app_name (s_app_names s),
          s_by_producer := map_emplace tid [] (s_by_producer s),
          s_by_app := map_emplace app_name [] (s_by_app s),
          s_responses := map_emplace tid [] (s_responses s)\<rparr>))
       (whenM wait (spawn (Wait_cloned_child tid)))"

definition unlockClonedChild :: "int \<Rightarrow> unit srv" where
  "unlockClonedChild tid = modifyM (\<lambda>s. s\<lparr>s_allowed := s_allowed s @ [tid]\<rparr>)"

definition removeClient :: "int \<Rightarrow> unit srv" where
  "removeClient tid =
     thenM (modifyM (\<lambda>s. s\<lparr>s_data_buffers := (s_data_buffers s)(tid := None)\<rparr>))
       (bindM (getAppName tid) (\<lambda>app_name.
          modifyM (\<lambda>s. s\<lparr>s_by_producer := (s_by_producer s)(tid := None),
                         s_by_app := (s_by_app s)(app_name := None),
                         s_responses := (s_responses s)(tid := None)\<rparr>)))"

definition replyToClient :: "int \<Rightarrow> off64 \<Rightarrow> unit srv" where
  "replyToClient tid offset =
     bindM (getsM (\<lambda>s. s_responses s tid)) (\<lambda>r.
       case r of
         None \<Rightarrow> failM (Throws ''std::out_of_range'')
       | Some q \<Rightarrow>
           if CAPIO_REQ_BUFF_CNT \<le> length q then failM Blocked
           else modifyM (\<lambda>s. s\<lparr>s_responses := (s_responses s)(tid \<mapsto> q @ [offset])\<rparr>))"

text \<open>
  The overload that also sends \<open>count\<close> bytes at \<open>buf + offset\<close>: \<open>buf\<close> gives the bytes of a
  range of the buffer passed by the caller.
\<close>

definition replyToClient_data :: "int \<Rightarrow> off64 \<Rightarrow> (off64 \<Rightarrow> off64 \<Rightarrow> fault + cell list) \<Rightarrow> off64 \<Rightarrow> unit srv" where
  "replyToClient_data tid offset buf count =
     bindM (getsM (\<lambda>s. s_data_buffers s tid)) (\<lambda>r.
       case r of
         None \<Rightarrow> failM (Throws ''std::runtime_error'')
       | Some (c2s, s2c) \<Rightarrow>
           thenM (replyToClient tid (offset + count))
             (bindM (liftM (buf offset count)) (\<lambda>xs.
                modifyM (\<lambda>s. s\<lparr>s_data_buffers := (s_data_buffers s)(tid \<mapsto> (c2s, s2c @ [xs]))\<rparr>))))"

definition registerProducedFile :: "int \<Rightarrow> path \<Rightarrow> unit srv" where
  "registerProducedFile tid p =
     bindM (getsM (\<lambda>s. s_by_producer s tid)) (\<lambda>r.
       case r of
         None \<Rightarrow> returnM ()
       | Some ps \<Rightarrow>
           thenM (modifyM (\<lambda>s. s\<lparr>s_by_producer := (s_by_producer s)(tid \<mapsto> List.insert p ps)\<rparr>))
             (bindM (getAppName tid) (\<lambda>app_name.
                bindM (getsM (\<lambda>s. s_by_app s app_name)) (\<lambda>r'.
                  case r' of
                    None \<Rightarrow> returnM ()
                  | Some qs \<Rightarrow> modifyM (\<lambda>s. s\<lparr>s_by_app := (s_by_app s)(app_name \<mapsto> List.insert p qs)\<rparr>)))))"

definition removeProducedFile :: "int \<Rightarrow> path \<Rightarrow> unit srv" where
  "removeProducedFile tid p =
     thenM (modifyM (\<lambda>s. s\<lparr>s_by_producer :=
         (case s_by_producer s tid of
            None \<Rightarrow> s_by_producer s | Some ps \<Rightarrow> (s_by_producer s)(tid \<mapsto> removeAll p ps))\<rparr>))
       (bindM (getAppName tid) (\<lambda>app_name.
          modifyM (\<lambda>s. s\<lparr>s_by_app :=
            (case s_by_app s app_name of
               None \<Rightarrow> s_by_app s | Some qs \<Rightarrow> (s_by_app s)(app_name \<mapsto> removeAll p qs))\<rparr>)))"

definition isProducer :: "int \<Rightarrow> path \<Rightarrow> bool srv" where
  "isProducer tid p =
     bindM (getAppName tid) (\<lambda>app_name.
       getsM (\<lambda>s. (case s_by_producer s tid of None \<Rightarrow> False | Some ps \<Rightarrow> p \<in> set ps) \<or>
                  (case s_by_app s app_name of None \<Rightarrow> False | Some qs \<Rightarrow> p \<in> set qs)))"

text \<open>\<open>operator[]\<close> creates the entry when there is none.\<close>

definition getProducedFiles :: "int \<Rightarrow> path list srv" where
  "getProducedFiles tid =
     thenM (modifyM (\<lambda>s. s\<lparr>s_by_producer := map_emplace tid [] (s_by_producer s)\<rparr>))
       (getsM (\<lambda>s. the (s_by_producer s tid)))"

definition getClientToServerDataBuffers :: "int \<Rightarrow> slot_queue srv" where
  "getClientToServerDataBuffers tid =
     bindM (getsM (\<lambda>s. s_data_buffers s tid)) (\<lambda>r.
       case r of None \<Rightarrow> failM (Throws ''std::out_of_range'') | Some (c2s, _) \<Rightarrow> returnM c2s)"

text \<open>The queue after slots were taken from it, since the caller works on a reference.\<close>

definition set_ClientToServer :: "int \<Rightarrow> slot_queue \<Rightarrow> unit srv" where
  "set_ClientToServer tid q =
     modifyM (\<lambda>s. s\<lparr>s_data_buffers :=
       (case s_data_buffers s tid of
          None \<Rightarrow> s_data_buffers s | Some (_, s2c) \<Rightarrow> (s_data_buffers s)(tid \<mapsto> (q, s2c)))\<rparr>)"

text \<open>The body of the thread that \<open>registerClient\<close> starts for a cloned child.\<close>

definition cloned_child_ready :: "int \<Rightarrow> server \<Rightarrow> bool" where
  "cloned_child_ready tid s \<longleftrightarrow> tid \<in> set (s_allowed s)"

definition run_cloned_child :: "int \<Rightarrow> unit srv" where
  "run_cloned_child tid =
     thenM (replyToClient tid 1) (modifyM (\<lambda>s. s\<lparr>s_allowed := remove1 tid (s_allowed s)\<rparr>))"

text \<open>The destructor: the maps of the object and with them all queues end.\<close>

definition ClientManager_destroy :: "unit srv" where
  "ClientManager_destroy =
     modifyM (\<lambda>s. s\<lparr>s_responses := Map.empty, s_data_buffers := Map.empty, s_app_names := Map.empty,
       s_by_producer := Map.empty, s_by_app := Map.empty, s_allowed := []\<rparr>)"

end
