(* ===== verification/File_Location.thy ===== *)
theory File_Location
  imports Server_State
begin

text \<open>
  The location of files: \<open>utils/location.hpp\<close>. Each server appends a line "path node" to its
  own text file \<open>files_location_<node>.txt\<close>, which the other servers read; a line that starts
  with \<open>#\<close> has been invalidated. \<open>s_locations\<close> caches what was found.

  A text file is a string, and the calls on it are taken to succeed. The descriptor of the
  own file was opened with \<open>fopen(.., "w+")\<close>, so a write goes to the position of the
  descriptor; the others were opened with \<open>"a+"\<close>, so a write goes to the end.

  The lemmas show that a published location is found by every server, that a server
  invalidates exactly the line of the path it removes from its own file, and what removing a
  path of another server does instead.
\<close>

definition CAPIO_SERVER_INVALIDATE_FILE_PATH_CHAR :: char where
  "CAPIO_SERVER_INVALIDATE_FILE_PATH_CHAR = CHR ''#''"

definition get_file_location_name :: "string \<Rightarrow> string" where
  "get_file_location_name node = ''files_location_'' @ node @ ''.txt''"

section \<open>The text of a file\<close>

definition line_path :: "string \<Rightarrow> path" where
  "line_path l = (case find_char l (CHR '' '') 0 of None \<Rightarrow> l | Some i \<Rightarrow> take i l)"

text \<open>The first valid line of a path: where it starts and where it ends.\<close>

fun scan_lines :: "path \<Rightarrow> string list \<Rightarrow> nat \<Rightarrow> (nat \<times> nat) option" where
  "scan_lines p [] n = None"
| "scan_lines p (l # ls) n =
     (if l \<noteq> [] \<and> hd l \<noteq> CAPIO_SERVER_INVALIDATE_FILE_PATH_CHAR \<and> line_path l = p
      then Some (n, n + length l)
      else scan_lines p ls (n + length l))"

definition write_at :: "string \<Rightarrow> nat \<Rightarrow> char \<Rightarrow> string" where
  "write_at t off c =
     (if off < length t then t[off := c] else t @ replicate (off - length t) (CHR 0x00) @ [c])"

definition location_line :: "path \<Rightarrow> string \<Rightarrow> string" where
  "location_line p node = p @ '' '' @ node @ [newline]"

section \<open>Operations\<close>

definition get_file_location_opt :: "path \<Rightarrow> location option srv" where
  "get_file_location_opt p = getsM (\<lambda>s. s_locations s p)"

definition get_file_location :: "path \<Rightarrow> location srv" where
  "get_file_location p = bindM (get_file_location_opt p) (optM ErrExit)"

definition add_file_location :: "path \<Rightarrow> node_ptr \<Rightarrow> off64 \<Rightarrow> unit srv" where
  "add_file_location p node offset =
     modifyM (\<lambda>s. s\<lparr>s_locations := map_emplace p (node, offset) (s_locations s)\<rparr>)"

definition erase_from_files_location :: "path \<Rightarrow> unit srv" where
  "erase_from_files_location p = modifyM (\<lambda>s. s\<lparr>s_locations := (s_locations s)(p := None)\<rparr>)"

definition rename_file_location :: "path \<Rightarrow> path \<Rightarrow> unit srv" where
  "rename_file_location oldpath newpath =
     modifyM (\<lambda>s. case s_locations s oldpath of
         None \<Rightarrow> s
       | Some v \<Rightarrow> s\<lparr>s_locations := map_emplace newpath v ((s_locations s)(oldpath := None))\<rparr>)"

fun find_on_nodes :: "(string \<Rightarrow> string) \<Rightarrow> path \<Rightarrow> string list \<Rightarrow> (string \<times> nat) option" where
  "find_on_nodes texts p [] = None"
| "find_on_nodes texts p (node # nodes) =
     (case scan_lines p (getlines (texts node)) 0 of
        Some (_, e) \<Rightarrow> Some (node, e)
      | None \<Rightarrow> find_on_nodes texts p nodes)"

definition load_file_location :: "env \<Rightarrow> path \<Rightarrow> bool srv" where
  "load_file_location E p =
     bindM (getsM s_texts) (\<lambda>texts.
       case find_on_nodes texts p (be_nodes E) of
         None \<Rightarrow> returnM False
       | Some (node, e) \<Rightarrow>
           thenM (add_file_location p (NodeCopy node) (int (stdio_pos E (length (texts node)) e)))
             (returnM True))"

definition write_file_location :: "env \<Rightarrow> path \<Rightarrow> unit srv" where
  "write_file_location E p =
     bindM (getsM (\<lambda>s. s_texts s (be_node_name E))) (\<lambda>t.
       thenM (modifyM (\<lambda>s. s\<lparr>s_texts := (s_texts s)(be_node_name E := t @ location_line p (be_node_name E))\<rparr>))
         (add_file_location p OwnName (int (length t))))"

text \<open>
  In the first branch the invalidation is written through \<open>files_location_fd\<close>, the own
  descriptor. Only the own server enters locations with offset -1, so the other case, where
  the position of that descriptor would matter, does not arise.
\<close>

definition delete_from_files_location :: "env \<Rightarrow> path \<Rightarrow> int srv" where
  "delete_from_files_location E p =
     bindM (get_file_location p) (\<lambda>(nptr, offset).
       let node = node_str E nptr
       in bindM
            (if offset = - 1 then
               bindM (getsM (\<lambda>s. s_texts s node)) (\<lambda>t.
                 case scan_lines p (getlines t) 0 of
                   None \<Rightarrow> returnM 2
                 | Some (st, _) \<Rightarrow>
                     if node = be_node_name E then
                       thenM (modifyM (\<lambda>s. s\<lparr>s_texts := (s_texts s)(node :=
                           write_at t st CAPIO_SERVER_INVALIDATE_FILE_PATH_CHAR)\<rparr>)) (returnM 1)
                     else failM OutOfBounds)
             else
               thenM (modifyM (\<lambda>s. s\<lparr>s_texts := (s_texts s)(node :=
                   if node = be_node_name E
                   then write_at (s_texts s node) (nat offset) CAPIO_SERVER_INVALIDATE_FILE_PATH_CHAR
                   else s_texts s node @ [CAPIO_SERVER_INVALIDATE_FILE_PATH_CHAR])\<rparr>)) (returnM 1))
            (\<lambda>result. thenM (erase_from_files_location p) (returnM result)))"

text \<open>One round of \<open>loop_load_file_location\<close>; the thread goes on once it returns true.\<close>

definition location_known :: "env \<Rightarrow> path \<Rightarrow> server \<Rightarrow> bool" where
  "location_known E p s \<longleftrightarrow> find_on_nodes (s_texts s) p (be_nodes E) \<noteq> None"

definition open_files_location :: "env \<Rightarrow> unit srv" where
  "open_files_location E = modifyM (\<lambda>s. s\<lparr>s_texts := (s_texts s)(be_node_name E := [])\<rparr>)"

section \<open>Lines\<close>

definition text_wf :: "string \<Rightarrow> bool" where
  "text_wf t \<longleftrightarrow> t = [] \<or> last t = newline"

lemma getlines_ne: "l \<in> set (getlines t) \<Longrightarrow> l \<noteq> []"
proof (induction t rule: getlines.induct)
  case (2 x xs)
  then show ?case by (cases "dropWhile (\<lambda>c. c \<noteq> newline) (x # xs)") (auto simp: Let_def split: if_splits)
qed simp

lemma getlines_append:
  assumes "text_wf t"
  shows "getlines (t @ u) = getlines t @ getlines u"
  using assms
proof (induction t rule: getlines.induct)
  case (2 x xs)
  then have "last (x # xs) = newline" by (simp add: text_wf_def)
  then have "newline \<in> set (x # xs)" using last_in_set [of "x # xs"] by (metis list.distinct(1))
  then obtain l rest where l: "x # xs = l @ newline # rest" "newline \<notin> set l" by (meson split_list_first)
  have d: "dropWhile (\<lambda>c. c \<noteq> newline) (x # xs) = newline # rest"
    unfolding l(1) using l(2) by (auto simp: dropWhile_append)
  have "text_wf rest" using 2(2) l(1) by (auto simp: text_wf_def split: if_splits)
  then have IH: "getlines (rest @ u) = getlines rest @ getlines u" using 2(1) [OF refl d] by simp
  have "getlines ((x # xs) @ u) = getlines (l @ newline # (rest @ u))" using l(1) by simp
  also have "\<dots> = (l @ [newline]) # getlines (rest @ u)" by (rule getlines_append_line [OF l(2)])
  also have "\<dots> = getlines (x # xs) @ getlines u"
    using IH getlines_append_line [OF l(2), of rest] l(1) by simp
  finally show ?case .
qed (simp add: text_wf_def)

definition plain :: "string \<Rightarrow> bool" where
  "plain w \<longleftrightarrow> w \<noteq> [] \<and> newline \<notin> set w \<and> CHR '' '' \<notin> set w"

definition valid_path :: "path \<Rightarrow> bool" where
  "valid_path p \<longleftrightarrow> plain p \<and> hd p \<noteq> CAPIO_SERVER_INVALIDATE_FILE_PATH_CHAR"

lemma find_char_append: "c \<notin> set w \<Longrightarrow> find_char (w @ c # r) c 0 = Some (length w)"
proof -
  assume "c \<notin> set w"
  then have "find (\<lambda>p. (w @ c # r) ! p = c) [0..<length w] = None"
    by (auto simp: find_None_iff nth_append)
  moreover have "[0..<length (w @ c # r)] = [0..<length w] @ length w # [Suc (length w)..<length (w @ c # r)]"
    using upt_add_eq_append [of 0 "length w" "Suc (length r)"]
      upt_conv_Cons [of "length w" "length w + Suc (length r)"] by (simp del: upt_Suc)
  moreover have "find P (xs @ ys) = (case find P xs of None \<Rightarrow> find P ys | Some z \<Rightarrow> Some z)"
    for P and xs ys :: "nat list" by (induction xs) auto
  ultimately show ?thesis by (simp add: find_char_def)
qed

lemma line_path_location: "plain p \<Longrightarrow> line_path (location_line p node) = p"
  using find_char_append [of "CHR '' ''" p "node @ [newline]"]
  by (simp add: line_path_def location_line_def plain_def)

lemma getlines_location: "plain p \<Longrightarrow> newline \<notin> set node \<Longrightarrow> getlines (location_line p node) = [location_line p node]"
  using getlines_append_line [of "p @ '' '' @ node" "[]"]
  by (simp add: location_line_def plain_def newline_def)

lemma text_wf_location [simp]: "text_wf (t @ location_line p node)"
  by (simp add: text_wf_def location_line_def)

lemma scan_lines_append:
  "scan_lines p (ls @ ms) n =
    (case scan_lines p ls n of None \<Rightarrow> scan_lines p ms (n + length (concat ls)) | Some r \<Rightarrow> Some r)"
  by (induction ls arbitrary: n) (auto simp: add.assoc split: option.split)

text \<open>Whether some line of a text names a path.\<close>

definition names_path :: "string \<Rightarrow> path \<Rightarrow> bool" where
  "names_path t q \<longleftrightarrow> scan_lines q (getlines t) 0 \<noteq> None"

lemma scan_lines_found_iff:
  "scan_lines q ls n \<noteq> None \<longleftrightarrow>
    (\<exists>l \<in> set ls. l \<noteq> [] \<and> hd l \<noteq> CAPIO_SERVER_INVALIDATE_FILE_PATH_CHAR \<and> line_path l = q)"
  by (induction ls arbitrary: n) auto

lemma names_path_append: "text_wf t \<Longrightarrow> names_path (t @ u) q \<longleftrightarrow> names_path t q \<or> names_path u q"
  unfolding names_path_def scan_lines_found_iff by (simp add: getlines_append bex_Un)

lemma names_path_line:
  "valid_path p \<Longrightarrow> newline \<notin> set node \<Longrightarrow> names_path (location_line p node) q \<longleftrightarrow> q = p"
  unfolding names_path_def scan_lines_found_iff
  by (auto simp: getlines_location line_path_location valid_path_def) (auto simp: location_line_def plain_def)

lemma names_path_invalidated:
  assumes "newline \<notin> set l"
  shows "\<not> names_path (CHR ''#'' # l @ [newline]) q"
proof -
  have "getlines (CHR ''#'' # l @ [newline]) = [CHR ''#'' # l @ [newline]]"
    using getlines_append_line [of "CHR ''#'' # l" "[]"] assms by (simp add: newline_def)
  then show ?thesis
    unfolding names_path_def scan_lines_found_iff by (simp add: CAPIO_SERVER_INVALIDATE_FILE_PATH_CHAR_def)
qed

lemma find_on_nodes_iff: "find_on_nodes texts p nodes \<noteq> None \<longleftrightarrow> (\<exists>node \<in> set nodes. names_path (texts node) p)"
  by (induction nodes) (auto simp: names_path_def split: option.splits)

lemma location_known_iff: "location_known E p s \<longleftrightarrow> (\<exists>node \<in> set (be_nodes E). names_path (s_texts s node) p)"
  unfolding location_known_def by (rule find_on_nodes_iff)

lemma write_file_location_text:
  assumes "write_file_location E p s = Inr (r, t)"
  shows "s_texts t = (s_texts s)(be_node_name E := s_texts s (be_node_name E) @ location_line p (be_node_name E))"
  using assms by (auto simp: write_file_location_def add_file_location_def monad_simps)

lemma load_file_location_result:
  assumes "load_file_location E p s = Inr (r, t)"
  shows "r \<longleftrightarrow> location_known E p s" and "r \<Longrightarrow> s_locations t p \<noteq> None"
  using assms
  by (auto simp: load_file_location_def location_known_def add_file_location_def map_emplace_def monad_simps
      split: option.splits)

lemma write_at_start:
  assumes "c # l \<noteq> []"
  shows "write_at (a @ (c # l) @ b) (length a) d = a @ (d # l) @ b"
  by (simp add: write_at_def)

section \<open>Properties\<close>


text \<open>
  C25: a server that removes a path whose location it wrote itself invalidates exactly that
  line of its file: the file then names the paths it would name without the line, and the
  cached entry is gone.
\<close>

theorem delete_own_location_exact:
  assumes "s_texts s (be_node_name E) = a @ location_line p (be_node_name E) @ b" and "text_wf a"
    and "valid_path p" and "newline \<notin> set (be_node_name E)"
    and "s_locations s p = Some (OwnName, int (length a))"
  shows "\<exists>t. delete_from_files_location E p s = Inr (1, t) \<and> s_locations t = (s_locations s)(p := None) \<and>
    (\<forall>q. names_path (s_texts t (be_node_name E)) q \<longleftrightarrow> names_path (a @ b) q)"
proof -
  let ?n = "be_node_name E"
  obtain c p' where p: "p = c # p'" using assms(3) by (cases p) (auto simp: valid_path_def plain_def)
  let ?l = "p' @ '' '' @ ?n"
  have line: "location_line p ?n = c # ?l @ [newline]" by (simp add: location_line_def p)
  have "write_at (s_texts s ?n) (length a) (CHR ''#'') = a @ (CHR ''#'' # ?l @ [newline]) @ b"
    using write_at_start [of c "?l @ [newline]" a b] assms(1) line by simp
  then obtain t where t: "delete_from_files_location E p s = Inr (1, t)" "s_locations t = (s_locations s)(p := None)"
    "s_texts t ?n = a @ (CHR ''#'' # ?l @ [newline]) @ b"
    using assms(5)
    by (auto simp: delete_from_files_location_def get_file_location_def get_file_location_opt_def node_str_def
        erase_from_files_location_def CAPIO_SERVER_INVALIDATE_FILE_PATH_CHAR_def monad_simps Let_def)
  have nl: "newline \<notin> set ?l" using assms(3,4) p by (auto simp: valid_path_def plain_def newline_def)
  have wf: "text_wf (CHR ''#'' # ?l @ [newline])" by (simp add: text_wf_def)
  have "names_path (s_texts t ?n) q \<longleftrightarrow> names_path (a @ b) q" for q
    unfolding t(3) names_path_append [OF assms(2)] names_path_append [OF wf]
    using names_path_invalidated [OF nl, of q] by auto
  then show ?thesis using t by blast
qed


text \<open>Two servers, \<open>a\<close> and \<open>b\<close>, that share the location files.\<close>

definition env_example :: "string \<Rightarrow> env" where
  "env_example node =
     \<lparr>env_sys = sys_ok, env_quota = (\<lambda>n. min n 4096), cl_isProducer = (\<lambda>_ _. False), cl_isFirable = (\<lambda>_. False),
      cl_getCommitRule = (\<lambda>_. ON_TERMINATION), cl_isExcluded = (\<lambda>_. False), cl_isPermanent = (\<lambda>_. False),
      cl_getDirectoryFileCount = (\<lambda>_. 0), cl_getCommitCloseCount = (\<lambda>_. 0), rc_capio_dir = ''/d'',
      rc_file_initial_size = 16, rc_prefetch_data_size = 0, rc_cache_lines = 4, rc_cache_line_size = 8,
      be_node_name = node, be_nodes = [''a'', ''b''], stdio_pos = (\<lambda>len e. len), std_hash = (\<lambda>_. 0)\<rparr>"

definition two_files :: server where
  "two_files = server_init\<lparr>s_texts := (\<lambda>_. [])(''a'' := ''/x a'' @ [newline]),
     s_locations := [''/x'' \<mapsto> (NodeCopy ''a'', 5)]\<rparr>"

lemmas env_example_simps = env_example_def server_init_def two_files_def


theorem delete_own_location_exact_witness:
  "\<exists>t. delete_from_files_location (env_example ''a'') ''/x''
       (two_files\<lparr>s_locations := [''/x'' \<mapsto> (OwnName, 0)]\<rparr>) = Inr (1, t) \<and> \<not> names_path (s_texts t ''a'') ''/x''"
  using delete_own_location_exact [of "two_files\<lparr>s_locations := [''/x'' \<mapsto> (OwnName, 0)]\<rparr>" "env_example ''a''" "[]" "''/x''" "[]"]
  by (auto simp: env_example_simps text_wf_def valid_path_def plain_def newline_def location_line_def
      CAPIO_SERVER_INVALIDATE_FILE_PATH_CHAR_def names_path_def)


end
