(* ===== verification/Storage_Manager.thy ===== *)
theory Storage_Manager
  imports Client_Manager File_Location
begin

text \<open>
  \<open>StorageManager\<close> (\<open>storage/manager.hpp\<close>, \<open>src/storage_manager.cpp\<close>): the files by path and
  the open descriptors of each thread, and the directory entries, which are
  \<open>linux_dirent64\<close> structures (\<open>common/dirent.hpp\<close>) in the buffer of the directory's file.

  \<open>operator[]\<close> on a C++ map creates a missing entry; \<open>fd_entry\<close> and \<open>storage_index\<close> model it.

  \<open>srv_wf\<close> is the invariant of the stores: descriptors and paths point to files that exist,
  files are well formed, descriptors have an offset. The lemmas show that every operation
  keeps it; \<open>rename\<close> and \<open>remove\<close> need the conditions stated there.
\<close>

section \<open>Directory entries\<close>

definition sizeof_linux_dirent64 :: off64 where
  "sizeof_linux_dirent64 = 280"

definition NAME_ROOM :: nat where
  "NAME_ROOM = 261"

definition DT_DIR :: byte where
  "DT_DIR = 4"

definition DT_REG :: byte where
  "DT_REG = 8"

definition le_bytes :: "nat \<Rightarrow> 64 word \<Rightarrow> byte list" where
  "le_bytes n w = map (\<lambda>i. ucast (drop_bit (8 * i) w)) [0..<n]"

definition string_bytes :: "string \<Rightarrow> byte list" where
  "string_bytes s = map of_char s"

text \<open>
  The bytes of a \<open>linux_dirent64\<close> on the stack: the fields that were set, the name with its
  terminator, and the indeterminate rest. A longer name runs over the end of the structure.
\<close>

definition dirent_bytes :: "64 word \<Rightarrow> off64 \<Rightarrow> byte \<Rightarrow> string \<Rightarrow> fault + cell list" where
  "dirent_bytes d_ino d_off d_type d_name =
     (if NAME_ROOM < length d_name + 1 then Inl OutOfBounds
      else Inr (map Some (le_bytes 8 d_ino @ le_bytes 8 (word_of_int d_off) @
                  le_bytes 2 (word_of_int sizeof_linux_dirent64) @ [d_type] @ string_bytes d_name @ [0]) @
                replicate (NAME_ROOM - (length d_name + 1)) None))"

lemma length_le_bytes [simp]: "length (le_bytes n w) = n"
  by (simp add: le_bytes_def)

lemma length_dirent_bytes: "dirent_bytes i off t n = Inr xs \<Longrightarrow> int (length xs) = sizeof_linux_dirent64"
  by (auto simp: dirent_bytes_def sizeof_linux_dirent64_def NAME_ROOM_def string_bytes_def split: if_splits)

datatype manager_dir_entry_type = REGULAR_ENTRY | DOT_ENTRY | DOT_DOT_ENTRY

section \<open>Lookup\<close>

definition storage_find :: "path \<Rightarrow> server \<Rightarrow> nat option" where
  "storage_find p s = map_of (s_storage s) p"

definition tryGet :: "path \<Rightarrow> nat option srv" where
  "tryGet p = getsM (storage_find p)"

definition get_file :: "path \<Rightarrow> nat srv" where
  "get_file p = bindM (tryGet p) (optM ErrExit)"

definition new_file :: "path \<Rightarrow> capio_file \<Rightarrow> nat srv" where
  "new_file p f =
     bindM (getsM s_next_file) (\<lambda>i.
       thenM (modifyM (\<lambda>s. s\<lparr>s_files := (s_files s)(i \<mapsto> f), s_next_file := Suc i,
                             s_storage := s_storage s @ [(p, i)]\<rparr>)) (returnM i))"

definition storage_index :: "path \<Rightarrow> nat srv" where
  "storage_index p =
     bindM (tryGet p) (\<lambda>r. case r of Some i \<Rightarrow> returnM i | None \<Rightarrow> new_file p CapioFile_default)"

definition fd_find :: "int \<Rightarrow> int \<Rightarrow> server \<Rightarrow> thread_fd option" where
  "fd_find tid fd s = map_of (s_fds s) (tid, fd)"

definition set_fd :: "int \<Rightarrow> int \<Rightarrow> thread_fd \<Rightarrow> unit srv" where
  "set_fd tid fd e = modifyM (\<lambda>s. s\<lparr>s_fds := AList.update (tid, fd) e (s_fds s)\<rparr>)"

definition fd_entry :: "int \<Rightarrow> int \<Rightarrow> thread_fd srv" where
  "fd_entry tid fd =
     bindM (getsM (fd_find tid fd)) (\<lambda>r.
       case r of
         Some e \<Rightarrow> returnM e
       | None \<Rightarrow> thenM (set_fd tid fd thread_fd_default) (returnM thread_fd_default))"

definition get_fd :: "int \<Rightarrow> int \<Rightarrow> nat srv" where
  "get_fd pid fd =
     bindM (getsM (fd_find pid fd)) (\<lambda>r.
       case r of None \<Rightarrow> failM ErrExit | Some e \<Rightarrow> optM NullDeref (t_pointer e))"

definition getPath :: "int \<Rightarrow> int \<Rightarrow> path srv" where
  "getPath tid fd = bindM (fd_entry tid fd) (\<lambda>e. returnM (t_path e))"

definition getFileDescriptors :: "int \<Rightarrow> int list srv" where
  "getFileDescriptors tid =
     getsM (\<lambda>s. map (\<lambda>(k, _). snd k) (filter (\<lambda>(k, _). fst k = tid) (s_fds s)))"

definition getFileDescriptors_all :: "(int \<times> int) list srv" where
  "getFileDescriptors_all = getsM (\<lambda>s. map fst (s_fds s))"

definition getPaths :: "path list srv" where
  "getPaths = getsM (\<lambda>s. map fst (s_storage s))"

text \<open>\<open>*_opened_fd_map[tid][fd]._offset\<close> read and written.\<close>

definition getFileOffset :: "int \<Rightarrow> int \<Rightarrow> off64 srv" where
  "getFileOffset tid fd =
     bindM (fd_entry tid fd) (\<lambda>e.
       bindM (optM NullDeref (t_offset e)) (\<lambda>i.
         bindM (getsM (\<lambda>s. s_offsets s i)) (optM Dangling)))"

definition setFileOffset :: "int \<Rightarrow> int \<Rightarrow> off64 \<Rightarrow> off64 srv" where
  "setFileOffset tid fd offset =
     bindM (fd_entry tid fd) (\<lambda>e.
       bindM (optM NullDeref (t_offset e)) (\<lambda>i.
         thenM (modifyM (\<lambda>s. s\<lparr>s_offsets := (s_offsets s)(i \<mapsto> offset)\<rparr>)) (returnM offset)))"

section \<open>Descriptors\<close>

definition addNewFdToMap :: "int \<Rightarrow> int \<Rightarrow> path \<Rightarrow> off64 \<Rightarrow> unit srv" where
  "addNewFdToMap tid fd p offset =
     bindM (storage_index p) (\<lambda>i.
       bindM (getsM s_next_offset) (\<lambda>oi.
         thenM (modifyM (\<lambda>s. s\<lparr>s_offsets := (s_offsets s)(oi \<mapsto> offset), s_next_offset := Suc oi\<rparr>))
           (set_fd tid fd \<lparr>t_pointer = Some i, t_offset = Some oi, t_path = p\<rparr>)))"

definition addNewFdToStorage :: "int \<Rightarrow> int \<Rightarrow> path \<Rightarrow> bool \<Rightarrow> unit srv" where
  "addNewFdToStorage tid fd p register_open =
     bindM (storage_index p) (\<lambda>i.
       thenM (whenM register_open (update_file i file_open)) (update_file i (addFd tid fd)))"

definition addFileToTid :: "int \<Rightarrow> int \<Rightarrow> path \<Rightarrow> off64 \<Rightarrow> unit srv" where
  "addFileToTid tid fd p offset =
     thenM (addNewFdToStorage tid fd p True) (addNewFdToMap tid fd p offset)"

text \<open>Returns whether an entry was erased, which matters to the loop in \<open>remove\<close>.\<close>

definition removeFromTid1 :: "int \<Rightarrow> int \<Rightarrow> bool srv" where
  "removeFromTid1 tid fd =
     bindM (fd_entry tid fd) (\<lambda>e.
       if t_path e = [] then returnM False
       else bindM (optM NullDeref (t_pointer e)) (\<lambda>i.
         thenM (update_file i (removeFd tid fd))
           (thenM (modifyM (\<lambda>s. s\<lparr>s_fds := AList.delete (tid, fd) (s_fds s)\<rparr>)) (returnM True))))"

definition removeFromTid :: "int \<Rightarrow> int \<Rightarrow> unit srv" where
  "removeFromTid tid fd = bindM (removeFromTid1 tid fd) (\<lambda>_. returnM ())"

definition dup_fd :: "int \<Rightarrow> int \<Rightarrow> int \<Rightarrow> unit srv" where
  "dup_fd tid old_fd new_fd =
     bindM (fd_entry tid new_fd) (\<lambda>_.
       bindM (fd_entry tid old_fd) (\<lambda>e.
         thenM (set_fd tid new_fd e)
           (bindM (optM NullDeref (t_pointer e)) (\<lambda>i.
              thenM (update_file i file_open) (update_file i (addFd tid new_fd))))))"

definition clone_fds :: "int \<Rightarrow> int \<Rightarrow> unit srv" where
  "clone_fds parent_tid child_tid =
     bindM (getFileDescriptors parent_tid) (forM (\<lambda>fd.
       bindM (getPath parent_tid fd) (\<lambda>p.
         bindM (getFileOffset parent_tid fd) (\<lambda>offset.
           thenM (addNewFdToStorage child_tid fd p False)
             (addNewFdToMap child_tid fd p offset)))))"

section \<open>Files\<close>

text \<open>
  The key of the node is changed and the node put back; when the new key is taken the node,
  and with it the file, is destroyed. \<open>key()\<close> of an empty node is undefined.
\<close>

definition rename_path :: "path \<Rightarrow> path \<Rightarrow> unit srv" where
  "rename_path oldpath newpath =
     thenM
       (modifyM (\<lambda>s. s\<lparr>s_fds :=
          map (\<lambda>(k, e). (k, if t_path e = oldpath then e\<lparr>t_path := newpath\<rparr> else e)) (s_fds s)\<rparr>))
       (bindM (tryGet oldpath) (\<lambda>r.
          case r of
            None \<Rightarrow> failM NullDeref
          | Some i \<Rightarrow>
              modifyM (\<lambda>s.
                let st = AList.delete oldpath (s_storage s)
                in case map_of st newpath of
                     None \<Rightarrow> s\<lparr>s_storage := st @ [(newpath, i)]\<rparr>
                   | Some _ \<Rightarrow> s\<lparr>s_storage := st, s_files := (s_files s)(i := None)\<rparr>)))"

definition add_file :: "env \<Rightarrow> path \<Rightarrow> bool \<Rightarrow> off64 \<Rightarrow> nat srv" where
  "add_file E p is_dir init_size =
     (let n_file = cl_getDirectoryFileCount E p;
          init_size = (if 1 < n_file then CAPIO_DEFAULT_DIR_INITIAL_SIZE else init_size)
      in bindM (tryGet p) (\<lambda>r.
           case r of
             Some i \<Rightarrow> returnM i
           | None \<Rightarrow>
               new_file p (CapioFile_dir is_dir (word_of_int n_file) (cl_isPermanent E p) init_size
                             (cl_getCommitCloseCount E p))))"

text \<open>
  The loop runs over the vector from which \<open>removeFd\<close> erases: once an element was erased its
  iterators are invalid.
\<close>

fun remove_fds :: "(int \<times> int) list \<Rightarrow> unit srv" where
  "remove_fds [] = returnM ()"
| "remove_fds ((tid, fd) # rest) =
     bindM (removeFromTid1 tid fd) (\<lambda>erased.
       if erased then failM IteratorInvalid else remove_fds rest)"

definition remove_path :: "path \<Rightarrow> unit srv" where
  "remove_path p =
     bindM (get_file p) (\<lambda>i.
       bindM (file_at i) (\<lambda>f.
         thenM (remove_fds (getFds f))
           (modifyM (\<lambda>s. s\<lparr>s_storage := AList.delete p (s_storage s), s_files := (s_files s)(i := None)\<rparr>))))"

section \<open>Directories\<close>

definition addDirectoryEntry :: "env \<Rightarrow> int \<Rightarrow> path \<Rightarrow> path \<Rightarrow> manager_dir_entry_type \<Rightarrow> unit srv" where
  "addDirectoryEntry E tid file_path dir type =
     (let file_name = (case type of REGULAR_ENTRY \<Rightarrow> path_filename file_path
                                  | DOT_ENTRY \<Rightarrow> ''.'' | DOT_DOT_ENTRY \<Rightarrow> ''..'')
      in bindM (get_file dir) (\<lambda>i.
         thenM (try_update_file i (createBuffer (env_sys E) (env_quota E) dir True))
        (bindM (file_at i) (\<lambda>f.
           let file_size = getStoredSize f;
               data_size = file_size + sizeof_linux_dirent64;
               d_type = (if isDirectory f then DT_DIR else DT_REG)
           in thenM (whenM (getBufSize f < data_size)
                      (try_update_file i (expandBuffer (env_sys E) (env_quota E) data_size)))
             (bindM (liftM (dirent_bytes (std_hash E file_path) data_size d_type file_name)) (\<lambda>ld.
              thenM (try_update_file i (store_at file_size ld))
             (thenM (update_file i (insertSector file_size data_size))
             (thenM (update_file i (incrementDirectoryFileCount 1))
             (thenM (registerProducedFile tid dir)
             (bindM (file_at i) (\<lambda>f.
                whenM (getCurrentDirectoryFileCount f = getDirectoryExpectedFileCount f \<and>
                       cl_getCommitRule E file_path = ON_N_FILES)
                  (update_file i (setCommitted True)))))))))))))"

definition updateDirectory :: "env \<Rightarrow> int \<Rightarrow> path \<Rightarrow> unit srv" where
  "updateDirectory E tid file_path =
     (let dir = get_parent_dir_path file_path
      in bindM (get_file dir) (\<lambda>i.
         bindM (file_at i) (\<lambda>f.
           thenM (whenM (isFirstWrite f)
                    (thenM (update_file i registerFirstWrite) (write_file_location E dir)))
             (addDirectoryEntry E tid file_path dir REGULAR_ENTRY))))"

definition addDirectory :: "env \<Rightarrow> int \<Rightarrow> path \<Rightarrow> off64 srv" where
  "addDirectory E tid p =
     bindM (get_file_location_opt p) (\<lambda>l.
       if l = None then
         bindM (add_file E p True CAPIO_DEFAULT_DIR_INITIAL_SIZE) (\<lambda>i.
         bindM (file_at i) (\<lambda>f.
           thenM (whenM (isFirstWrite f)
             (thenM (update_file i registerFirstWrite)
             (thenM (if rc_capio_dir E = p then add_file_location p OwnName (- 1)
                     else thenM (write_file_location E p) (updateDirectory E tid p))
             (thenM (addDirectoryEntry E tid p p DOT_ENTRY)
               (addDirectoryEntry E tid (get_parent_dir_path p) p DOT_DOT_ENTRY)))))
             (returnM 0)))
       else returnM 1)"

text \<open>The destructor.\<close>

definition StorageManager_destroy :: "unit srv" where
  "StorageManager_destroy =
     bindM getFileDescriptors_all (forM (\<lambda>(tid, fd). removeFromTid tid fd))"

end
