(* ===== verification/Posix_Cache.thy ===== *)
theory Posix_Cache
  imports Posix_Requests Storage_Manager
begin

text \<open>
  The caches of the library (\<open>posix/utils/cache.hpp\<close>) and the transfers built on them
  (\<open>posix/utils/data.hpp\<close>).

  The read cache fetches a line from the server and serves the reads that follow from it; the
  write cache collects small writes into a line and sends it with one request. Both leave the
  server behind, or ahead of, the offset the application sees: \<open>ReadCache::flush\<close> and
  \<open>WriteCache::flush\<close> bring the two together.

  A destination buffer is what the operation stored in it, in order; \<open>room\<close> is its size, and
  storing more than that is a fault.
\<close>

section \<open>Queues of the thread\<close>

definition q_fetch_line :: "'w host \<Rightarrow> (cell list, 'w) lib" where
  "q_fetch_line H = bindM (getsM c_tid) (\<lambda>tid. waitWorld (h_read1 H tid (h_cache_line_size H)))"

text \<open>
  \<open>Queue::read\<close> and \<open>Queue::write\<close> with a signed count: a negative count that is not a multiple
  of the element size leaves a remainder that is read as a huge size.
\<close>

definition q_read_bytes :: "'w host \<Rightarrow> off64 \<Rightarrow> (cell list, 'w) lib" where
  "q_read_bytes H n =
     bindM (getsM c_tid) (\<lambda>tid.
       if n < 0 then (if n mod int (h_cache_line_size H) = 0 then returnM [] else failM OutOfBounds)
       else waitWorld (queue_read (h_read1 H tid) (h_cache_line_size H) (nat n)))"

definition q_write_bytes :: "'w host \<Rightarrow> cell list \<Rightarrow> (unit, 'w) lib" where
  "q_write_bytes H xs =
     bindM (getsM c_tid) (\<lambda>tid.
       thenM (waitWorld (\<lambda>w. map_option (\<lambda>w'. ((), w')) (queue_write (h_write1 H tid) (h_cache_line_size H) xs w)))
         (tryWorld (h_wake H)))"

section \<open>The read cache\<close>

definition ReadCache_new :: "off64 \<Rightarrow> read_cache" where
  "ReadCache_new line_size =
     \<lparr>rc_cache = None, rc_last_fd = - 1, rc_max_line_size = line_size, rc_actual_size = 0, rc_cache_offset = 0\<rparr>"

definition set_rc :: "(read_cache \<Rightarrow> read_cache) \<Rightarrow> (unit, 'w) lib" where
  "set_rc g = modifyM (\<lambda>s. s\<lparr>c_read_cache := g (c_read_cache s)\<rparr>)"

definition ReadCache_read1 :: "off64 \<Rightarrow> (cell list, 'w) lib" where
  "ReadCache_read1 count =
     (if 0 < count then
        bindM (getsM c_read_cache) (\<lambda>c.
          case rc_cache c of
            None \<Rightarrow> failM NullDeref
          | Some line \<Rightarrow>
              if rc_cache_offset c < 0 \<or> int (length line) < rc_cache_offset c + count then failM OutOfBounds
              else thenM (set_rc (\<lambda>c. c\<lparr>rc_cache_offset := rc_cache_offset c + count\<rparr>))
                     (returnM (seg (nat (rc_cache_offset c)) (nat count) line)))
      else returnM [])"

definition ReadCache_flush :: "'w host \<Rightarrow> (unit, 'w) lib" where
  "ReadCache_flush H =
     bindM (getsM c_read_cache) (\<lambda>c.
       whenM (rc_cache_offset c \<noteq> rc_actual_size c)
         (thenM (set_rc (\<lambda>c. c\<lparr>rc_actual_size := 0, rc_cache_offset := 0\<rparr>))
         (bindM (get_capio_fd_offset (rc_last_fd c)) (\<lambda>off. bindM (getsM c_tid) (\<lambda>tid.
            bindM (seek_request H (rc_last_fd c) off tid) (\<lambda>_. returnM ()))))))"

definition cachesFileOf :: "int \<Rightarrow> (bool, 'w) lib" where
  "cachesFileOf fd =
     bindM (getsM (\<lambda>s. rc_last_fd (c_read_cache s))) (\<lambda>last_fd.
       if fd = last_fd then returnM True
       else bindM (exists_capio_fd last_fd) (\<lambda>b.
         if \<not> b then returnM False
         else bindM (get_capio_fd_path fd) (\<lambda>p. bindM (get_capio_fd_path last_fd) (\<lambda>q.
           returnM (p = q)))))"

definition fit :: "off64 \<Rightarrow> cell list \<Rightarrow> (cell list, 'w) lib" where
  "fit room xs = (if int (length xs) \<le> room then returnM xs else failM OutOfBounds)"

definition ReadCache_read :: "'w host \<Rightarrow> int \<Rightarrow> off64 \<Rightarrow> bool \<Rightarrow> bool \<Rightarrow> (off64 \<times> cell list, 'w) lib" where
  "ReadCache_read H fd room is_getdents is64bit =
     bindM (getsM (\<lambda>s. rc_last_fd (c_read_cache s))) (\<lambda>last_fd.
     thenM (whenM (last_fd \<noteq> fd) (thenM (ReadCache_flush H) (set_rc (\<lambda>c. c\<lparr>rc_last_fd := fd\<rparr>))))
    (bindM (getsM c_tid) (\<lambda>tid. bindM (getsM c_read_cache) (\<lambda>c. bindM (get_capio_fd_offset fd) (\<lambda>file_offset.
       let remaining_bytes = rc_actual_size c - rc_cache_offset c;
           count = (if is_getdents then (room div sizeof_linux_dirent64) * sizeof_linux_dirent64 else room);
           read_size = count - remaining_bytes
       in bindM
            (if count \<le> remaining_bytes then
               bindM (ReadCache_read1 count) (\<lambda>xs. returnM (count, xs))
             else
               bindM (ReadCache_read1 remaining_bytes) (\<lambda>xs.
                 if rc_max_line_size c < read_size \<or> is_getdents then
                   bindM (if is_getdents then getdents_request H fd read_size is64bit tid
                          else read_request H fd read_size tid) (\<lambda>end_of_read.
                   let bytes_read = end_of_read - file_offset
                   in bindM (q_read_bytes H bytes_read) (\<lambda>ys.
                      bindM (fit room (xs @ ys)) (\<lambda>zs. returnM (bytes_read, zs))))
                 else
                   bindM (read_request H fd (rc_max_line_size c) tid) (\<lambda>end_of_read.
                   let actual_size = end_of_read - file_offset - remaining_bytes
                   in thenM (set_rc (\<lambda>c. c\<lparr>rc_actual_size := actual_size, rc_cache_offset := 0\<rparr>))
                     (thenM (whenM (0 < actual_size)
                               (bindM (q_fetch_line H) (\<lambda>line. set_rc (\<lambda>c. c\<lparr>rc_cache := Some line\<rparr>))))
                       (if read_size < actual_size then
                          bindM (ReadCache_read1 read_size) (\<lambda>ys. returnM (count, xs @ ys))
                        else
                          bindM (ReadCache_read1 actual_size) (\<lambda>ys.
                            returnM (remaining_bytes + actual_size, xs @ ys)))))))
            (\<lambda>(bytes_read, xs).
               thenM (set_capio_fd_offset fd (file_offset + bytes_read)) (returnM (bytes_read, xs))))))))"

section \<open>The write cache\<close>

definition WriteCache_new :: "off64 \<Rightarrow> write_cache" where
  "WriteCache_new line_size =
     \<lparr>wc_cache = None, wc_fd = - 1, wc_max_line_size = line_size, wc_actual_size = 0\<rparr>"

definition set_wc :: "(write_cache \<Rightarrow> write_cache) \<Rightarrow> (unit, 'w) lib" where
  "set_wc g = modifyM (\<lambda>s. s\<lparr>c_write_cache := g (c_write_cache s)\<rparr>)"

text \<open>
  The bytes of the line are in its slot before the request that tells the server of them is
  written.
\<close>

definition WriteCache_flush :: "'w host \<Rightarrow> (unit, 'w) lib" where
  "WriteCache_flush H =
     bindM (getsM c_write_cache) (\<lambda>c.
       whenM (wc_actual_size c \<noteq> 0)
         (bindM (getsM c_tid) (\<lambda>tid.
          bindM (optM NullDeref (wc_cache c)) (\<lambda>line.
            thenM (tryWorld (h_commit H tid line))
           (thenM (write_request H (wc_fd c) (wc_actual_size c) tid)
                  (set_wc (\<lambda>c. c\<lparr>wc_cache := None, wc_actual_size := 0\<rparr>)))))))"

definition WriteCache_write1 :: "'w host \<Rightarrow> cell list \<Rightarrow> (unit, 'w) lib" where
  "WriteCache_write1 H buffer =
     whenM (buffer \<noteq> [])
       (bindM (getsM c_tid) (\<lambda>tid.
        bindM (getsM c_write_cache) (\<lambda>c.
          thenM (whenM (wc_cache c = None)
                   (thenM (waitWorld (\<lambda>w. map_option (\<lambda>w'. ((), w')) (h_reserve H tid w)))
                          (set_wc (\<lambda>c. c\<lparr>wc_cache := Some []\<rparr>))))
         (thenM (set_wc (\<lambda>c. c\<lparr>wc_cache := map_option (\<lambda>line. line @ buffer) (wc_cache c),
                               wc_actual_size := wc_actual_size c + int (length buffer)\<rparr>))
         (bindM (getsM c_write_cache) (\<lambda>c.
            whenM (wc_actual_size c = wc_max_line_size c) (WriteCache_flush H)))))))"

definition WriteCache_write :: "'w host \<Rightarrow> int \<Rightarrow> cell list \<Rightarrow> (unit, 'w) lib" where
  "WriteCache_write H fd buffer =
     bindM (getsM (\<lambda>s. wc_fd (c_write_cache s))) (\<lambda>cached_fd.
     thenM (whenM (cached_fd \<noteq> fd) (thenM (WriteCache_flush H) (set_wc (\<lambda>c. c\<lparr>wc_fd := fd\<rparr>))))
    (bindM (getsM c_tid) (\<lambda>tid. bindM (getsM c_write_cache) (\<lambda>c.
       let count = int (length buffer)
       in thenM
            (if count \<le> wc_max_line_size c - wc_actual_size c then WriteCache_write1 H buffer
             else
               thenM (WriteCache_flush H)
              (bindM (getsM c_write_cache) (\<lambda>c.
                 if wc_max_line_size c < count - wc_actual_size c then
                   thenM (write_request H (wc_fd c) count tid) (q_write_bytes H buffer)
                 else WriteCache_write1 H buffer)))
           (bindM (get_capio_fd_offset fd) (\<lambda>off. set_capio_fd_offset fd (off + count)))))))"

section \<open>Transfers\<close>

definition initialize_data_queues :: "'w host \<Rightarrow> (unit, 'w) lib" where
  "initialize_data_queues H =
     modifyM (\<lambda>s. s\<lparr>c_write_cache := WriteCache_new (int (h_cache_line_size H)),
                    c_read_cache := ReadCache_new (int (h_cache_line_size H))\<rparr>)"

definition capio_cached_read :: "'w host \<Rightarrow> int \<Rightarrow> off64 \<Rightarrow> (off64 \<times> cell list, 'w) lib" where
  "capio_cached_read H fd count =
     thenM (WriteCache_flush H) (ReadCache_read H fd count False False)"

definition capio_cached_write :: "'w host \<Rightarrow> int \<Rightarrow> cell list \<Rightarrow> (unit, 'w) lib" where
  "capio_cached_write H fd buffer =
     bindM (cachesFileOf fd) (\<lambda>b.
       thenM (whenM b (ReadCache_flush H)) (WriteCache_write H fd buffer))"

definition capio_set_fd_offset :: "'w host \<Rightarrow> int \<Rightarrow> off64 \<Rightarrow> int \<Rightarrow> (unit, 'w) lib" where
  "capio_set_fd_offset H fd offset tid =
     thenM (ReadCache_flush H)
    (thenM (WriteCache_flush H)
    (thenM (set_capio_fd_offset fd offset)
    (bindM (seek_request H fd offset tid) (\<lambda>_. returnM ()))))"

end
