(* ===== verification/Posix_Handlers.thy ===== *)
theory Posix_Handlers
  imports Posix_Cache
begin

text \<open>
  The handlers of the intercepted system calls (\<open>posix/handlers/\<close>).

  A handler returns 1 to let the kernel do the call and 0 when it has set the result. Its
  \<open>outcome\<close> holds that value, the result if it was set, and what was stored through the
  pointers of the caller. The argument of a pointer type is what it points to; a buffer to be
  filled is its size.

  A handler \<open>x_handler\<close> of the source is \<open>posix_x_handler\<close> here, since the server has handlers of
  the same names.

  Calls that the library itself makes through the C library (\<open>fstat\<close> in \<open>is_directory\<close>, \<open>lseek\<close>
  in \<open>capio_openat\<close>) are intercepted again, and are calls of the handlers here.
\<close>

unbundle bit_operations_syntax

section \<open>Results\<close>

record stat_buf =
  st_mode :: int
  st_dev :: int
  st_ino :: int
  st_nlink :: int
  st_uid :: int
  st_gid :: int
  st_rdev :: int
  st_size :: off64
  st_blksize :: int
  st_blocks :: int
  st_time :: int

record statx_buf =
  stx_mode :: int
  stx_mask :: int
  stx_attributes_mask :: int
  stx_blksize :: int
  stx_nlink :: int
  stx_uid :: int
  stx_gid :: int
  stx_ino :: int
  stx_size :: off64
  stx_blocks :: int
  stx_time :: int

datatype out_value =
    Out_none
  | Out_bytes "cell list"
  | Out_iov "cell list list"
  | Out_stat stat_buf
  | Out_statx statx_buf
  | Out_text string
  | Out_number int
  | Out_offsets "off64 option" "off64 option"

record outcome =
  o_return :: int
  o_result :: "int option"
  o_out :: out_value

definition skipped :: outcome where
  "skipped = \<lparr>o_return = CAPIO_POSIX_SYSCALL_SKIP, o_result = None, o_out = Out_none\<rparr>"

definition handled :: "int \<Rightarrow> outcome" where
  "handled r = \<lparr>o_return = CAPIO_POSIX_SYSCALL_SUCCESS, o_result = Some r, o_out = Out_none\<rparr>"

definition capio_max_rw_count :: "'w host \<Rightarrow> off64" where
  "capio_max_rw_count H = 2147483647 AND NOT (h_page_size H - 1)"

definition posix_return_value :: "int \<Rightarrow> out_value \<Rightarrow> (outcome, 'w) lib" where
  "posix_return_value res out =
     (if res \<noteq> CAPIO_POSIX_SYSCALL_REQUEST_SKIP then
        bindM (getsM c_errno) (\<lambda>errno.
          returnM \<lparr>o_return = CAPIO_POSIX_SYSCALL_SUCCESS,
                   o_result = Some (if res < 0 then - errno else res), o_out = out\<rparr>)
      else returnM \<lparr>o_return = CAPIO_POSIX_SYSCALL_SKIP, o_result = None, o_out = out\<rparr>)"

text \<open>\<open>errno = e; return CAPIO_POSIX_SYSCALL_ERRNO;\<close>\<close>

definition fail_errno :: "int \<Rightarrow> (int, 'w) lib" where
  "fail_errno e = thenM (set_errno e) (returnM CAPIO_POSIX_SYSCALL_ERRNO)"

section \<open>Status\<close>

definition S_DIRECTORY :: int where
  "S_DIRECTORY = 16384 OR 448 OR 32 OR 8 OR 4 OR 1"

definition S_REGULAR :: int where
  "S_REGULAR = 32768 OR 256 OR 128 OR 32 OR 4"

definition get_nblocks :: "off64 \<Rightarrow> int" where
  "get_nblocks file_size = (if file_size mod 4096 = 0 then file_size div 512 else file_size div 512 + 8)"

definition fill_statbuf :: "'w host \<Rightarrow> off64 \<Rightarrow> bool \<Rightarrow> int \<Rightarrow> stat_buf" where
  "fill_statbuf H file_size is_dir inode =
     (let size' = (if is_dir then 4096 else file_size)
      in \<lparr>st_mode = (if is_dir then S_DIRECTORY else S_REGULAR), st_dev = 100, st_ino = inode, st_nlink = 1,
          st_uid = h_uid H, st_gid = h_gid H, st_rdev = 0, st_size = size', st_blksize = 4096,
          st_blocks = (if size' < 4096 then 8 else get_nblocks size'), st_time = 1\<rparr>)"

definition capio_fstat :: "'w host \<Rightarrow> int \<Rightarrow> int \<Rightarrow> (int \<times> out_value, 'w) lib" where
  "capio_fstat H fd tid =
     bindM (exists_capio_fd fd) (\<lambda>b.
       if b then
         thenM (WriteCache_flush H)
        (bindM (fstat_request H fd tid) (\<lambda>(file_size, is_dir).
           if file_size = - 1 then bindM (fail_errno ENOENT) (\<lambda>r. returnM (r, Out_none))
           else bindM (get_capio_fd_path fd) (\<lambda>p.
             returnM (CAPIO_POSIX_SYSCALL_SUCCESS, Out_stat (fill_statbuf H file_size (is_dir \<noteq> 0) (h_hash H p))))))
       else returnM (CAPIO_POSIX_SYSCALL_REQUEST_SKIP, Out_none))"

definition capio_lstat :: "'w host \<Rightarrow> path \<Rightarrow> int \<Rightarrow> (int \<times> out_value, 'w) lib" where
  "capio_lstat H pathname tid =
     (if is_forbidden_path pathname then returnM (CAPIO_POSIX_SYSCALL_REQUEST_SKIP, Out_none)
      else if is_capio_path (h_capio_dir H) pathname then
        thenM (WriteCache_flush H)
       (bindM (stat_request H pathname tid) (\<lambda>(file_size, is_dir).
          if file_size = - 1 then bindM (fail_errno ENOENT) (\<lambda>r. returnM (r, Out_none))
          else if file_size = CAPIO_POSIX_SYSCALL_REQUEST_SKIP then returnM (file_size, Out_none)
          else returnM (CAPIO_POSIX_SYSCALL_SUCCESS,
                        Out_stat (fill_statbuf H file_size (is_dir \<noteq> 0) (h_hash H pathname)))))
      else returnM (CAPIO_POSIX_SYSCALL_REQUEST_SKIP, Out_none))"

definition capio_lstat_wrapper :: "'w host \<Rightarrow> path \<Rightarrow> int \<Rightarrow> (int \<times> out_value, 'w) lib" where
  "capio_lstat_wrapper H pathname tid =
     (if is_forbidden_path pathname then returnM (CAPIO_POSIX_SYSCALL_REQUEST_SKIP, Out_none)
      else bindM (capio_posix_realpath H pathname) (\<lambda>absolute_path.
        if absolute_path = [] then bindM (fail_errno ENOENT) (\<lambda>r. returnM (r, Out_none))
        else capio_lstat H absolute_path tid))"

text \<open>A \<open>bool\<close> function: the -1 it returns for a descriptor that has no status is \<open>true\<close>.\<close>

definition is_directory :: "'w host \<Rightarrow> int \<Rightarrow> (bool, 'w) lib" where
  "is_directory H dirfd =
     bindM (exists_capio_fd dirfd) (\<lambda>b.
       if b then
         bindM (getsM c_tid) (\<lambda>tid. bindM (capio_fstat H dirfd tid) (\<lambda>(r, out).
           returnM (case out of Out_stat st \<Rightarrow> st_mode st = S_DIRECTORY | _ \<Rightarrow> True)))
       else bindM (askWorld (h_fstat H dirfd)) (\<lambda>st.
         returnM (case st of None \<Rightarrow> True | Some ks \<Rightarrow> ks_dir ks)))"

definition capio_fstatat :: "'w host \<Rightarrow> int \<Rightarrow> path \<Rightarrow> int \<Rightarrow> int \<Rightarrow> (int \<times> out_value, 'w) lib" where
  "capio_fstatat H dirfd pathname flags tid =
     (if is_forbidden_path pathname then returnM (CAPIO_POSIX_SYSCALL_REQUEST_SKIP, Out_none)
      else if pathname = [] \<and> flags AND AT_EMPTY_PATH = AT_EMPTY_PATH then
        (if dirfd = AT_FDCWD then bindM get_current_dir (\<lambda>cwd. capio_lstat H cwd tid)
         else capio_fstat H dirfd tid)
      else if \<not> path_is_absolute pathname then
        (if dirfd = AT_FDCWD then capio_lstat_wrapper H pathname tid
         else bindM (is_directory H dirfd) (\<lambda>d.
           if \<not> d then bindM (fail_errno ENOTDIR) (\<lambda>r. returnM (r, Out_none))
           else bindM (get_dir_path H dirfd) (\<lambda>dir_path.
             if dir_path = [] then returnM (CAPIO_POSIX_SYSCALL_REQUEST_SKIP, Out_none)
             else capio_lstat H (lexically_normal (path_append dir_path pathname)) tid)))
      else capio_lstat H pathname tid)"

definition returns :: "(int \<times> out_value, 'w) lib \<Rightarrow> (outcome, 'w) lib" where
  "returns m = bindM m (\<lambda>(r, out). posix_return_value r out)"

definition returnsI :: "(int, 'w) lib \<Rightarrow> (outcome, 'w) lib" where
  "returnsI m = bindM m (\<lambda>r. posix_return_value r Out_none)"

definition withTid :: "(int \<Rightarrow> ('a, 'w) lib) \<Rightarrow> ('a, 'w) lib" where
  "withTid k = bindM (getsM c_tid) k"

definition posix_fstat_handler :: "'w host \<Rightarrow> int \<Rightarrow> (outcome, 'w) lib" where
  "posix_fstat_handler H fd = withTid (\<lambda>tid. returns (capio_fstat H fd tid))"

definition posix_fstatat_handler :: "'w host \<Rightarrow> int \<Rightarrow> path \<Rightarrow> int \<Rightarrow> (outcome, 'w) lib" where
  "posix_fstatat_handler H dirfd pathname flags = withTid (\<lambda>tid. returns (capio_fstatat H dirfd pathname flags tid))"

definition posix_lstat_handler :: "'w host \<Rightarrow> path \<Rightarrow> (outcome, 'w) lib" where
  "posix_lstat_handler H pathname = withTid (\<lambda>tid. returns (capio_lstat_wrapper H pathname tid))"

definition posix_stat_handler :: "'w host \<Rightarrow> path \<Rightarrow> (outcome, 'w) lib" where
  "posix_stat_handler H pathname = withTid (\<lambda>tid. returns (capio_lstat_wrapper H pathname tid))"

definition fill_statxbuf :: "'w host \<Rightarrow> off64 \<Rightarrow> bool \<Rightarrow> int \<Rightarrow> statx_buf" where
  "fill_statxbuf H file_size is_dir inode =
     (let size' = (if is_dir then 4096 else file_size)
      in \<lparr>stx_mode = (if is_dir then S_DIRECTORY else S_REGULAR), stx_mask = 2047 OR 2048, stx_attributes_mask = 0,
          stx_blksize = 4096, stx_nlink = 1, stx_uid = h_uid H, stx_gid = h_gid H, stx_ino = inode,
          stx_size = size', stx_blocks = (if size' < 4096 then 8 else get_nblocks size'), stx_time = 1\<rparr>)"

text \<open>The path whose status is asked for, or the value to return at once.\<close>

definition statx_path :: "'w host \<Rightarrow> int \<Rightarrow> path \<Rightarrow> int \<Rightarrow> (int + path, 'w) lib" where
  "statx_path H dirfd pathname flags =
     (if pathname = [] \<and> flags AND AT_EMPTY_PATH = AT_EMPTY_PATH then
        (if dirfd = AT_FDCWD then bindM get_current_dir (\<lambda>cwd. returnM (Inr cwd))
         else bindM (exists_capio_fd dirfd) (\<lambda>b.
           if b then bindM (get_capio_fd_path dirfd) (\<lambda>p. returnM (Inr p))
           else returnM (Inl CAPIO_POSIX_SYSCALL_REQUEST_SKIP)))
      else
        bindM
          (if path_is_absolute pathname then returnM (Inr pathname)
           else if dirfd = AT_FDCWD then
             bindM (capio_posix_realpath H pathname) (\<lambda>p.
               if p = [] then bindM (fail_errno ENOENT) (\<lambda>r. returnM (Inl r)) else returnM (Inr p))
           else bindM (is_directory H dirfd) (\<lambda>d.
             if \<not> d then bindM (fail_errno ENOTDIR) (\<lambda>r. returnM (Inl r))
             else bindM (get_dir_path H dirfd) (\<lambda>dir_path.
               if dir_path = [] then returnM (Inl CAPIO_POSIX_SYSCALL_REQUEST_SKIP)
               else returnM (Inr (lexically_normal (path_append dir_path pathname))))))
          (\<lambda>r. case r of
             Inl v \<Rightarrow> returnM (Inl v)
           | Inr p \<Rightarrow> returnM (if is_capio_path (h_capio_dir H) p then Inr p else Inl CAPIO_POSIX_SYSCALL_REQUEST_SKIP)))"

definition capio_statx :: "'w host \<Rightarrow> int \<Rightarrow> path \<Rightarrow> int \<Rightarrow> int \<Rightarrow> (int \<times> out_value, 'w) lib" where
  "capio_statx H dirfd pathname flags tid =
     (if is_forbidden_path pathname then returnM (CAPIO_POSIX_SYSCALL_REQUEST_SKIP, Out_none)
      else bindM (statx_path H dirfd pathname flags) (\<lambda>r.
        case r of
          Inl v \<Rightarrow> returnM (v, Out_none)
        | Inr p \<Rightarrow>
            thenM (WriteCache_flush H)
           (bindM (stat_request H p tid) (\<lambda>(file_size, is_dir).
              if file_size = - 1 then bindM (fail_errno ENOENT) (\<lambda>r. returnM (r, Out_none))
              else if file_size = CAPIO_POSIX_SYSCALL_REQUEST_SKIP
              then returnM (CAPIO_POSIX_SYSCALL_REQUEST_SKIP, Out_none)
              else returnM (CAPIO_POSIX_SYSCALL_SUCCESS,
                            Out_statx (fill_statxbuf H file_size (is_dir \<noteq> 0) (h_hash H p)))))))"

definition posix_statx_handler :: "'w host \<Rightarrow> int \<Rightarrow> path \<Rightarrow> int \<Rightarrow> (outcome, 'w) lib" where
  "posix_statx_handler H dirfd pathname flags = withTid (\<lambda>tid. returns (capio_statx H dirfd pathname flags tid))"

section \<open>Offsets\<close>

definition capio_lseek :: "'w host \<Rightarrow> int \<Rightarrow> off64 \<Rightarrow> int \<Rightarrow> int \<Rightarrow> (off64, 'w) lib" where
  "capio_lseek H fd offset whence tid =
     bindM (exists_capio_fd fd) (\<lambda>b.
       if \<not> b then returnM CAPIO_POSIX_SYSCALL_REQUEST_SKIP
       else thenM (ReadCache_flush H) (thenM (WriteCache_flush H) (bindM (get_capio_fd_offset fd) (\<lambda>file_offset.
         if whence = SEEK_SET then
           (if 0 \<le> offset then thenM (capio_set_fd_offset H fd offset tid) (returnM offset) else fail_errno EINVAL)
         else if whence = SEEK_CUR then
           (let new_offset = file_offset + offset
            in if 0 \<le> new_offset then thenM (capio_set_fd_offset H fd new_offset tid) (returnM new_offset)
               else fail_errno EINVAL)
         else if whence = SEEK_END then
           bindM (seek_end_request H fd tid) (\<lambda>_.
             let new_offset = file_offset + offset
             in thenM (set_capio_fd_offset fd new_offset) (returnM new_offset))
         else if whence = SEEK_DATA then
           bindM (seek_data_request H fd file_offset tid) (\<lambda>new_offset.
             thenM (set_capio_fd_offset fd new_offset) (returnM new_offset))
         else if whence = SEEK_HOLE then
           bindM (seek_hole_request H fd file_offset tid) (\<lambda>new_offset.
             thenM (set_capio_fd_offset fd new_offset) (returnM new_offset))
         else fail_errno EINVAL))))"

definition posix_lseek_handler :: "'w host \<Rightarrow> int \<Rightarrow> off64 \<Rightarrow> int \<Rightarrow> (outcome, 'w) lib" where
  "posix_lseek_handler H fd offset whence = withTid (\<lambda>tid. returnsI (capio_lseek H fd offset whence tid))"

section \<open>Data\<close>

definition capio_read :: "'w host \<Rightarrow> int \<Rightarrow> off64 \<Rightarrow> (off64 \<times> cell list, 'w) lib" where
  "capio_read H fd count =
     bindM (exists_capio_fd fd) (\<lambda>b.
       if b then (if SSIZE_MAX \<le> count then failM ErrExit else capio_cached_read H fd count)
       else returnM (CAPIO_POSIX_SYSCALL_REQUEST_SKIP, []))"

text \<open>The loop of \<open>capio_readv\<close>, on the sizes of the buffers not visited yet.\<close>

fun readv_loop :: "'w host \<Rightarrow> int \<Rightarrow> off64 list \<Rightarrow> off64 \<Rightarrow> off64 \<Rightarrow> cell list list \<Rightarrow> (off64 \<times> cell list list, 'w) lib" where
  "readv_loop H fd [] tot_bytes res out = returnM (tot_bytes, out)"
| "readv_loop H fd (iov_len # iov) tot_bytes res out =
     (if res < 0 then returnM (tot_bytes, out)
      else if iov_len \<noteq> 0 then
        bindM (capio_read H fd iov_len) (\<lambda>(res', xs).
          if res' = - 1 then returnM (CAPIO_POSIX_SYSCALL_ERRNO, out @ [xs])
          else readv_loop H fd iov (tot_bytes + res') res' (out @ [xs]))
      else readv_loop H fd iov tot_bytes res (out @ [[]]))"

definition capio_readv :: "'w host \<Rightarrow> int \<Rightarrow> off64 list \<Rightarrow> (off64 \<times> cell list list, 'w) lib" where
  "capio_readv H fd iov =
     bindM (exists_capio_fd fd) (\<lambda>b.
       if b then readv_loop H fd iov 0 0 [] else returnM (CAPIO_POSIX_SYSCALL_REQUEST_SKIP, []))"

definition posix_read_handler :: "'w host \<Rightarrow> int \<Rightarrow> off64 \<Rightarrow> (outcome, 'w) lib" where
  "posix_read_handler H fd count = bindM (capio_read H fd count) (\<lambda>(r, xs). posix_return_value r (Out_bytes xs))"

definition posix_readv_handler :: "'w host \<Rightarrow> int \<Rightarrow> off64 list \<Rightarrow> (outcome, 'w) lib" where
  "posix_readv_handler H fd iov = bindM (capio_readv H fd iov) (\<lambda>(r, xss). posix_return_value r (Out_iov xss))"

definition capio_write :: "'w host \<Rightarrow> int \<Rightarrow> cell list \<Rightarrow> (off64, 'w) lib" where
  "capio_write H fd buffer =
     bindM (exists_capio_fd fd) (\<lambda>b.
       if b then
         (if SSIZE_MAX < int (length buffer) then failM ErrExit
          else thenM (capio_cached_write H fd buffer) (returnM (int (length buffer))))
       else returnM CAPIO_POSIX_SYSCALL_REQUEST_SKIP)"

fun writev_loop :: "'w host \<Rightarrow> int \<Rightarrow> cell list list \<Rightarrow> off64 \<Rightarrow> off64 \<Rightarrow> (off64, 'w) lib" where
  "writev_loop H fd [] tot_bytes res = returnM tot_bytes"
| "writev_loop H fd (buffer # iov) tot_bytes res =
     (if res < 0 then returnM tot_bytes
      else if buffer \<noteq> [] then
        bindM (capio_write H fd buffer) (\<lambda>res'.
          if res' = - 1 then returnM CAPIO_POSIX_SYSCALL_ERRNO
          else writev_loop H fd iov (tot_bytes + res') res')
      else writev_loop H fd iov tot_bytes res)"

definition capio_writev :: "'w host \<Rightarrow> int \<Rightarrow> cell list list \<Rightarrow> (off64, 'w) lib" where
  "capio_writev H fd iov =
     bindM (exists_capio_fd fd) (\<lambda>b.
       if b then writev_loop H fd iov 0 0 else returnM CAPIO_POSIX_SYSCALL_REQUEST_SKIP)"

definition posix_write_handler :: "'w host \<Rightarrow> int \<Rightarrow> cell list \<Rightarrow> (outcome, 'w) lib" where
  "posix_write_handler H fd buffer = returnsI (capio_write H fd buffer)"

definition posix_writev_handler :: "'w host \<Rightarrow> int \<Rightarrow> cell list list \<Rightarrow> (outcome, 'w) lib" where
  "posix_writev_handler H fd iov = returnsI (capio_writev H fd iov)"

definition posix_getdents_handler_impl :: "'w host \<Rightarrow> int \<Rightarrow> off64 \<Rightarrow> bool \<Rightarrow> (outcome, 'w) lib" where
  "posix_getdents_handler_impl H fd count is64bit =
     bindM (exists_capio_fd fd) (\<lambda>b.
       if b then
         (if SSIZE_MAX \<le> count then failM ErrExit
          else thenM (WriteCache_flush H)
            (bindM (ReadCache_read H fd count True is64bit) (\<lambda>(r, xs).
               returnM \<lparr>o_return = CAPIO_POSIX_SYSCALL_SUCCESS, o_result = Some r, o_out = Out_bytes xs\<rparr>)))
       else returnM skipped)"

definition posix_getdents_handler :: "'w host \<Rightarrow> int \<Rightarrow> off64 \<Rightarrow> (outcome, 'w) lib" where
  "posix_getdents_handler H fd count = posix_getdents_handler_impl H fd count False"

definition posix_getdents64_handler :: "'w host \<Rightarrow> int \<Rightarrow> off64 \<Rightarrow> (outcome, 'w) lib" where
  "posix_getdents64_handler H fd count = posix_getdents_handler_impl H fd count True"

end
