(* ===== verification/Posix_Syscalls.thy ===== *)
theory Posix_Syscalls
  imports Posix_Handlers
begin

text \<open>
  The handlers that open, close, duplicate and name files (\<open>posix/handlers/\<close>), the snapshot that
  carries the tables over \<open>execve\<close> (\<open>posix/utils/snapshot.hpp\<close>) and the start of a thread
  (\<open>posix/utils/clone.hpp\<close>).
\<close>

section \<open>Paths relative to a descriptor\<close>

text \<open>
  The absolute path a call names, or the value it returns at once. The handlers differ in what
  they do when there is none: \<open>no_cwd\<close> is their value for a relative path without one.
\<close>

definition resolve_at :: "'w host \<Rightarrow> (int, 'w) lib \<Rightarrow> (path \<Rightarrow> path) \<Rightarrow> int \<Rightarrow> path \<Rightarrow> (int + path, 'w) lib" where
  "resolve_at H no_cwd join dirfd pathname =
     (if path_is_absolute pathname then returnM (Inr pathname)
      else if dirfd = AT_FDCWD then
        bindM (capio_posix_realpath H pathname) (\<lambda>p.
          if p = [] then bindM no_cwd (\<lambda>v. returnM (Inl v)) else returnM (Inr p))
      else bindM (is_directory H dirfd) (\<lambda>d.
        if \<not> d then returnM (Inl CAPIO_POSIX_SYSCALL_REQUEST_SKIP)
        else bindM (get_dir_path H dirfd) (\<lambda>dir_path.
          if dir_path = [] then returnM (Inl CAPIO_POSIX_SYSCALL_REQUEST_SKIP)
          else returnM (Inr (join (path_append dir_path pathname))))))"

definition skip_request :: "(int, 'w) lib" where
  "skip_request = returnM CAPIO_POSIX_SYSCALL_REQUEST_SKIP"

section \<open>Open and close\<close>

definition capio_open_request :: "'w host \<Rightarrow> int \<Rightarrow> int \<Rightarrow> path \<Rightarrow> int \<Rightarrow> (int option, 'w) lib" where
  "capio_open_request H flags fd p tid =
     (let create = flags AND O_CREAT = O_CREAT; excl = flags AND O_EXCL = O_EXCL
      in bindM (if excl then create_exclusive_request H fd p tid
                else if create then create_request H fd p tid else open_request H fd p tid) (\<lambda>return_code.
           if return_code = 1 then bindM (fail_errno (if excl then EEXIST else ENOENT)) (\<lambda>r. returnM (Some r))
           else returnM None))"

definition capio_register_fd :: "'w host \<Rightarrow> int \<Rightarrow> int \<Rightarrow> path \<Rightarrow> int \<Rightarrow> (int, 'w) lib" where
  "capio_register_fd H flags fd p tid =
     (let actual_flags = flags AND NOT O_CLOEXEC;
          actual_flags = (if flags AND O_DIRECTORY = O_DIRECTORY then actual_flags OR O_LARGEFILE else actual_flags)
      in thenM (add_capio_fd p fd 0 CAPIO_DEFAULT_FILE_INITIAL_SIZE actual_flags (flags AND O_CLOEXEC = O_CLOEXEC))
        (thenM (whenM (flags AND O_APPEND = O_APPEND)
                  (bindM (capio_lseek H fd 0 SEEK_END tid) (\<lambda>_. returnM ())))
           (returnM fd)))"

definition capio_open_path :: "'w host \<Rightarrow> int \<Rightarrow> path \<Rightarrow> int \<Rightarrow> (int, 'w) lib" where
  "capio_open_path H flags p tid =
     bindM (onWorld (h_open_null H O_RDONLY)) (\<lambda>fd.
       if fd = - 1 then failM ErrExit
       else bindM (capio_open_request H flags fd p tid) (\<lambda>e.
         case e of
           Some v \<Rightarrow> returnM v
         | None \<Rightarrow> capio_register_fd H flags fd p tid))"

definition capio_openat :: "'w host \<Rightarrow> int \<Rightarrow> path \<Rightarrow> int \<Rightarrow> int \<Rightarrow> (int, 'w) lib" where
  "capio_openat H dirfd pathname flags tid =
     (if is_forbidden_path pathname then skip_request
      else bindM (resolve_at H skip_request (\<lambda>p. p) dirfd pathname) (\<lambda>r.
        case r of
          Inl v \<Rightarrow> returnM v
        | Inr p0 \<Rightarrow>
            let p = capio_normal_path p0
            in if is_capio_path (h_capio_dir H) p then capio_open_path H flags p tid else skip_request))"

definition posix_creat_handler :: "'w host \<Rightarrow> path \<Rightarrow> (outcome, 'w) lib" where
  "posix_creat_handler H pathname =
     withTid (\<lambda>tid. returnsI (capio_openat H AT_FDCWD pathname (O_CREAT OR O_WRONLY OR O_TRUNC) tid))"

definition posix_open_handler :: "'w host \<Rightarrow> path \<Rightarrow> int \<Rightarrow> (outcome, 'w) lib" where
  "posix_open_handler H pathname flags = withTid (\<lambda>tid. returnsI (capio_openat H AT_FDCWD pathname flags tid))"

definition posix_openat_handler :: "'w host \<Rightarrow> int \<Rightarrow> path \<Rightarrow> int \<Rightarrow> (outcome, 'w) lib" where
  "posix_openat_handler H dirfd pathname flags = withTid (\<lambda>tid. returnsI (capio_openat H dirfd pathname flags tid))"

definition posix_close_handler :: "'w host \<Rightarrow> int \<Rightarrow> (outcome, 'w) lib" where
  "posix_close_handler H fd =
     withTid (\<lambda>tid. bindM (exists_capio_fd fd) (\<lambda>b.
       if b then
         thenM (WriteCache_flush H)
        (thenM (ReadCache_flush H)
        (thenM (close_request H fd tid)
        (thenM (delete_capio_fd fd)
               (returnM \<lparr>o_return = CAPIO_POSIX_SYSCALL_SKIP, o_result = Some 0, o_out = Out_none\<rparr>))))
       else returnM skipped))"

section \<open>Duplicates\<close>

text \<open>\<open>open("/dev/null")\<close> through the C library: -1 and \<open>errno\<close>.\<close>

definition libc_open_null :: "'w host \<Rightarrow> int \<Rightarrow> (int, 'w) lib" where
  "libc_open_null H flags =
     bindM (onWorld (h_open_null H flags)) (\<lambda>r.
       if r < 0 then thenM (set_errno (- r)) (returnM (- 1)) else returnM r)"

definition handled_errno :: "(outcome, 'w) lib" where
  "handled_errno = bindM (getsM c_errno) (\<lambda>e. returnM (handled (- e)))"

definition posix_dup_handler :: "'w host \<Rightarrow> int \<Rightarrow> (outcome, 'w) lib" where
  "posix_dup_handler H fd =
     withTid (\<lambda>tid. bindM (exists_capio_fd fd) (\<lambda>b.
       if b then
         bindM (libc_open_null H O_WRONLY) (\<lambda>res.
           if res = - 1 then handled_errno
           else thenM (dup_request H fd res tid) (thenM (dup_capio_fd fd res False) (returnM (handled res))))
       else returnM skipped))"

definition posix_dup2_handler :: "'w host \<Rightarrow> int \<Rightarrow> int \<Rightarrow> (outcome, 'w) lib" where
  "posix_dup2_handler H fd fd2 =
     withTid (\<lambda>tid. bindM (exists_capio_fd fd) (\<lambda>b.
       if b then
         bindM (onWorld (h_dup2 H fd fd2)) (\<lambda>res.
           if res = - 1 then handled_errno
           else thenM (whenM (fd \<noteq> res) (thenM (dup_request H fd res tid) (dup_capio_fd fd res False)))
                  (returnM (handled res)))
       else returnM skipped))"

definition posix_dup3_handler :: "'w host \<Rightarrow> int \<Rightarrow> int \<Rightarrow> int \<Rightarrow> (outcome, 'w) lib" where
  "posix_dup3_handler H fd fd2 flags =
     withTid (\<lambda>tid. bindM (exists_capio_fd fd) (\<lambda>b.
       if b then
         (if fd = fd2 then thenM (set_errno EINVAL) handled_errno
          else bindM (onWorld (h_dup3 H fd fd2 flags)) (\<lambda>res.
            if res = - 1 then handled_errno
            else thenM (dup_request H fd res tid)
                (thenM (dup_capio_fd fd res (flags AND O_CLOEXEC = O_CLOEXEC)) (returnM (handled res)))))
       else returnM skipped))"

section \<open>Access and directories\<close>

definition capio_faccessat :: "'w host \<Rightarrow> int \<Rightarrow> path \<Rightarrow> int \<Rightarrow> (off64, 'w) lib" where
  "capio_faccessat H dirfd pathname tid =
     (if is_forbidden_path pathname then skip_request
      else bindM (resolve_at H (fail_errno ENONET) lexically_normal dirfd pathname) (\<lambda>r.
        case r of
          Inl v \<Rightarrow> returnM v
        | Inr p \<Rightarrow> if is_capio_path (h_capio_dir H) p then access_request H p tid else skip_request))"

definition posix_access_handler :: "'w host \<Rightarrow> path \<Rightarrow> (outcome, 'w) lib" where
  "posix_access_handler H pathname = withTid (\<lambda>tid. returnsI (capio_faccessat H AT_FDCWD pathname tid))"

definition posix_faccessat_handler :: "'w host \<Rightarrow> int \<Rightarrow> path \<Rightarrow> (outcome, 'w) lib" where
  "posix_faccessat_handler H dirfd pathname = withTid (\<lambda>tid. returnsI (capio_faccessat H dirfd pathname tid))"

definition posix_chdir_handler :: "'w host \<Rightarrow> path \<Rightarrow> (outcome, 'w) lib" where
  "posix_chdir_handler H pathname =
     (if is_forbidden_path pathname then returnM skipped
      else bindM (if path_is_absolute pathname then returnM pathname else capio_posix_realpath H pathname) (\<lambda>p.
        if \<not> path_is_absolute pathname \<and> p = [] then handled_errno
        else if is_capio_path (h_capio_dir H) p then
          thenM (set_current_dir p) (thenM (set_errno 0) (returnM (handled 0)))
        else returnM skipped))"

definition posix_getcwd_handler :: "'w host \<Rightarrow> int \<Rightarrow> (outcome, 'w) lib" where
  "posix_getcwd_handler H sz =
     bindM get_current_dir (\<lambda>cwd.
       if \<not> is_capio_path (h_capio_dir H) cwd then returnM skipped
       else if sz < int (length cwd) + 1 then returnM (handled (- ERANGE))
       else returnM ((handled (int (length cwd) + 1))\<lparr>o_out := Out_text cwd\<rparr>))"

definition capio_mkdirat :: "'w host \<Rightarrow> int \<Rightarrow> path \<Rightarrow> int \<Rightarrow> (off64, 'w) lib" where
  "capio_mkdirat H dirfd pathname tid =
     (if is_forbidden_path pathname then skip_request
      else bindM (resolve_at H skip_request lexically_normal dirfd pathname) (\<lambda>r.
        case r of
          Inl v \<Rightarrow> returnM v
        | Inr p \<Rightarrow>
            if \<not> is_capio_path (h_capio_dir H) p then skip_request
            else bindM (exists_capio_path p) (\<lambda>b.
              if b then fail_errno EEXIST
              else bindM (mkdir_request H p tid) (\<lambda>res.
                if res = 1 then returnM CAPIO_POSIX_SYSCALL_ERRNO
                else thenM (add_capio_path p) (returnM res)))))"

definition capio_rmdir :: "'w host \<Rightarrow> path \<Rightarrow> int \<Rightarrow> (off64, 'w) lib" where
  "capio_rmdir H pathname tid =
     (if is_forbidden_path pathname then skip_request
      else bindM (resolve_at H skip_request (\<lambda>p. p) AT_FDCWD pathname) (\<lambda>r.
        case r of
          Inl v \<Rightarrow> returnM v
        | Inr p \<Rightarrow>
            if \<not> is_capio_path (h_capio_dir H) p then skip_request
            else bindM (exists_capio_path p) (\<lambda>b.
              if \<not> b then fail_errno ENOENT
              else bindM (rmdir_request H p tid) (\<lambda>res.
                if res = CAPIO_POSIX_SYSCALL_REQUEST_SKIP then returnM res
                else if res = 2 then fail_errno ENOENT
                else thenM (delete_capio_path p) (returnM CAPIO_POSIX_SYSCALL_SUCCESS)))))"

definition posix_mkdir_handler :: "'w host \<Rightarrow> path \<Rightarrow> (outcome, 'w) lib" where
  "posix_mkdir_handler H pathname = withTid (\<lambda>tid. returnsI (capio_mkdirat H AT_FDCWD pathname tid))"

definition posix_mkdirat_handler :: "'w host \<Rightarrow> int \<Rightarrow> path \<Rightarrow> (outcome, 'w) lib" where
  "posix_mkdirat_handler H dirfd pathname = withTid (\<lambda>tid. returnsI (capio_mkdirat H dirfd pathname tid))"

definition posix_rmdir_handler :: "'w host \<Rightarrow> path \<Rightarrow> (outcome, 'w) lib" where
  "posix_rmdir_handler H pathname = withTid (\<lambda>tid. returnsI (capio_rmdir H pathname tid))"

section \<open>Rename and unlink\<close>

definition rename_paths :: "'w host \<Rightarrow> int \<Rightarrow> path \<Rightarrow> int \<Rightarrow> path \<Rightarrow> (path \<times> path, 'w) lib" where
  "rename_paths H old_dirfd old_path new_dirfd new_path =
     bindM (get_dir_path H old_dirfd) (\<lambda>old_dir_fd_path.
     bindM (get_dir_path H new_dirfd) (\<lambda>new_dir_fd_path.
     bindM (if path_is_absolute old_path then returnM old_path
            else capio_absolute H (path_append old_dir_fd_path old_path)) (\<lambda>old_path_abs.
     bindM (if path_is_absolute new_path then returnM new_path
            else capio_absolute H (path_append new_dir_fd_path new_path)) (\<lambda>new_path_abs.
       returnM (old_path_abs, new_path_abs)))))"

definition posix_renameat2_handler :: "'w host \<Rightarrow> int \<Rightarrow> path \<Rightarrow> int \<Rightarrow> path \<Rightarrow> (outcome, 'w) lib" where
  "posix_renameat2_handler H old_dirfd old_path new_dirfd new_path =
     bindM (rename_paths H old_dirfd old_path new_dirfd new_path) (\<lambda>(old_path_abs, new_path_abs).
     withTid (\<lambda>tid.
       if is_prefix old_path_abs new_path_abs then thenM (set_errno EINVAL) handled_errno
       else if is_capio_path (h_capio_dir H) old_path_abs then
         thenM (rename_capio_path old_path_abs new_path_abs)
        (bindM (rename_request H tid old_path_abs new_path_abs) (\<lambda>res.
           if res < 0 then handled_errno else returnM (handled res)))
       else if is_capio_path (h_capio_dir H) new_path_abs then
         thenM (tryWorld (h_copy H old_path_abs new_path_abs)) handled_errno
       else returnM skipped))"

definition posix_rename_handler :: "'w host \<Rightarrow> path \<Rightarrow> path \<Rightarrow> (outcome, 'w) lib" where
  "posix_rename_handler H old_path new_path = posix_renameat2_handler H AT_FDCWD old_path AT_FDCWD new_path"

definition posix_renameat_handler :: "'w host \<Rightarrow> int \<Rightarrow> path \<Rightarrow> int \<Rightarrow> path \<Rightarrow> (outcome, 'w) lib" where
  "posix_renameat_handler H old_dirfd old_path new_dirfd new_path =
     posix_renameat2_handler H old_dirfd old_path new_dirfd new_path"

definition capio_unlink_abs :: "'w host \<Rightarrow> path \<Rightarrow> int \<Rightarrow> bool \<Rightarrow> (off64, 'w) lib" where
  "capio_unlink_abs H abs_path tid is_dir =
     (if \<not> is_capio_path (h_capio_dir H) abs_path then skip_request
      else if is_capio_dir (h_capio_dir H) abs_path then failM ErrExit
      else bindM
        (if is_dir then
           bindM (rmdir_request H abs_path tid) (\<lambda>res.
             returnM (if res = 2 then - 1
                      else if res \<noteq> CAPIO_POSIX_SYSCALL_REQUEST_SKIP then CAPIO_POSIX_SYSCALL_SUCCESS else res))
         else unlink_request H abs_path tid)
        (\<lambda>res. thenM (if res = - 1 then set_errno ENOENT else delete_capio_path abs_path) (returnM res)))"

definition capio_unlinkat :: "'w host \<Rightarrow> int \<Rightarrow> path \<Rightarrow> int \<Rightarrow> int \<Rightarrow> (off64, 'w) lib" where
  "capio_unlinkat H dirfd pathname flags tid =
     (if is_forbidden_path pathname then skip_request
      else bindM (resolve_at H skip_request lexically_normal dirfd pathname) (\<lambda>r.
        case r of
          Inl v \<Rightarrow> returnM v
        | Inr p \<Rightarrow> capio_unlink_abs H p tid (flags AND AT_REMOVEDIR \<noteq> 0)))"

definition posix_unlink_handler :: "'w host \<Rightarrow> path \<Rightarrow> (outcome, 'w) lib" where
  "posix_unlink_handler H pathname = withTid (\<lambda>tid. returnsI (capio_unlinkat H AT_FDCWD pathname 0 tid))"

definition posix_unlinkat_handler :: "'w host \<Rightarrow> int \<Rightarrow> path \<Rightarrow> int \<Rightarrow> (outcome, 'w) lib" where
  "posix_unlinkat_handler H dirfd pathname flags = withTid (\<lambda>tid. returnsI (capio_unlinkat H dirfd pathname flags tid))"

section \<open>Control\<close>

definition CAPIO_FCNTL_SETFL_MASK :: int where
  "CAPIO_FCNTL_SETFL_MASK = O_APPEND OR O_ASYNC OR O_DIRECT OR O_NOATIME OR O_NONBLOCK"

record flock =
  l_type :: int
  l_pid :: int

definition capio_fcntl_dupfd :: "'w host \<Rightarrow> int \<Rightarrow> int \<Rightarrow> int \<Rightarrow> bool \<Rightarrow> (int, 'w) lib" where
  "capio_fcntl_dupfd H tid fd min_fd is_cloexec =
     bindM (onWorld (h_fcntl H fd (if is_cloexec then 1030 else 0) min_fd)) (\<lambda>res.
       if res < 0 then returnM res
       else thenM (dup_capio_fd fd res is_cloexec) (thenM (dup_request H fd res tid) (returnM res)))"

text \<open>The value and the new type of the lock.\<close>

definition capio_fcntl_lock :: "int \<Rightarrow> int \<Rightarrow> flock option \<Rightarrow> (int \<times> int option, 'w) lib" where
  "capio_fcntl_lock fd cmd lock =
     (case lock of
        None \<Rightarrow> returnM (- EFAULT, None)
      | Some l \<Rightarrow>
          let get = cmd = 5 \<or> cmd = 36; ofd = cmd = 36 \<or> cmd = 37 \<or> cmd = 38
          in if ofd \<and> l_pid l \<noteq> 0 then returnM (- EINVAL, None)
             else bindM (get_capio_fd_flags fd) (\<lambda>flags.
               let acc = flags AND O_ACCMODE
               in if l_type l = 0 \<and> \<not> get \<and> acc = O_WRONLY then returnM (- EBADF, None)
                  else if l_type l = 1 \<and> \<not> get \<and> acc = O_RDONLY then returnM (- EBADF, None)
                  else if l_type l = 2 \<and> get then returnM (- EINVAL, None)
                  else if l_type l \<notin> {0, 1, 2} then returnM (- EINVAL, None)
                  else returnM (0, if get then Some 2 else None)))"

definition posix_fcntl_handler :: "'w host \<Rightarrow> int \<Rightarrow> int \<Rightarrow> int \<Rightarrow> flock option \<Rightarrow> int option \<Rightarrow> (outcome, 'w) lib" where
  "posix_fcntl_handler H fd cmd arg2 lock hint =
     withTid (\<lambda>tid. bindM (exists_capio_fd fd) (\<lambda>b.
       if \<not> b then returnM skipped
       else if cmd = 0 then bindM (capio_fcntl_dupfd H tid fd arg2 False) (\<lambda>r. returnM (handled r))
       else if cmd = 1030 then bindM (capio_fcntl_dupfd H tid fd arg2 True) (\<lambda>r. returnM (handled r))
       else if cmd = 1 then bindM (get_capio_fd_cloexec fd) (\<lambda>c. returnM (handled (if c then 1 else 0)))
       else if cmd = 2 then thenM (set_capio_fd_cloexec fd (arg2 AND 1 = 1)) (returnM (handled 0))
       else if cmd = 3 then bindM (get_capio_fd_flags fd) (\<lambda>f. returnM (handled f))
       else if cmd = 4 then
         bindM (get_capio_fd_flags fd) (\<lambda>f.
           thenM (set_capio_fd_flags fd ((f AND NOT CAPIO_FCNTL_SETFL_MASK) OR (arg2 AND CAPIO_FCNTL_SETFL_MASK)))
             (returnM (handled 0)))
       else if cmd \<in> {5, 6, 7, 36, 37, 38} then
         bindM (capio_fcntl_lock fd cmd lock) (\<lambda>(r, t).
           returnM ((handled r)\<lparr>o_out := (case t of None \<Rightarrow> Out_none | Some n \<Rightarrow> Out_number n)\<rparr>))
       else if cmd \<in> {8, 9, 10, 11, 15, 16} then
         bindM (onWorld (h_fcntl H fd cmd arg2)) (\<lambda>r. returnM (handled r))
       else if cmd = 1025 then returnM (handled 2)
       else if cmd = 1024 then
         returnM (handled (if arg2 = 2 then 0 else if arg2 = 0 \<or> arg2 = 1 then - EAGAIN else - EINVAL))
       else if cmd = 1026 then
         bindM (get_capio_fd_flags fd) (\<lambda>f.
           returnM (handled (if f AND O_DIRECTORY \<noteq> O_DIRECTORY then - ENOTDIR
                             else if arg2 = 0 then 0 else - EINVAL)))
       else if cmd = 1027 then
         bindM (exists_capio_fd arg2) (\<lambda>c.
           if c then bindM (capio_fd_entry fd) (\<lambda>e. bindM (capio_fd_entry arg2) (\<lambda>e'.
             returnM (handled (if fe_offset e = fe_offset e' then 1 else 0))))
           else bindM (onWorld (h_fcntl H arg2 1 0)) (\<lambda>r. returnM (handled (if r < 0 then - EBADF else 0))))
       else if cmd \<in> {1031, 1032} then returnM (handled (- EBADF))
       else if cmd \<in> {1033, 1034} then returnM (handled (- EINVAL))
       else if cmd \<in> {1035, 1036} then
         (case hint of
            None \<Rightarrow> returnM (handled (- EFAULT))
          | Some h \<Rightarrow> bindM (get_capio_fd_path fd) (\<lambda>p.
              if cmd = 1035 then
                bindM (getsM c_rw_hints) (\<lambda>hs.
                  returnM ((handled 0)\<lparr>o_out := Out_number (case hs p of None \<Rightarrow> 0 | Some n \<Rightarrow> n)\<rparr>))
              else if 5 < h then returnM (handled (- EINVAL))
              else thenM (modifyM (\<lambda>s. s\<lparr>c_rw_hints := (c_rw_hints s)(p \<mapsto> h)\<rparr>)) (returnM (handled 0))))
       else returnM (handled (- EINVAL))))"

section \<open>Calls that CAPIO only accepts or refuses\<close>

definition posix_fchmod_handler :: "int \<Rightarrow> (outcome, 'w) lib" where
  "posix_fchmod_handler fd = bindM (exists_capio_fd fd) (\<lambda>b. returnM (if b then handled 0 else skipped))"

definition posix_fchown_handler :: "int \<Rightarrow> (outcome, 'w) lib" where
  "posix_fchown_handler fd = bindM (exists_capio_fd fd) (\<lambda>b. returnM (if b then handled 0 else skipped))"

text \<open>\<open>std::equal\<close> compares the characters of the name only.\<close>

definition posix_fgetxattr_handler :: "int \<Rightarrow> string \<Rightarrow> (outcome, 'w) lib" where
  "posix_fgetxattr_handler fd name =
     bindM (exists_capio_fd fd) (\<lambda>b.
       if b then
         (if prefix name ''system.posix_acl_access'' then thenM (set_errno ENODATA) handled_errno
          else failM ErrExit)
       else returnM skipped)"

definition posix_ioctl_handler :: "int \<Rightarrow> (outcome, 'w) lib" where
  "posix_ioctl_handler fd =
     bindM (exists_capio_fd fd) (\<lambda>b.
       if b then thenM (set_errno ENOTTY) handled_errno
       else returnM (skipped\<lparr>o_return := CAPIO_POSIX_SYSCALL_REQUEST_SKIP\<rparr>))"

definition capio_refuse_in_kernel_copy :: "int \<Rightarrow> int \<Rightarrow> (outcome, 'w) lib" where
  "capio_refuse_in_kernel_copy fd_in fd_out =
     bindM (exists_capio_fd fd_in) (\<lambda>a. bindM (exists_capio_fd fd_out) (\<lambda>b.
       returnM (if a \<or> b then handled (- EINVAL) else skipped)))"

definition posix_splice_handler :: "int \<Rightarrow> int \<Rightarrow> (outcome, 'w) lib" where
  "posix_splice_handler fd_in fd_out = capio_refuse_in_kernel_copy fd_in fd_out"

definition posix_sendfile_handler :: "int \<Rightarrow> int \<Rightarrow> (outcome, 'w) lib" where
  "posix_sendfile_handler out_fd in_fd = capio_refuse_in_kernel_copy in_fd out_fd"

definition posix_fstatfs_handler :: "'w host \<Rightarrow> int \<Rightarrow> (outcome, 'w) lib" where
  "posix_fstatfs_handler H fd =
     bindM (exists_capio_fd fd) (\<lambda>b.
       if b then bindM (askWorld (h_statfs H (h_capio_dir H))) (\<lambda>r. returnM (handled r)) else returnM skipped)"

definition posix_exit_handler :: "'w host \<Rightarrow> (outcome, 'w) lib" where
  "posix_exit_handler H =
     withTid (\<lambda>tid. thenM (ReadCache_flush H) (thenM (WriteCache_flush H)
       (thenM (exit_group_request H tid) (returnM skipped))))"

section \<open>Snapshots\<close>

text \<open>
  \<open>create_shm\<close>, \<open>get_shm\<close>, \<open>get_shm_if_exist\<close> and \<open>shm_unlink\<close> on the named objects; the calls
  of the system behind them succeed.
\<close>

definition PATH_MAX :: nat where
  "PATH_MAX = 4096"

definition create_shm :: "string \<Rightarrow> shm_object \<Rightarrow> (unit, 'w) lib" where
  "create_shm shm_name x = modifyM (\<lambda>s. s\<lparr>c_shm := (c_shm s)(shm_name \<mapsto> x)\<rparr>)"

definition get_shm :: "string \<Rightarrow> (shm_object, 'w) lib" where
  "get_shm shm_name = bindM (getsM (\<lambda>s. c_shm s shm_name)) (optM ErrExit)"

definition get_shm_if_exist :: "string \<Rightarrow> (shm_object option, 'w) lib" where
  "get_shm_if_exist shm_name = getsM (\<lambda>s. c_shm s shm_name)"

definition unlink_shm :: "string \<Rightarrow> (unit, 'w) lib" where
  "unlink_shm shm_name =
     bindM (getsM (\<lambda>s. c_shm s shm_name)) (\<lambda>x.
       case x of None \<Rightarrow> failM ErrExit | Some _ \<Rightarrow> modifyM (\<lambda>s. s\<lparr>c_shm := (c_shm s)(shm_name := None)\<rparr>))"

definition snapshot_name :: "int \<Rightarrow> string" where
  "snapshot_name tid = ''capio_snapshot_'' @ show_int tid"

definition snapshot_fd_name :: "int \<Rightarrow> int \<Rightarrow> string" where
  "snapshot_fd_name tid fd = ''capio_snapshot_'' @ show_int tid @ ''_'' @ show_int fd"

definition snapshot_path_name :: "int \<Rightarrow> int \<Rightarrow> string" where
  "snapshot_path_name tid fd = ''capio_snapshot_path_'' @ show_int tid @ ''_'' @ show_int fd"

definition get_fd_snapshot :: "int \<Rightarrow> (int list option, 'w) lib" where
  "get_fd_snapshot tid =
     bindM (get_shm_if_exist (snapshot_name tid)) (\<lambda>x.
       returnM (case x of Some (Shm_numbers fds) \<Rightarrow> Some fds | _ \<Rightarrow> None))"

definition snapshot_fd :: "int \<Rightarrow> int \<Rightarrow> (unit, 'w) lib" where
  "snapshot_fd tid fd =
     bindM (get_capio_fd_offset fd) (\<lambda>off. bindM (get_capio_fd_size fd) (\<lambda>sz.
     bindM (get_capio_fd_flags fd) (\<lambda>fl. bindM (get_capio_fd_cloexec fd) (\<lambda>ce.
       thenM (create_shm (snapshot_fd_name tid fd) (Shm_numbers [fd, off, sz, fl, if ce then 1 else 0]))
         (bindM (get_capio_fd_path fd) (\<lambda>p.
            if length p < PATH_MAX then create_shm (snapshot_path_name tid fd) (Shm_text p)
            else failM OutOfBounds))))))"

definition create_snapshot :: "int \<Rightarrow> (unit, 'w) lib" where
  "create_snapshot tid =
     bindM get_capio_fds (\<lambda>fds.
       if fds = [] then returnM ()
       else thenM (forM (snapshot_fd tid) fds) (create_shm (snapshot_name tid) (Shm_numbers (fds @ [- 1]))))"

text \<open>
  The mapping of the path is removed before \<open>add_capio_fd\<close> reads the path through it: \<open>path_shm\<close>
  is a pointer to memory that is no longer there.
\<close>

definition read_unmapped :: "shm_object \<Rightarrow> (string, 'w) lib" where
  "read_unmapped path_shm = failM Dangling"

definition restore_fd :: "int \<Rightarrow> int \<Rightarrow> (unit, 'w) lib" where
  "restore_fd tid fd =
     bindM (get_shm (snapshot_path_name tid fd)) (\<lambda>path_shm.
     thenM (unlink_shm (snapshot_path_name tid fd))
    (bindM (get_shm (snapshot_fd_name tid fd)) (\<lambda>p_shm.
       case p_shm of
         Shm_numbers (_ # off # sz # fl # ce # _) \<Rightarrow>
           bindM (read_unmapped path_shm) (\<lambda>p.
           thenM (add_capio_fd p fd off sz fl (ce \<noteq> 0))
                 (unlink_shm (snapshot_fd_name tid fd)))
       | _ \<Rightarrow> failM OutOfBounds)))"

fun initialize_from_snapshot :: "int list \<Rightarrow> int \<Rightarrow> (unit, 'w) lib" where
  "initialize_from_snapshot [] tid = failM OutOfBounds"
| "initialize_from_snapshot (fd # fds) tid =
     (if fd \<noteq> - 1 then thenM (restore_fd tid fd) (initialize_from_snapshot fds tid)
      else unlink_shm (snapshot_name tid))"

definition posix_execve_handler :: "(outcome, 'w) lib" where
  "posix_execve_handler = withTid (\<lambda>tid. thenM (create_snapshot tid) (returnM skipped))"

section \<open>Threads\<close>

definition get_capio_app_name :: "'w host \<Rightarrow> string" where
  "get_capio_app_name H = (case h_app_name H of None \<Rightarrow> CAPIO_DEFAULT_APP_NAME | Some n \<Rightarrow> n)"

definition init_client :: "'w host \<Rightarrow> int \<Rightarrow> (unit, 'w) lib" where
  "init_client H tid = onWorld (\<lambda>w. ((), h_connect H tid w))"

definition initialize_new_thread :: "'w host \<Rightarrow> bool \<Rightarrow> (unit, 'w) lib" where
  "initialize_new_thread H wait =
     bindM (askWorld (h_gettid H)) (\<lambda>tid.
       thenM (modifyM (\<lambda>s. s\<lparr>c_tid := tid\<rparr>))
      (thenM (initialize_data_queues H)
      (thenM (init_client H tid)
             (handshake_named_request H tid (h_pid H) (get_capio_app_name H) wait))))"

definition hook_clone_parent :: "'w host \<Rightarrow> int \<Rightarrow> (unit, 'w) lib" where
  "hook_clone_parent H child_tid = withTid (\<lambda>tid. clone_request H tid child_tid)"

definition hook_clone_child :: "'w host \<Rightarrow> (unit, 'w) lib" where
  "hook_clone_child H = initialize_new_thread H True"

definition posix_fork_handler :: "'w host \<Rightarrow> (outcome, 'w) lib" where
  "posix_fork_handler H =
     bindM (onWorld (h_fork H)) (\<lambda>pid.
       if pid = 0 then thenM (initialize_new_thread H False) (returnM (handled 0))
       else returnM (handled pid))"

end
