(* ===== verification/Posix_Copy.thy ===== *)
theory Posix_Copy
  imports Posix_Syscalls
begin

text \<open>
  \<open>copy_file_range\<close> (\<open>posix/handlers/copy_file_range.hpp\<close>): between two CAPIO descriptors the
  server copies, otherwise the bytes pass through a buffer of one cache line.

  An end of the copy is the record the source has; the functions that move its position return
  it updated. The loop that asks the server has fuel, since it ends only if the server's
  answers are not negative; the other loops make progress in every round and are total.
\<close>

record cfr_end =
  ce_fd :: int
  ce_offset :: "off64 option"
  ce_is_capio :: bool
  ce_is_open :: bool
  ce_flags :: int
  ce_is_dir :: bool
  ce_is_regular :: bool
  ce_size :: off64
  ce_position :: off64
  ce_saved_fd_offset :: off64

definition isReadable :: "cfr_end \<Rightarrow> bool" where
  "isReadable e \<longleftrightarrow>
     (let mode = ce_flags e AND O_ACCMODE
      in ce_flags e AND O_PATH = 0 \<and> (mode = O_RDONLY \<or> mode = O_RDWR))"

definition isWritable :: "cfr_end \<Rightarrow> bool" where
  "isWritable e \<longleftrightarrow>
     (let mode = ce_flags e AND O_ACCMODE
      in ce_flags e AND O_PATH = 0 \<and> (mode = O_WRONLY \<or> mode = O_RDWR))"

definition end_default :: "int \<Rightarrow> off64 option \<Rightarrow> bool \<Rightarrow> cfr_end" where
  "end_default fd offset is_capio =
     \<lparr>ce_fd = fd, ce_offset = offset, ce_is_capio = is_capio, ce_is_open = False, ce_flags = 0,
      ce_is_dir = False, ce_is_regular = False, ce_size = 0, ce_position = 0, ce_saved_fd_offset = 0\<rparr>"

definition capio_copy_file_range_end :: "'w host \<Rightarrow> int \<Rightarrow> off64 option \<Rightarrow> int \<Rightarrow> (cfr_end, 'w) lib" where
  "capio_copy_file_range_end H fd offset tid =
     bindM (exists_capio_fd fd) (\<lambda>is_capio.
       if is_capio then
         thenM (WriteCache_flush H)
        (bindM (fstat_request H fd tid) (\<lambda>(file_size, is_dir).
         bindM (get_capio_fd_flags fd) (\<lambda>flags.
         bindM (get_capio_fd_offset fd) (\<lambda>saved.
           returnM ((end_default fd offset True)\<lparr>ce_is_open := True, ce_flags := flags, ce_is_dir := (is_dir \<noteq> 0),
             ce_is_regular := (is_dir = 0), ce_size := (if file_size < 0 then 0 else file_size),
             ce_saved_fd_offset := saved, ce_position := (case offset of None \<Rightarrow> saved | Some v \<Rightarrow> v)\<rparr>)))))
       else
         bindM (onWorld (h_fcntl H fd 3 0)) (\<lambda>flags.
         bindM (askWorld (h_fstat H fd)) (\<lambda>statbuf.
           if flags < 0 \<or> statbuf = None then returnM (end_default fd offset False)
           else bindM (case offset of Some v \<Rightarrow> returnM v | None \<Rightarrow> onWorld (h_lseek H fd 0 SEEK_CUR)) (\<lambda>position.
             returnM ((end_default fd offset False)\<lparr>ce_is_open := True, ce_flags := flags,
               ce_is_dir := ks_dir (the statbuf), ce_is_regular := ks_reg (the statbuf),
               ce_size := ks_size (the statbuf), ce_position := position\<rparr>)))))"

definition capio_copy_file_range_seek :: "'w host \<Rightarrow> cfr_end \<Rightarrow> int \<Rightarrow> (unit, 'w) lib" where
  "capio_copy_file_range_seek H e tid =
     bindM (get_capio_fd_offset (ce_fd e)) (\<lambda>off.
       whenM (off \<noteq> ce_position e) (capio_set_fd_offset H (ce_fd e) (ce_position e) tid))"

definition capio_copy_file_range_read ::
    "'w host \<Rightarrow> cfr_end \<Rightarrow> off64 \<Rightarrow> int \<Rightarrow> (off64 \<times> cell list \<times> cfr_end, 'w) lib" where
  "capio_copy_file_range_read H e count tid =
     (if ce_is_capio e then
        thenM (capio_copy_file_range_seek H e tid)
       (bindM (capio_cached_read H (ce_fd e) count) (\<lambda>(bytes_read, xs).
          returnM (bytes_read, xs, e\<lparr>ce_position := ce_position e + bytes_read\<rparr>)))
      else if ce_offset e \<noteq> None then
        bindM (onWorld (h_read H (ce_fd e) (Some (ce_position e)) count)) (\<lambda>(bytes_read, xs).
          returnM (bytes_read, xs,
                   if 0 < bytes_read then e\<lparr>ce_position := ce_position e + bytes_read\<rparr> else e))
      else bindM (onWorld (h_read H (ce_fd e) None count)) (\<lambda>(bytes_read, xs). returnM (bytes_read, xs, e)))"

definition capio_copy_file_range_write :: "'w host \<Rightarrow> cfr_end \<Rightarrow> cell list \<Rightarrow> int \<Rightarrow> (off64 \<times> cfr_end, 'w) lib" where
  "capio_copy_file_range_write H e buffer tid =
     (if ce_is_capio e then
        thenM (capio_copy_file_range_seek H e tid)
       (thenM (capio_cached_write H (ce_fd e) buffer)
              (returnM (int (length buffer), e\<lparr>ce_position := ce_position e + int (length buffer)\<rparr>)))
      else if ce_offset e \<noteq> None then
        bindM (onWorld (h_write H (ce_fd e) (Some (ce_position e)) buffer)) (\<lambda>bytes_written.
          returnM (bytes_written,
                   if 0 < bytes_written then e\<lparr>ce_position := ce_position e + bytes_written\<rparr> else e))
      else bindM (onWorld (h_write H (ce_fd e) None buffer)) (\<lambda>bytes_written. returnM (bytes_written, e)))"

text \<open>The bytes not written yet; the result is the number written, the error or 0, and the end.\<close>

function (sequential) capio_copy_file_range_write_all ::
    "'w host \<Rightarrow> cfr_end \<Rightarrow> cell list \<Rightarrow> off64 \<Rightarrow> int \<Rightarrow> (off64 \<times> off64 \<times> cfr_end, 'w) lib" where
  "capio_copy_file_range_write_all H e [] bytes_written tid = returnM (bytes_written, 0, e)"
| "capio_copy_file_range_write_all H e (b # bs) bytes_written tid =
     bindM (capio_copy_file_range_write H e (b # bs) tid) (\<lambda>(res, e').
       if res \<le> 0 then returnM (bytes_written, if res = 0 then - EIO else res, e')
       else capio_copy_file_range_write_all H e' (drop (nat res) (b # bs)) (bytes_written + res) tid)"
  by pat_completeness auto

termination
  by (relation "measure (\<lambda>(H, e, bs, n, tid). length bs)") auto

definition capio_copy_file_range_unread :: "'w host \<Rightarrow> cfr_end \<Rightarrow> off64 \<Rightarrow> (cfr_end, 'w) lib" where
  "capio_copy_file_range_unread H e count =
     (if ce_is_capio e \<or> ce_offset e \<noteq> None then returnM (e\<lparr>ce_position := ce_position e - count\<rparr>)
      else bindM (onWorld (h_lseek H (ce_fd e) (- count) SEEK_CUR)) (\<lambda>_. returnM e))"

definition capio_copy_file_range_finish :: "'w host \<Rightarrow> cfr_end \<Rightarrow> off64 \<Rightarrow> int \<Rightarrow> (off64 option, 'w) lib" where
  "capio_copy_file_range_finish H e copied tid =
     (case ce_offset e of
        Some v \<Rightarrow>
          thenM (whenM (ce_is_capio e)
                   (capio_copy_file_range_seek H (e\<lparr>ce_position := ce_saved_fd_offset e\<rparr>) tid))
                (returnM (Some (v + copied)))
      | None \<Rightarrow> thenM (whenM (ce_is_capio e) (capio_copy_file_range_seek H e tid)) (returnM None))"

text \<open>The loop on the server's answers; without fuel it does not return.\<close>

fun on_server_loop ::
    "nat \<Rightarrow> 'w host \<Rightarrow> cfr_end \<Rightarrow> cfr_end \<Rightarrow> off64 \<Rightarrow> off64 \<Rightarrow> int \<Rightarrow> (off64 \<times> cfr_end \<times> cfr_end, 'w) lib" where
  "on_server_loop 0 H i e copied count tid = failM Blocked"
| "on_server_loop (Suc fuel) H i e copied count tid =
     (if copied < count then
        bindM (copy_file_range_request H (ce_fd i) (ce_fd e) (ce_position i) (ce_position e) (count - copied) tid)
          (\<lambda>bytes_copied.
             if bytes_copied = 0 then returnM (copied, i, e)
             else on_server_loop fuel H (i\<lparr>ce_position := ce_position i + bytes_copied\<rparr>)
                    (e\<lparr>ce_position := ce_position e + bytes_copied\<rparr>) (copied + bytes_copied) count tid)
      else returnM (copied, i, e))"

definition capio_copy_file_range_on_server ::
    "nat \<Rightarrow> 'w host \<Rightarrow> cfr_end \<Rightarrow> cfr_end \<Rightarrow> off64 \<Rightarrow> int \<Rightarrow> (off64 \<times> cfr_end \<times> cfr_end, 'w) lib" where
  "capio_copy_file_range_on_server fuel H i e count tid =
     thenM (WriteCache_flush H) (thenM (ReadCache_flush H) (on_server_loop fuel H i e 0 count tid))"

text \<open>
  The loop over chunks, on the number of bytes left. A chunk read is at most the bytes left, and
  a round that does not end the loop writes all of a chunk of at least one byte.
\<close>

function (sequential) through_buffer_loop ::
    "'w host \<Rightarrow> cfr_end \<Rightarrow> cfr_end \<Rightarrow> off64 \<Rightarrow> off64 \<Rightarrow> off64 \<Rightarrow> int \<Rightarrow> (off64 \<times> off64 \<times> cfr_end \<times> cfr_end, 'w) lib" where
  "through_buffer_loop H i e copied count chunk_size tid =
     (if copied < count then
        bindM (capio_copy_file_range_read H i (min (count - copied) chunk_size) tid) (\<lambda>(bytes_read, xs, i').
          if bytes_read = 0 then returnM (copied, 0, i', e)
          else if bytes_read < 0 then returnM (copied, bytes_read, i', e)
          else bindM (capio_copy_file_range_write_all H e (take (nat bytes_read) xs) 0 tid)
            (\<lambda>(bytes_written, error, e').
               if bytes_written < bytes_read then
                 bindM (capio_copy_file_range_unread H i' (bytes_read - bytes_written)) (\<lambda>i''.
                   returnM (copied + bytes_written, error, i'', e'))
               else through_buffer_loop H i' e' (copied + bytes_written) count chunk_size tid))
      else returnM (copied, 0, i, e))"
  by pat_completeness auto

termination
  by (relation "measure (\<lambda>(H, i, e, copied, count, chunk_size, tid). nat (count - copied))") auto

declare through_buffer_loop.simps [simp del]

definition capio_copy_file_range_through_buffer ::
    "'w host \<Rightarrow> cfr_end \<Rightarrow> cfr_end \<Rightarrow> off64 \<Rightarrow> int \<Rightarrow> (off64 \<times> off64 \<times> cfr_end \<times> cfr_end, 'w) lib" where
  "capio_copy_file_range_through_buffer H i e count tid =
     (let chunk_size = min count (int (h_cache_line_size H))
      in bindM (onWorld (h_mmap H chunk_size)) (\<lambda>mapping.
           if mapping < 0 then returnM (0, - ENOMEM, i, e)
           else through_buffer_loop H i e 0 count chunk_size tid))"

text \<open>
  The checks before a copy: \<open>Some\<close> is the error number. The two ranges must not wrap in 64 bits,
  and ranges of one file must not overlap.
\<close>

definition range_wraps :: "off64 \<Rightarrow> 64 word \<Rightarrow> bool" where
  "range_wraps position len \<longleftrightarrow> word_of_int position + len < word_of_int position"

definition copy_ends_check :: "cfr_end \<Rightarrow> cfr_end \<Rightarrow> 64 word \<Rightarrow> int option" where
  "copy_ends_check i e len =
     (if ce_is_dir i \<or> ce_is_dir e then Some EISDIR
      else if \<not> ce_is_regular i \<or> \<not> ce_is_regular e then Some EINVAL
      else if \<not> isReadable i then Some EBADF
      else if \<not> isWritable e \<or> ce_flags e AND O_APPEND \<noteq> 0 then Some EBADF
      else if range_wraps (ce_position i) len \<or> range_wraps (ce_position e) len then Some EOVERFLOW
      else if ce_position i < 0 \<or> ce_position e < 0 then Some EINVAL
      else None)"

definition ranges_overlap :: "cfr_end \<Rightarrow> cfr_end \<Rightarrow> 64 word \<Rightarrow> bool" where
  "ranges_overlap i e len =
     (let overlap_count = (if ce_size i \<le> ce_position i then 0 else min (uint len) (ce_size i - ce_position i))
      in ce_position i < ce_position e + overlap_count \<and> ce_position e < ce_position i + overlap_count)"

definition same_capio_file :: "cfr_end \<Rightarrow> cfr_end \<Rightarrow> (bool, 'w) lib" where
  "same_capio_file i e =
     (if ce_is_capio i \<and> ce_is_capio e then
        bindM (get_capio_fd_path (ce_fd i)) (\<lambda>p. bindM (get_capio_fd_path (ce_fd e)) (\<lambda>q. returnM (p = q)))
      else returnM False)"

text \<open>The copy itself and the offsets after it.\<close>

definition copy_and_finish ::
    "nat \<Rightarrow> 'w host \<Rightarrow> cfr_end \<Rightarrow> cfr_end \<Rightarrow> off64 \<Rightarrow> int \<Rightarrow> (off64 \<times> off64 option \<times> off64 option, 'w) lib" where
  "copy_and_finish fuel H i e count tid =
     bindM
       (if ce_is_capio i \<and> ce_is_capio e then
          bindM (capio_copy_file_range_on_server fuel H i e count tid) (\<lambda>(copied, i', e').
            returnM (copied, 0, i', e'))
        else capio_copy_file_range_through_buffer H i e count tid)
       (\<lambda>(copied, error, i', e').
          bindM (if ce_offset i' = None then
                   bindM (capio_copy_file_range_finish H e' copied tid) (\<lambda>b.
                   bindM (capio_copy_file_range_finish H i' copied tid) (\<lambda>a. returnM (a, b)))
                 else
                   bindM (capio_copy_file_range_finish H i' copied tid) (\<lambda>a.
                   bindM (capio_copy_file_range_finish H e' copied tid) (\<lambda>b. returnM (a, b))))
            (\<lambda>(a, b).
               if copied = 0 \<and> error < 0 then bindM (fail_errno (- error)) (\<lambda>r. returnM (r, a, b))
               else returnM (copied, a, b)))"

definition capio_copy_file_range ::
    "nat \<Rightarrow> 'w host \<Rightarrow> int \<Rightarrow> off64 option \<Rightarrow> int \<Rightarrow> off64 option \<Rightarrow> 64 word \<Rightarrow> int \<Rightarrow> int
      \<Rightarrow> (off64 \<times> off64 option \<times> off64 option, 'w) lib" where
  "capio_copy_file_range fuel H fd_in off_in fd_out off_out len flags tid =
     (let fails = (\<lambda>e. bindM (fail_errno e) (\<lambda>r. returnM (r, off_in, off_out)))
      in bindM (exists_capio_fd fd_in) (\<lambda>a. bindM (exists_capio_fd fd_out) (\<lambda>b.
        if \<not> a \<and> \<not> b then returnM (CAPIO_POSIX_SYSCALL_REQUEST_SKIP, off_in, off_out)
        else if flags \<noteq> 0 then fails EINVAL
        else bindM (capio_copy_file_range_end H fd_in off_in tid) (\<lambda>i.
          if \<not> ce_is_open i then fails EBADF
          else bindM (capio_copy_file_range_end H fd_out off_out tid) (\<lambda>e.
            if \<not> ce_is_open e then fails EBADF
            else case copy_ends_check i e len of
                   Some er \<Rightarrow> fails er
                 | None \<Rightarrow>
                     if len = 0 then returnM (0, off_in, off_out)
                     else bindM (same_capio_file i e) (\<lambda>same.
                       if same \<and> ranges_overlap i e len then fails EINVAL
                       else copy_and_finish fuel H i e (min (uint len) (capio_max_rw_count H)) tid))))))"

definition posix_copy_file_range_handler ::
    "nat \<Rightarrow> 'w host \<Rightarrow> int \<Rightarrow> off64 option \<Rightarrow> int \<Rightarrow> off64 option \<Rightarrow> 64 word \<Rightarrow> int \<Rightarrow> (outcome, 'w) lib" where
  "posix_copy_file_range_handler fuel H fd_in off_in fd_out off_out len flags =
     withTid (\<lambda>tid. bindM (capio_copy_file_range fuel H fd_in off_in fd_out off_out len flags tid) (\<lambda>(r, a, b).
       posix_return_value r (Out_offsets a b)))"

end
