(* ===== verification/Posix_Hook.thy ===== *)
theory Posix_Hook
  imports Posix_Copy
begin

text \<open>
  The entry points of \<open>libcapio_posix.cpp\<close>: the table of handlers, the hook that every system
  call passes, and the constructor of the library.

  A system call is a constructor of \<open>syscall\<close> with the arguments the handler uses. \<open>chmod\<close> and
  \<open>fchmodat\<close> share the handler of \<open>fchmod\<close>, which takes the first argument for a descriptor; so
  do the calls that change the owner.
\<close>

datatype (plugins only: size) syscall =
    Sys_access path
  | Sys_faccessat int path
  | Sys_chdir path
  | Sys_chmod int
  | Sys_chown int
  | Sys_close int
  | Sys_copy_file_range int "off64 option" int "off64 option" "64 word" int
  | Sys_creat path
  | Sys_dup int
  | Sys_dup2 int int
  | Sys_dup3 int int int
  | Sys_execve
  | Sys_exit
  | Sys_fcntl int int int "flock option" "int option"
  | Sys_fgetxattr int string
  | Sys_getxattr
  | Sys_fork
  | Sys_fstat int
  | Sys_fstatfs int
  | Sys_getcwd int
  | Sys_getdents int off64
  | Sys_getdents64 int off64
  | Sys_ioctl int
  | Sys_lseek int off64 int
  | Sys_lstat path
  | Sys_mkdir path
  | Sys_mkdirat int path
  | Sys_newfstatat int path int
  | Sys_open path int
  | Sys_openat int path int
  | Sys_read int off64
  | Sys_readv int "off64 list"
  | Sys_rename path path
  | Sys_renameat int path int path
  | Sys_renameat2 int path int path
  | Sys_rmdir path
  | Sys_sendfile int int
  | Sys_splice int int
  | Sys_stat path
  | Sys_statx int path int
  | Sys_unlink path
  | Sys_unlinkat int path int
  | Sys_write int "cell list"
  | Sys_writev int "cell list list"
  | Sys_futex
  | Sys_other

definition not_handled_handler :: "(outcome, 'w) lib" where
  "not_handled_handler = returnM \<lparr>o_return = 1, o_result = None, o_out = Out_none\<rparr>"

definition not_implemented_handler :: "(outcome, 'w) lib" where
  "not_implemented_handler = thenM (set_errno ENOTSUP) handled_errno"

primrec syscall_table :: "nat \<Rightarrow> 'w host \<Rightarrow> syscall \<Rightarrow> (outcome, 'w) lib" where
  "syscall_table fuel H (Sys_access p) = posix_access_handler H p"
| "syscall_table fuel H (Sys_faccessat d p) = posix_faccessat_handler H d p"
| "syscall_table fuel H (Sys_chdir p) = posix_chdir_handler H p"
| "syscall_table fuel H (Sys_chmod a) = posix_fchmod_handler a"
| "syscall_table fuel H (Sys_chown a) = posix_fchown_handler a"
| "syscall_table fuel H (Sys_close fd) = posix_close_handler H fd"
| "syscall_table fuel H (Sys_copy_file_range i oi e oe len fl) = posix_copy_file_range_handler fuel H i oi e oe len fl"
| "syscall_table fuel H (Sys_creat p) = posix_creat_handler H p"
| "syscall_table fuel H (Sys_dup fd) = posix_dup_handler H fd"
| "syscall_table fuel H (Sys_dup2 fd fd2) = posix_dup2_handler H fd fd2"
| "syscall_table fuel H (Sys_dup3 fd fd2 fl) = posix_dup3_handler H fd fd2 fl"
| "syscall_table fuel H Sys_execve = posix_execve_handler"
| "syscall_table fuel H Sys_exit = posix_exit_handler H"
| "syscall_table fuel H (Sys_fcntl fd cmd a lock hint) = posix_fcntl_handler H fd cmd a lock hint"
| "syscall_table fuel H (Sys_fgetxattr fd name) = posix_fgetxattr_handler fd name"
| "syscall_table fuel H Sys_getxattr = not_implemented_handler"
| "syscall_table fuel H Sys_fork = posix_fork_handler H"
| "syscall_table fuel H (Sys_fstat fd) = posix_fstat_handler H fd"
| "syscall_table fuel H (Sys_fstatfs fd) = posix_fstatfs_handler H fd"
| "syscall_table fuel H (Sys_getcwd n) = posix_getcwd_handler H n"
| "syscall_table fuel H (Sys_getdents fd n) = posix_getdents_handler H fd n"
| "syscall_table fuel H (Sys_getdents64 fd n) = posix_getdents64_handler H fd n"
| "syscall_table fuel H (Sys_ioctl fd) = posix_ioctl_handler fd"
| "syscall_table fuel H (Sys_lseek fd off wh) = posix_lseek_handler H fd off wh"
| "syscall_table fuel H (Sys_lstat p) = posix_lstat_handler H p"
| "syscall_table fuel H (Sys_mkdir p) = posix_mkdir_handler H p"
| "syscall_table fuel H (Sys_mkdirat d p) = posix_mkdirat_handler H d p"
| "syscall_table fuel H (Sys_newfstatat d p fl) = posix_fstatat_handler H d p fl"
| "syscall_table fuel H (Sys_open p fl) = posix_open_handler H p fl"
| "syscall_table fuel H (Sys_openat d p fl) = posix_openat_handler H d p fl"
| "syscall_table fuel H (Sys_read fd n) = posix_read_handler H fd n"
| "syscall_table fuel H (Sys_readv fd iov) = posix_readv_handler H fd iov"
| "syscall_table fuel H (Sys_rename p q) = posix_rename_handler H p q"
| "syscall_table fuel H (Sys_renameat d p e q) = posix_renameat_handler H d p e q"
| "syscall_table fuel H (Sys_renameat2 d p e q) = posix_renameat2_handler H d p e q"
| "syscall_table fuel H (Sys_rmdir p) = posix_rmdir_handler H p"
| "syscall_table fuel H (Sys_sendfile e i) = posix_sendfile_handler e i"
| "syscall_table fuel H (Sys_splice i e) = posix_splice_handler i e"
| "syscall_table fuel H (Sys_stat p) = posix_stat_handler H p"
| "syscall_table fuel H (Sys_statx d p fl) = posix_statx_handler H d p fl"
| "syscall_table fuel H (Sys_unlink p) = posix_unlink_handler H p"
| "syscall_table fuel H (Sys_unlinkat d p fl) = posix_unlinkat_handler H d p fl"
| "syscall_table fuel H (Sys_write fd xs) = posix_write_handler H fd xs"
| "syscall_table fuel H (Sys_writev fd iov) = posix_writev_handler H fd iov"
| "syscall_table fuel H Sys_futex = not_handled_handler"
| "syscall_table fuel H Sys_other = not_handled_handler"

text \<open>
  The hook: calls made while \<open>syscall_no_intercept_flag\<close> is set, and all calls of a process
  without \<open>CAPIO_DIR\<close>, go to the kernel; an exception of a handler ends the process.
\<close>

definition hook :: "nat \<Rightarrow> 'w host \<Rightarrow> bool \<Rightarrow> string option \<Rightarrow> syscall \<Rightarrow> (outcome, 'w) lib" where
  "hook fuel H no_intercept_flag capio_dir c s =
     (if c = Sys_futex \<or> no_intercept_flag \<or> c = Sys_other \<or> capio_dir = None then not_handled_handler s
      else case syscall_table fuel H c s of
             Inl (Throws e) \<Rightarrow> Inl ErrExit
           | r \<Rightarrow> r)"

definition init :: "'w host \<Rightarrow> (unit, 'w) lib" where
  "init H =
     bindM (askWorld (h_gettid H)) (\<lambda>tid.
       thenM (init_client H tid)
      (thenM (init_filesystem H)
      (thenM (initialize_new_thread H False)
      (bindM (get_fd_snapshot tid) (\<lambda>fd_shm.
         case fd_shm of None \<Rightarrow> returnM () | Some fds \<Rightarrow> initialize_from_snapshot fds tid)))))"

end
