(* ===== verification/Session.thy ===== *)
theory Session
  imports Posix_Hook
begin

text \<open>
  What an application sees of a file: the calls \<open>write\<close>, \<open>read\<close> and \<open>lseek\<close> on a descriptor, through
  the caches of the library, against an ideal file of bytes with a position.

  The library keeps bytes back in its write cache and reads ahead into its read cache, so that the
  offset of the server is ahead of, or behind, the one the application sees. The locale
  \<open>file_service\<close> states what it relies on from the other side of the queues: the answers to the
  seek, read and write requests for one descriptor. In it, every call answers as the ideal file
  does.
\<close>

section \<open>Runs that may end with a fault of the other side\<close>

definition runsM :: "(fault \<Rightarrow> bool) \<Rightarrow> ('s \<Rightarrow> bool) \<Rightarrow> ('a, 's) comp \<Rightarrow> ('a \<Rightarrow> 's \<Rightarrow> bool) \<Rightarrow> bool" where
  "runsM bad P m Q \<longleftrightarrow> (\<forall>s. P s \<longrightarrow> (case m s of Inl e \<Rightarrow> bad e | Inr (x, t) \<Rightarrow> Q x t))"

lemma runsMI: "(\<And>s. P s \<Longrightarrow> (case m s of Inl e \<Rightarrow> bad e | Inr (x, t) \<Rightarrow> Q x t)) \<Longrightarrow> runsM bad P m Q"
  by (simp add: runsM_def)

lemma runsMD: "runsM bad P m Q \<Longrightarrow> P s \<Longrightarrow> (case m s of Inl e \<Rightarrow> bad e | Inr (x, t) \<Rightarrow> Q x t)"
  by (simp add: runsM_def)

lemma runs_bind: "runsM bad P m R \<Longrightarrow> (\<And>x. runsM bad (R x) (k x) Q) \<Longrightarrow> runsM bad P (bindM m k) Q"
  unfolding runsM_def bindM_def by (fastforce split: sum.splits)

lemma runs_then: "runsM bad P m (\<lambda>_. R) \<Longrightarrow> runsM bad R k Q \<Longrightarrow> runsM bad P (thenM m k) Q"
  unfolding thenM_def by (rule runs_bind)

lemma runs_return: "(\<And>s. P s \<Longrightarrow> Q x s) \<Longrightarrow> runsM bad P (returnM x) Q"
  by (simp add: runsM_def returnM_def)

lemma runs_gets: "(\<And>s. P s \<Longrightarrow> Q (g s) s) \<Longrightarrow> runsM bad P (getsM g) Q"
  by (simp add: runsM_def getsM_def)

lemma runs_modify: "(\<And>s. P s \<Longrightarrow> Q () (g s)) \<Longrightarrow> runsM bad P (modifyM g) Q"
  by (simp add: runsM_def modifyM_def)

lemma runs_bind_gets: "(\<And>s. P s \<Longrightarrow> g s = v) \<Longrightarrow> runsM bad P (k v) Q \<Longrightarrow> runsM bad P (bindM (getsM g) k) Q"
  by (simp add: runsM_def bindM_def getsM_def)

lemma runs_pre: "runsM bad P m Q \<Longrightarrow> (\<And>s. P' s \<Longrightarrow> P s) \<Longrightarrow> runsM bad P' m Q"
  by (simp add: runsM_def)

lemma runs_post: "runsM bad P m Q \<Longrightarrow> (\<And>x s. Q x s \<Longrightarrow> Q' x s) \<Longrightarrow> runsM bad P m Q'"
  unfolding runsM_def by (fastforce split: sum.splits)

lemma runs_case: "(\<And>s. P s \<Longrightarrow> runsM bad (\<lambda>t. t = s) m Q) \<Longrightarrow> runsM bad P m Q"
  by (simp add: runsM_def)

lemma runs_when: "(b \<Longrightarrow> runsM bad P m (\<lambda>_. Q)) \<Longrightarrow> (\<not> b \<Longrightarrow> (\<And>s. P s \<Longrightarrow> Q s)) \<Longrightarrow> runsM bad P (whenM b m) (\<lambda>_. Q)"
  by (cases b) (simp_all add: whenM_def runs_return)

section \<open>The ideal file\<close>

definition store :: "(off64 \<rightharpoonup> cell) \<Rightarrow> off64 \<Rightarrow> cell list \<Rightarrow> (off64 \<rightharpoonup> cell)" where
  "store a p xs x = (if p \<le> x \<and> x < p + int (length xs) then Some (xs ! nat (x - p)) else a x)"

lemma store_Nil [simp]: "store a p [] = a"
  by (rule ext) (auto simp: store_def)

lemma store_append: "store (store a p xs) (p + int (length xs)) ys = store a p (xs @ ys)"
proof
  fix x
  show "store (store a p xs) (p + int (length xs)) ys x = store a p (xs @ ys) x"
  proof (cases "p + int (length xs) \<le> x")
    case True
    then have "nat (x - p) - length xs = nat (x - (p + int (length xs)))" "\<not> nat (x - p) < length xs" by linarith+
    then show ?thesis using True by (simp add: store_def nth_append)
  next
    case False
    then have "x < p + int (length xs)" by simp
    then have "p \<le> x \<Longrightarrow> nat (x - p) < length xs" by linarith
    then show ?thesis using False by (simp add: store_def nth_append)
  qed
qed

text \<open>Bytes that agree with what is known of the file from an offset on.\<close>

definition agrees :: "(off64 \<rightharpoonup> cell) \<Rightarrow> off64 \<Rightarrow> cell list \<Rightarrow> bool" where
  "agrees a p ys \<longleftrightarrow> (\<forall>k < length ys. \<forall>b. a (p + int k) = Some b \<longrightarrow> ys ! k = b)"

definition contents :: "(off64 \<rightharpoonup> cell) \<Rightarrow> off64 \<Rightarrow> nat \<Rightarrow> cell list" where
  "contents a p n = map (\<lambda>k. the (a (p + int k))) [0..<n]"

lemma agrees_take: "agrees a p ys \<Longrightarrow> agrees a p (take n ys)"
  by (simp add: agrees_def)

lemma agrees_drop: "agrees a p ys \<Longrightarrow> agrees a (p + int n) (drop n ys)"
  by (auto simp: agrees_def add.assoc simp flip: of_nat_add)

lemma agrees_append: "agrees a p xs \<Longrightarrow> agrees a (p + int (length xs)) ys \<Longrightarrow> agrees a p (xs @ ys)"
  unfolding agrees_def
proof (intro allI impI)
  fix k b
  assume xs: "\<forall>k < length xs. \<forall>b. a (p + int k) = Some b \<longrightarrow> xs ! k = b"
    and ys: "\<forall>k < length ys. \<forall>b. a (p + int (length xs) + int k) = Some b \<longrightarrow> ys ! k = b"
    and k: "k < length (xs @ ys)" and b: "a (p + int k) = Some b"
  show "(xs @ ys) ! k = b"
  proof (cases "k < length xs")
    case False
    have "p + int (length xs) + int (k - length xs) = p + int k" using False by simp
    then show ?thesis using ys k b False by (simp add: nth_append)
  qed (use xs b in \<open>simp add: nth_append\<close>)
qed

lemma agrees_contents:
  assumes "agrees a p ys" and "{p..<p + int (length ys)} \<subseteq> dom a"
  shows "ys = contents a p (length ys)"
proof (rule nth_equalityI)
  fix k assume k: "k < length ys"
  then have "p + int k \<in> dom a" by (intro subsetD [OF assms(2)]) simp
  then show "ys ! k = contents a p (length ys) ! k" using assms(1) k by (auto simp: agrees_def contents_def)
qed (simp add: contents_def)

text \<open>
  \<open>i_fresh\<close> holds after a call that leaves nothing in the read cache. A read of more than a line is
  right only then.
\<close>

record ideal =
  i_bytes :: "off64 \<rightharpoonup> cell"
  i_pos :: off64
  i_fresh :: bool

definition ideal_seek :: "off64 \<Rightarrow> ideal \<Rightarrow> outcome \<times> ideal" where
  "ideal_seek off f =
     (if 0 \<le> off then (handled off, f\<lparr>i_pos := off, i_fresh := True\<rparr>)
      else (handled (- EINVAL), f\<lparr>i_fresh := True\<rparr>))"

definition ideal_call :: "syscall \<Rightarrow> ideal \<Rightarrow> outcome \<times> ideal" where
  "ideal_call c f =
     (case c of
        Sys_write _ xs \<Rightarrow>
          (handled (int (length xs)),
           f\<lparr>i_bytes := store (i_bytes f) (i_pos f) xs, i_pos := i_pos f + int (length xs), i_fresh := True\<rparr>)
      | Sys_read _ n \<Rightarrow>
          (\<lparr>o_return = CAPIO_POSIX_SYSCALL_SUCCESS, o_result = Some n,
            o_out = Out_bytes (contents (i_bytes f) (i_pos f) (nat n))\<rparr>,
           f\<lparr>i_pos := i_pos f + n, i_fresh := False\<rparr>)
      | Sys_lseek _ off whence \<Rightarrow> ideal_seek (if whence = SEEK_SET then off else i_pos f + off) f
      | _ \<Rightarrow> (skipped, f))"

text \<open>
  The calls considered: transfers on the descriptor that stay below the largest offset, reads of
  bytes that were written, and seeks from the start or from the position.
\<close>

definition ideal_ok :: "int \<Rightarrow> nat \<Rightarrow> nat \<Rightarrow> syscall \<Rightarrow> ideal \<Rightarrow> bool" where
  "ideal_ok fd line room c f =
     (case c of
        Sys_write fd' xs \<Rightarrow> fd' = fd \<and> length xs \<le> max line room \<and> i_pos f + int (length xs) < SSIZE_MAX
      | Sys_read fd' n \<Rightarrow>
          fd' = fd \<and> 0 \<le> n \<and> i_pos f + n < SSIZE_MAX \<and> {i_pos f..<i_pos f + n} \<subseteq> dom (i_bytes f) \<and>
          (n \<le> int line \<or> i_fresh f)
      | Sys_lseek fd' off whence \<Rightarrow>
          fd' = fd \<and> (whence = SEEK_SET \<and> off < SSIZE_MAX \<or> whence = SEEK_CUR \<and> i_pos f + off < SSIZE_MAX)
      | _ \<Rightarrow> False)"

fun ideal_session :: "syscall list \<Rightarrow> ideal \<Rightarrow> outcome list \<times> ideal" where
  "ideal_session [] f = ([], f)"
| "ideal_session (c # cs) f =
     (case ideal_call c f of (r, g) \<Rightarrow> case ideal_session cs g of (rs, h) \<Rightarrow> (r # rs, h))"

fun ideal_session_ok :: "int \<Rightarrow> nat \<Rightarrow> nat \<Rightarrow> syscall list \<Rightarrow> ideal \<Rightarrow> bool" where
  "ideal_session_ok fd line room [] f = True"
| "ideal_session_ok fd line room (c # cs) f =
     (ideal_ok fd line room c f \<and> ideal_session_ok fd line room cs (snd (ideal_call c f)))"

text \<open>The same calls through the hook.\<close>

fun session :: "'w host \<Rightarrow> path \<Rightarrow> syscall list \<Rightarrow> (outcome list, 'w) lib" where
  "session H dir [] = returnM []"
| "session H dir (c # cs) =
     bindM (hook 0 H False (Some dir) c) (\<lambda>r. bindM (session H dir cs) (\<lambda>rs. returnM (r # rs)))"

section \<open>The other side of the queues\<close>

text \<open>
  \<open>serves w a p\<close>: in the world \<open>w\<close> nothing is under way for the thread, the file behind the
  descriptor has the bytes \<open>a\<close>, and perhaps more, and the offset of the server is \<open>p\<close>. \<open>fatal\<close> are
  the faults that end the server.
\<close>

locale file_service =
  fixes H :: "'w host" and tid fd :: int and room :: nat
    and serves :: "'w \<Rightarrow> (off64 \<rightharpoonup> cell) \<Rightarrow> off64 \<Rightarrow> bool" and fatal :: "fault \<Rightarrow> bool"
  assumes line_pos: "0 < h_cache_line_size H" and ids: "in_range 32 tid" "in_range 32 fd" "0 \<le> fd"
    and line_range: "in_range 64 (int (h_cache_line_size H))" and exits: "fatal (Throws c) \<Longrightarrow> fatal ErrExit"
    and seek: "serves w a p \<Longrightarrow> 0 \<le> off \<Longrightarrow> off < SSIZE_MAX \<Longrightarrow>
      \<exists>w1 w2. h_request H (request_text CAPIO_REQUEST_SEEK [IntA tid, IntA fd, IntA off]) w = Inr w1 \<and>
        h_response H tid w1 = Inr (off, w2) \<and> serves w2 a off"
    and read: "serves w a p \<Longrightarrow> 0 < n \<Longrightarrow> in_range 64 n \<Longrightarrow>
      \<exists>w1 w2 w3 ys. h_request H (request_text CAPIO_REQUEST_READ [IntA tid, IntA fd, IntA n]) w = Inr w1 \<and>
        h_response H tid w1 = Inr (p + int (length ys), w2) \<and> int (length ys) \<le> n \<and> agrees a p ys \<and>
        (\<forall>k. k \<le> n \<longrightarrow> {p..<p + k} \<subseteq> dom a \<longrightarrow> k \<le> int (length ys)) \<and>
        queue_read (h_read1 H tid) (h_cache_line_size H) (length ys) w2 = Some (ys, w3) \<and> serves w3 a (p + int (length ys)) \<and>
        (ys \<noteq> [] \<longrightarrow> length ys \<le> h_cache_line_size H \<longrightarrow>
          (\<exists>zs w4. h_read1 H tid (h_cache_line_size H) w2 = Some (ys @ zs, w4) \<and> serves w4 a (p + int (length ys))))"
    and reserve: "serves w a p \<Longrightarrow> \<exists>w1. h_reserve H tid w = Some w1 \<and> serves w1 a p"
    and commit: "serves w a p \<Longrightarrow> xs \<noteq> [] \<Longrightarrow> length xs \<le> h_cache_line_size H \<Longrightarrow>
      \<exists>w1. h_commit H tid xs w = Inr w1 \<and>
        (case h_request H (request_text CAPIO_REQUEST_WRITE [IntA tid, IntA fd, IntA (int (length xs))]) w1 of
           Inl e \<Rightarrow> fatal e | Inr w2 \<Rightarrow> serves w2 (store a p xs) (p + int (length xs)))"
    and direct: "serves w a p \<Longrightarrow> h_cache_line_size H < length xs \<Longrightarrow> length xs \<le> room \<Longrightarrow> in_range 64 (int (length xs)) \<Longrightarrow>
      (case h_request H (request_text CAPIO_REQUEST_WRITE [IntA tid, IntA fd, IntA (int (length xs))]) w of
         Inl e \<Rightarrow> fatal e
       | Inr w1 \<Rightarrow> \<exists>w2. queue_write (h_write1 H tid) (h_cache_line_size H) xs w1 = Some w2 \<and>
           (case h_wake H w2 of Inl e \<Rightarrow> fatal e | Inr w3 \<Rightarrow> serves w3 (store a p xs) (p + int (length xs))))"
begin

abbreviation "line \<equiv> int (h_cache_line_size H)"

text \<open>
  The thread at an offset with its caches, in a world with a property. \<open>waiting\<close> is the case in which
  the server has nothing under way.
\<close>

definition thread :: "off64 \<Rightarrow> read_cache \<Rightarrow> write_cache \<Rightarrow> ('w \<Rightarrow> bool) \<Rightarrow> 'w client \<Rightarrow> bool" where
  "thread off rc wc R s \<longleftrightarrow>
     c_tid s = tid \<and> c_read_cache s = rc \<and> c_write_cache s = wc \<and> R (c_world s) \<and> map_of (c_files s) (- 1) = None \<and>
     (\<exists>e. map_of (c_files s) fd = Some e \<and> fe_offset e < length (c_offsets s) \<and> c_offsets s ! fe_offset e = off)"

abbreviation "runs \<equiv> runsM fatal"

lemma runs_offset: "runs (thread off rc wc R) (get_capio_fd_offset fd) (\<lambda>v s. v = off \<and> thread off rc wc R s)"
  unfolding thread_def
  by (rule runsMI, elim conjE exE) (simp add: get_capio_fd_offset_def capio_fd_entry_def um_at_def monad_simps)

lemma runs_set_offset: "runs (thread off rc wc R) (set_capio_fd_offset fd n) (\<lambda>_. thread n rc wc R)"
  unfolding thread_def
  by (rule runsMI, elim conjE exE) (simp add: set_capio_fd_offset_def capio_fd_entry_def um_at_def monad_simps)

lemma runs_with_offset:
  "runs (thread off rc wc R) (k off) Q \<Longrightarrow> runs (thread off rc wc R) (bindM (get_capio_fd_offset fd) k) Q"
  by (rule runs_bind [OF runs_offset]) (auto simp: runsM_def)

lemma runs_exists: "runs (thread off rc wc R) (k True) Q \<Longrightarrow> runs (thread off rc wc R) (bindM (exists_capio_fd fd) k) Q"
  unfolding exists_capio_fd_def by (rule runs_bind_gets) (auto simp: thread_def)

lemma runs_set_rc: "runs (thread off rc wc R) (set_rc g) (\<lambda>_. thread off (g rc) wc R)"
  unfolding set_rc_def by (rule runs_modify) (auto simp: thread_def)

lemma runs_set_wc: "runs (thread off rc wc R) (set_wc g) (\<lambda>_. thread off rc (g wc) R)"
  unfolding set_wc_def by (rule runs_modify) (auto simp: thread_def)

lemma runs_tid: "runs (thread off rc wc R) (k tid) Q \<Longrightarrow> runs (thread off rc wc R) (bindM (getsM c_tid) k) Q"
  by (rule runs_bind_gets) (auto simp: thread_def)

lemma runs_rc: "runs (thread off rc wc R) (k rc) Q \<Longrightarrow> runs (thread off rc wc R) (bindM (getsM c_read_cache) k) Q"
  by (rule runs_bind_gets) (auto simp: thread_def)

lemma runs_last_fd: "runs (thread off rc wc R) (k (rc_last_fd rc)) Q \<Longrightarrow>
    runs (thread off rc wc R) (bindM (getsM (\<lambda>s. rc_last_fd (c_read_cache s))) k) Q"
  by (rule runs_bind_gets) (auto simp: thread_def)

lemma runs_wc: "runs (thread off rc wc R) (k wc) Q \<Longrightarrow> runs (thread off rc wc R) (bindM (getsM c_write_cache) k) Q"
  by (rule runs_bind_gets) (auto simp: thread_def)

lemma runs_wc_fd: "runs (thread off rc wc R) (k (wc_fd wc)) Q \<Longrightarrow>
    runs (thread off rc wc R) (bindM (getsM (\<lambda>s. wc_fd (c_write_cache s))) k) Q"
  by (rule runs_bind_gets) (auto simp: thread_def)

lemma runs_tryWorld:
  assumes "\<And>w. R w \<Longrightarrow> (case g w of Inl e \<Rightarrow> fatal e | Inr w' \<Rightarrow> R' w')"
  shows "runs (thread off rc wc R) (tryWorld g) (\<lambda>_. thread off rc wc R')"
proof (rule runsMI)
  fix s assume s: "thread off rc wc R s"
  then have "case g (c_world s) of Inl e \<Rightarrow> fatal e | Inr w' \<Rightarrow> R' w'" by (intro assms) (simp add: thread_def)
  then show "case tryWorld g s of Inl e \<Rightarrow> fatal e | Inr (x, t) \<Rightarrow> thread off rc wc R' t"
    using s by (simp add: tryWorld_def thread_def split: sum.splits)
qed

lemma runs_runWorld:
  assumes "\<And>w. R w \<Longrightarrow> \<exists>v w'. g w = Inr (v, w') \<and> R' v w'"
  shows "runs (thread off rc wc R) (runWorld g) (\<lambda>v. thread off rc wc (R' v))"
proof (rule runsMI)
  fix s assume s: "thread off rc wc R s"
  then obtain v w' where "g (c_world s) = Inr (v, w')" "R' v w'" using assms [of "c_world s"] by (auto simp: thread_def)
  then show "case runWorld g s of Inl e \<Rightarrow> fatal e | Inr (x, t) \<Rightarrow> thread off rc wc (R' x) t"
    using s by (simp add: runWorld_def thread_def)
qed

lemma runs_waitWorld:
  assumes "\<And>w. R w \<Longrightarrow> \<exists>v w'. g w = Some (v, w') \<and> R' v w'"
  shows "runs (thread off rc wc R) (waitWorld g) (\<lambda>v. thread off rc wc (R' v))"
proof (rule runsMI)
  fix s assume s: "thread off rc wc R s"
  then obtain v w' where "g (c_world s) = Some (v, w')" "R' v w'" using assms [of "c_world s"] by (auto simp: thread_def)
  then show "case waitWorld g s of Inl e \<Rightarrow> fatal e | Inr (x, t) \<Rightarrow> thread off rc wc (R' x) t"
    using s by (simp add: waitWorld_def thread_def)
qed

section \<open>Requests\<close>

lemma numbers_fit: "in_range 64 n \<Longrightarrow> length (request_text CAPIO_REQUEST_SEEK [IntA tid, IntA fd, IntA n]) < CAPIO_REQ_MAX_SIZE"
    "in_range 64 n \<Longrightarrow> length (request_text CAPIO_REQUEST_READ [IntA tid, IntA fd, IntA n]) < CAPIO_REQ_MAX_SIZE"
    "in_range 64 n \<Longrightarrow> length (request_text CAPIO_REQUEST_WRITE [IntA tid, IntA fd, IntA n]) < CAPIO_REQ_MAX_SIZE"
  using request_fits [of _ "[tid, fd, n]"] ids by (simp_all add: in_range_def request_codes)

lemma runs_write_text:
  assumes "length req < CAPIO_REQ_MAX_SIZE"
    and "\<And>w. R w \<Longrightarrow> (case h_request H req w of Inl e \<Rightarrow> fatal e | Inr w1 \<Rightarrow> R' w1)"
  shows "runs (thread off rc wc R) (write_text H req) (\<lambda>_. thread off rc wc R')"
  using assms(1) unfolding write_text_def by (simp add: runs_tryWorld [OF assms(2)])

lemma runs_read_response:
  assumes "\<And>w. R w \<Longrightarrow> \<exists>v w'. h_response H tid w = Inr (v, w') \<and> R' v w'"
  shows "runs (thread off rc wc R) (read_response H) (\<lambda>v. thread off rc wc (R' v))"
  unfolding read_response_def by (rule runs_tid, rule runs_runWorld) (rule assms)

lemma runs_seek_request:
  assumes "0 \<le> n" and "n < SSIZE_MAX"
  shows "runs (thread off rc wc (\<lambda>w. serves w a p)) (seek_request H fd n tid) (\<lambda>_. thread off rc wc (\<lambda>w. serves w a n))"
proof -
  have n: "in_range 64 n" "to_u64 n = n" using assms by (simp_all add: in_range_def)
  let ?req = "request_text CAPIO_REQUEST_SEEK [IntA tid, IntA fd, IntA n]"
  have "runs (thread off rc wc (\<lambda>w. serves w a p)) (write_text H ?req)
      (\<lambda>_. thread off rc wc (\<lambda>w1. \<exists>w2. h_response H tid w1 = Inr (n, w2) \<and> serves w2 a n))"
  proof (rule runs_write_text [OF numbers_fit(1) [OF n(1)]])
    fix w assume "serves w a p"
    from seek [OF this assms] show "case h_request H ?req w of Inl e \<Rightarrow> fatal e
      | Inr w1 \<Rightarrow> \<exists>w2. h_response H tid w1 = Inr (n, w2) \<and> serves w2 a n" by auto
  qed
  then show ?thesis unfolding seek_request_def n(2)
    by (rule runs_then) (rule runs_read_response, blast)
qed

lemma runs_write_request:
  assumes "in_range 64 n"
    and "\<And>w. R w \<Longrightarrow> (case h_request H (request_text CAPIO_REQUEST_WRITE [IntA tid, IntA fd, IntA n]) w of
        Inl e \<Rightarrow> fatal e | Inr w1 \<Rightarrow> R' w1)"
  shows "runs (thread off rc wc R) (write_request H fd n tid) (\<lambda>_. thread off rc wc R')"
  unfolding write_request_def by (rule runs_write_text [OF numbers_fit(3) [OF assms(1)] assms(2)])

section \<open>Flushing the caches\<close>

definition emptied :: "read_cache \<Rightarrow> read_cache" where
  "emptied rc = (if rc_cache_offset rc \<noteq> rc_actual_size rc then rc\<lparr>rc_actual_size := 0, rc_cache_offset := 0\<rparr> else rc)"

lemma runs_ReadCache_flush:
  assumes "p = off + (rc_actual_size rc - rc_cache_offset rc)" and "rc_last_fd rc = fd \<or> rc_cache_offset rc = rc_actual_size rc"
    and "0 \<le> off" and "off < SSIZE_MAX"
  shows "runs (thread off rc wc (\<lambda>w. serves w a p)) (ReadCache_flush H) (\<lambda>_. thread off (emptied rc) wc (\<lambda>w. serves w a off))"
proof (cases "rc_cache_offset rc = rc_actual_size rc")
  case True
  then show ?thesis unfolding ReadCache_flush_def
    by (intro runs_rc runs_when) (simp_all add: emptied_def assms(1))
next
  case False
  then have fd: "rc_last_fd rc = fd" and e: "emptied rc = rc\<lparr>rc_actual_size := 0, rc_cache_offset := 0\<rparr>"
    using assms(2) by (simp_all add: emptied_def)
  have "runs (thread off (emptied rc) wc (\<lambda>w. serves w a p))
      (bindM (get_capio_fd_offset fd) (\<lambda>off. bindM (getsM c_tid) (\<lambda>tid. bindM (seek_request H fd off tid) (\<lambda>_. returnM ()))))
      (\<lambda>_. thread off (emptied rc) wc (\<lambda>w. serves w a off))"
    by (intro runs_with_offset runs_tid runs_bind [OF runs_seek_request [OF assms(3,4)]] runs_return)
  then have "runs (thread off rc wc (\<lambda>w. serves w a p)) (thenM (set_rc (\<lambda>c. c\<lparr>rc_actual_size := 0, rc_cache_offset := 0\<rparr>))
      (bindM (get_capio_fd_offset fd) (\<lambda>off. bindM (getsM c_tid) (\<lambda>tid. bindM (seek_request H fd off tid) (\<lambda>_. returnM ())))))
      (\<lambda>_. thread off (emptied rc) wc (\<lambda>w. serves w a off))"
    unfolding e by (rule runs_then [OF runs_set_rc])
  then show ?thesis unfolding ReadCache_flush_def by (intro runs_rc runs_when) (simp_all add: False fd)
qed

definition wcache :: "int \<Rightarrow> cell list \<Rightarrow> write_cache" where
  "wcache g xs = \<lparr>wc_cache = (if xs = [] then None else Some xs), wc_fd = g, wc_max_line_size = line,
     wc_actual_size = int (length xs)\<rparr>"

lemma wcache_fields:
  "wc_fd (wcache g xs) = g" "wc_max_line_size (wcache g xs) = line" "wc_actual_size (wcache g xs) = int (length xs)"
  by (simp_all add: wcache_def)

lemma runs_WriteCache_flush:
  assumes "xs \<noteq> [] \<Longrightarrow> g = fd" and "int (length xs) \<le> line"
  shows "runs (thread off rc (wcache g xs) (\<lambda>w. serves w a p)) (WriteCache_flush H)
    (\<lambda>_. thread off rc (wcache g []) (\<lambda>w. serves w (store a p xs) (p + int (length xs))))"
proof (cases "xs = []")
  case True
  then show ?thesis unfolding WriteCache_flush_def by (intro runs_wc runs_when) (simp_all add: wcache_def)
next
  case False
  let ?S = "\<lambda>w. serves w (store a p xs) (p + int (length xs))"
  let ?sent = "\<lambda>w1. case h_request H (request_text CAPIO_REQUEST_WRITE [IntA tid, IntA fd, IntA (int (length xs))]) w1 of
      Inl e \<Rightarrow> fatal e | Inr w2 \<Rightarrow> ?S w2"
  have n: "in_range 64 (int (length xs))" using assms(2) line_range by (simp add: in_range_def)
  have "runs (thread off rc (wcache g xs) (\<lambda>w. serves w a p)) (tryWorld (h_commit H tid xs)) (\<lambda>_. thread off rc (wcache g xs) ?sent)"
    by (rule runs_tryWorld) (use commit [OF _ False] assms(2) in fastforce)
  moreover have "runs (thread off rc (wcache g xs) ?sent) (write_request H fd (int (length xs)) tid) (\<lambda>_. thread off rc (wcache g xs) ?S)"
    by (rule runs_write_request [OF n])
  moreover have "runs (thread off rc (wcache g xs) ?S) (set_wc (\<lambda>c. c\<lparr>wc_cache := None, wc_actual_size := 0\<rparr>))
      (\<lambda>_. thread off rc (wcache g []) ?S)"
    by (rule runs_post [OF runs_set_wc]) (simp add: wcache_def)
  ultimately have "runs (thread off rc (wcache g xs) (\<lambda>w. serves w a p))
      (thenM (tryWorld (h_commit H tid xs)) (thenM (write_request H fd (int (length xs)) tid)
        (set_wc (\<lambda>c. c\<lparr>wc_cache := None, wc_actual_size := 0\<rparr>)))) (\<lambda>_. thread off rc (wcache g []) ?S)"
    by (intro runs_then)
  then show ?thesis unfolding WriteCache_flush_def
    by (intro runs_wc runs_when runs_tid) (use False assms(1) in \<open>simp_all add: wcache_def optM_def\<close>)
qed

section \<open>Writing\<close>

text \<open>
  The write cache in some state, with which the file has the bytes \<open>b\<close> and the next byte goes to \<open>n\<close>,
  while the thread is at \<open>off\<close>.
\<close>

definition writing :: "off64 \<Rightarrow> off64 \<Rightarrow> read_cache \<Rightarrow> (off64 \<rightharpoonup> cell) \<Rightarrow> 'w client \<Rightarrow> bool" where
  "writing off n rc b s \<longleftrightarrow>
     (\<exists>xs a p. thread off rc (wcache fd xs) (\<lambda>w. serves w a p) s \<and> int (length xs) < line \<and>
        p + int (length xs) = n \<and> b = store a p xs)"

lemma writingI:
  "thread off rc (wcache fd xs) (\<lambda>w. serves w a p) s \<Longrightarrow> int (length xs) < line \<Longrightarrow> p + int (length xs) = n \<Longrightarrow>
   b = store a p xs \<Longrightarrow> writing off n rc b s"
  by (auto simp: writing_def)

lemma runs_advance:
  "runs (writing off (off + k) rc b) (bindM (get_capio_fd_offset fd) (\<lambda>o'. set_capio_fd_offset fd (o' + k)))
     (\<lambda>_. writing (off + k) (off + k) rc b)"
proof (rule runs_case)
  let ?m = "bindM (get_capio_fd_offset fd) (\<lambda>o'. set_capio_fd_offset fd (o' + k))"
  fix s assume "writing off (off + k) rc b s"
  then obtain xs a p where s: "thread off rc (wcache fd xs) (\<lambda>w. serves w a p) s" "int (length xs) < line"
    "p + int (length xs) = off + k" "b = store a p xs" by (auto simp: writing_def)
  have "runs (thread off rc (wcache fd xs) (\<lambda>w. serves w a p)) ?m (\<lambda>_. writing (off + k) (off + k) rc b)"
    by (rule runs_with_offset, rule runs_post [OF runs_set_offset]) (rule writingI [OF _ s(2-4)])
  then show "runs (\<lambda>t. t = s) ?m (\<lambda>_. writing (off + k) (off + k) rc b)"
    by (rule runs_pre) (simp add: s(1))
qed

lemma runs_full_line:
  assumes "int (length xs) \<le> line" and "p + int (length xs) = n"
  shows "runs (thread off rc (wcache fd xs) (\<lambda>w. serves w a p))
    (whenM (wc_actual_size (wcache fd xs) = wc_max_line_size (wcache fd xs)) (WriteCache_flush H))
    (\<lambda>_. writing off n rc (store a p xs))"
proof (rule runs_when)
  have "runs (thread off rc (wcache fd xs) (\<lambda>w. serves w a p)) (WriteCache_flush H)
      (\<lambda>_. thread off rc (wcache fd []) (\<lambda>w. serves w (store a p xs) (p + int (length xs))))"
    by (rule runs_WriteCache_flush) (use assms(1) in simp_all)
  then show "runs (thread off rc (wcache fd xs) (\<lambda>w. serves w a p)) (WriteCache_flush H) (\<lambda>_. writing off n rc (store a p xs))"
    by (rule runs_post) (erule writingI, use assms(2) line_pos in simp_all)
next
  fix s assume "wc_actual_size (wcache fd xs) \<noteq> wc_max_line_size (wcache fd xs)" "thread off rc (wcache fd xs) (\<lambda>w. serves w a p) s"
  then show "writing off n rc (store a p xs) s" using assms by (intro writingI) (simp_all add: wcache_def)
qed

lemma runs_reserve:
  "runs (thread off rc (wcache fd xs) (\<lambda>w. serves w a p)) (whenM (wc_cache (wcache fd xs) = None)
      (thenM (waitWorld (\<lambda>w. map_option (\<lambda>w'. ((), w')) (h_reserve H tid w))) (set_wc (\<lambda>c. c\<lparr>wc_cache := Some []\<rparr>))))
    (\<lambda>_. thread off rc ((wcache fd xs)\<lparr>wc_cache := Some xs\<rparr>) (\<lambda>w. serves w a p))"
proof (rule runs_when)
  let ?S = "\<lambda>w. serves w a p"
  assume "wc_cache (wcache fd xs) = None"
  then have xs: "xs = []" by (simp add: wcache_def split: if_splits)
  have "runs (thread off rc (wcache fd xs) ?S) (waitWorld (\<lambda>w. map_option (\<lambda>w'. ((), w')) (h_reserve H tid w)))
      (\<lambda>_. thread off rc (wcache fd xs) ?S)"
    by (rule runs_waitWorld [where R' = "\<lambda>_. ?S"]) (use reserve in fastforce)
  then show "runs (thread off rc (wcache fd xs) ?S)
      (thenM (waitWorld (\<lambda>w. map_option (\<lambda>w'. ((), w')) (h_reserve H tid w))) (set_wc (\<lambda>c. c\<lparr>wc_cache := Some []\<rparr>)))
      (\<lambda>_. thread off rc ((wcache fd xs)\<lparr>wc_cache := Some xs\<rparr>) ?S)"
    by (rule runs_then) (rule runs_post [OF runs_set_wc], simp add: xs)
qed (auto simp: wcache_def split: if_splits)

lemma runs_write1:
  assumes "int (length (xs @ ys)) \<le> line" and "int (length xs) < line" and "p + int (length xs) = off"
  shows "runs (thread off rc (wcache fd xs) (\<lambda>w. serves w a p)) (WriteCache_write1 H ys)
    (\<lambda>_. writing off (off + int (length ys)) rc (store a p (xs @ ys)))"
  unfolding WriteCache_write1_def
proof (rule runs_when)
  assume "ys \<noteq> []"
  then have app: "runs (thread off rc ((wcache fd xs)\<lparr>wc_cache := Some xs\<rparr>) (\<lambda>w. serves w a p))
      (set_wc (\<lambda>c. c\<lparr>wc_cache := map_option (\<lambda>line. line @ ys) (wc_cache c), wc_actual_size := wc_actual_size c + int (length ys)\<rparr>))
      (\<lambda>_. thread off rc (wcache fd (xs @ ys)) (\<lambda>w. serves w a p))"
    by (intro runs_post [OF runs_set_wc]) (simp add: wcache_def)
  show "runs (thread off rc (wcache fd xs) (\<lambda>w. serves w a p)) (bindM (getsM c_tid) (\<lambda>tid. bindM (getsM c_write_cache) (\<lambda>c.
      thenM (whenM (wc_cache c = None)
               (thenM (waitWorld (\<lambda>w. map_option (\<lambda>w'. ((), w')) (h_reserve H tid w)))
                      (set_wc (\<lambda>c. c\<lparr>wc_cache := Some []\<rparr>))))
     (thenM (set_wc (\<lambda>c. c\<lparr>wc_cache := map_option (\<lambda>line. line @ ys) (wc_cache c),
                           wc_actual_size := wc_actual_size c + int (length ys)\<rparr>))
     (bindM (getsM c_write_cache) (\<lambda>c. whenM (wc_actual_size c = wc_max_line_size c) (WriteCache_flush H)))))))
    (\<lambda>_. writing off (off + int (length ys)) rc (store a p (xs @ ys)))"
    by (rule runs_tid, rule runs_wc, rule runs_then [OF runs_reserve], rule runs_then [OF app], rule runs_wc,
        rule runs_full_line) (use assms in simp_all)
qed (simp, erule writingI, use assms in simp_all)

lemma runs_direct_write:
  assumes "line < int (length ys)" and "length ys \<le> room" and "in_range 64 (int (length ys))"
  shows "runs (thread off rc (wcache fd []) (\<lambda>w. serves w a p)) (thenM (write_request H fd (int (length ys)) tid) (q_write_bytes H ys))
    (\<lambda>_. thread off rc (wcache fd []) (\<lambda>w. serves w (store a p ys) (p + int (length ys))))"
proof -
  let ?S = "\<lambda>w. serves w (store a p ys) (p + int (length ys))"
  let ?woken = "\<lambda>w2. case h_wake H w2 of Inl e \<Rightarrow> fatal e | Inr w3 \<Rightarrow> ?S w3"
  let ?sent = "\<lambda>w1. \<exists>w2. queue_write (h_write1 H tid) (h_cache_line_size H) ys w1 = Some w2 \<and> ?woken w2"
  have "runs (thread off rc (wcache fd []) (\<lambda>w. serves w a p)) (write_request H fd (int (length ys)) tid)
      (\<lambda>_. thread off rc (wcache fd []) ?sent)"
    by (rule runs_write_request [OF assms(3)]) (rule direct, use assms in simp_all)
  moreover have "runs (thread off rc (wcache fd []) ?sent)
      (waitWorld (\<lambda>w. map_option (\<lambda>w'. ((), w')) (queue_write (h_write1 H tid) (h_cache_line_size H) ys w)))
      (\<lambda>_. thread off rc (wcache fd []) ?woken)"
    by (rule runs_waitWorld [where R' = "\<lambda>_. ?woken"]) auto
  moreover have "runs (thread off rc (wcache fd []) ?woken) (tryWorld (h_wake H)) (\<lambda>_. thread off rc (wcache fd []) ?S)"
    by (rule runs_tryWorld)
  ultimately show ?thesis unfolding q_write_bytes_def by (intro runs_then [where R = "thread off rc (wcache fd []) ?sent"] runs_tid runs_then)
qed

lemma runs_WriteCache_write:
  assumes "int (length xs) < line" and "xs \<noteq> [] \<Longrightarrow> g = fd" and "p + int (length xs) = off"
    and "length ys \<le> max (h_cache_line_size H) room" and "in_range 64 (int (length ys))"
  shows "runs (thread off rc (wcache g xs) (\<lambda>w. serves w a p)) (WriteCache_write H fd ys)
    (\<lambda>_. writing (off + int (length ys)) (off + int (length ys)) rc (store a p (xs @ ys)))"
proof -
  let ?S = "\<lambda>w. serves w a p" and ?n = "off + int (length ys)" and ?b = "store a p (xs @ ys)"
  have own: "runs (thread off rc (wcache g xs) ?S) (whenM (g \<noteq> fd) (thenM (WriteCache_flush H) (set_wc (\<lambda>c. c\<lparr>wc_fd := fd\<rparr>))))
      (\<lambda>_. thread off rc (wcache fd xs) ?S)"
  proof (rule runs_when)
    assume "g \<noteq> fd"
    then have xs: "xs = []" using assms(2) by blast
    have "runs (thread off rc (wcache g []) ?S) (WriteCache_flush H) (\<lambda>_. thread off rc (wcache g []) ?S)"
      using runs_WriteCache_flush [of "[]" g off rc a p] by simp
    then show "runs (thread off rc (wcache g xs) ?S) (thenM (WriteCache_flush H) (set_wc (\<lambda>c. c\<lparr>wc_fd := fd\<rparr>)))
      (\<lambda>_. thread off rc (wcache fd xs) ?S)"
      unfolding xs by (rule runs_then) (rule runs_post [OF runs_set_wc], simp add: wcache_def)
  qed simp
  have flush: "runs (thread off rc (wcache fd xs) ?S) (WriteCache_flush H)
      (\<lambda>_. thread off rc (wcache fd []) (\<lambda>w. serves w (store a p xs) off))"
    using runs_WriteCache_flush [of xs fd off rc a p] assms(1,3) by simp
  have b: "store (store a p xs) off ys = ?b" using store_append [of a p xs ys] assms(3) by simp
  have fresh: "runs (thread off rc (wcache fd []) (\<lambda>w. serves w (store a p xs) off)) (WriteCache_write1 H ys)
      (\<lambda>_. writing off ?n rc ?b)" if "int (length ys) \<le> line"
    using runs_write1 [of "[]" ys off off rc "store a p xs"] that line_pos by (simp add: b)
  have large: "runs (thread off rc (wcache fd []) (\<lambda>w. serves w (store a p xs) off))
      (thenM (write_request H fd (int (length ys)) tid) (q_write_bytes H ys)) (\<lambda>_. writing off ?n rc ?b)"
    if "line < int (length ys)"
    by (rule runs_post [OF runs_direct_write [OF that _ assms(5)]]) (use assms(4) that line_pos in \<open>auto intro!: writingI simp: b\<close>)
  have body: "runs (thread off rc (wcache fd xs) ?S)
      (if int (length ys) \<le> line - int (length xs) then WriteCache_write1 H ys
       else thenM (WriteCache_flush H) (bindM (getsM c_write_cache) (\<lambda>c.
         if wc_max_line_size c < int (length ys) - wc_actual_size c
         then thenM (write_request H (wc_fd c) (int (length ys)) tid) (q_write_bytes H ys) else WriteCache_write1 H ys)))
      (\<lambda>_. writing off ?n rc ?b)"
  proof (cases "int (length ys) \<le> line - int (length xs)")
    case True
    then show ?thesis using runs_write1 [of xs ys p off rc a] assms(1,3) by simp
  next
    case False
    have "runs (thread off rc (wcache fd []) (\<lambda>w. serves w (store a p xs) off)) (bindM (getsM c_write_cache) (\<lambda>c.
         if wc_max_line_size c < int (length ys) - wc_actual_size c
         then thenM (write_request H (wc_fd c) (int (length ys)) tid) (q_write_bytes H ys) else WriteCache_write1 H ys))
      (\<lambda>_. writing off ?n rc ?b)"
      by (rule runs_wc) (use fresh large in \<open>simp add: wcache_fields\<close>)
    then show ?thesis using False by (simp add: runs_then [OF flush])
  qed
  show ?thesis unfolding WriteCache_write_def Let_def
    by (rule runs_wc_fd, unfold wcache_fields, rule runs_then [OF own], rule runs_tid, rule runs_wc, unfold wcache_fields,
        rule runs_then [OF body runs_advance])
qed

section \<open>Reading\<close>

text \<open>The bytes left in the read cache are those of the file at the offset of the thread.\<close>

definition reading :: "read_cache \<Rightarrow> (off64 \<rightharpoonup> cell) \<Rightarrow> off64 \<Rightarrow> off64 \<Rightarrow> bool" where
  "reading rc b off p \<longleftrightarrow>
     rc_max_line_size rc = line \<and> 0 \<le> rc_cache_offset rc \<and> rc_cache_offset rc \<le> rc_actual_size rc \<and>
     (rc_last_fd rc = fd \<or> rc_last_fd rc = - 1 \<and> rc_cache_offset rc = rc_actual_size rc) \<and>
     p = off + (rc_actual_size rc - rc_cache_offset rc) \<and>
     (rc_cache_offset rc < rc_actual_size rc \<longrightarrow>
       (\<exists>l. rc_cache rc = Some l \<and> rc_actual_size rc \<le> int (length l) \<and>
          agrees b off (seg (nat (rc_cache_offset rc)) (nat (rc_actual_size rc - rc_cache_offset rc)) l)))"

lemma reading_emptied: "reading rc b off p \<Longrightarrow> reading (emptied rc) c n n"
  by (auto simp: reading_def emptied_def)

lemma runs_read1:
  assumes "reading rc b off p" and "0 \<le> n" and "n \<le> rc_actual_size rc - rc_cache_offset rc"
  shows "runs (thread o' rc wc R) (ReadCache_read1 n) (\<lambda>xs s. int (length xs) = n \<and> agrees b off xs \<and>
    reading (rc\<lparr>rc_cache_offset := rc_cache_offset rc + n\<rparr>) b (off + n) p \<and>
    thread o' (rc\<lparr>rc_cache_offset := rc_cache_offset rc + n\<rparr>) wc R s)"
proof (cases "n = 0")
  case True
  then show ?thesis using assms(1) unfolding ReadCache_read1_def by (auto intro!: runs_return simp: agrees_def)
next
  case False
  then have lt: "rc_cache_offset rc < rc_actual_size rc" using assms(2,3) by simp
  then obtain l where l: "rc_cache rc = Some l" "rc_actual_size rc \<le> int (length l)"
    "agrees b off (seg (nat (rc_cache_offset rc)) (nat (rc_actual_size rc - rc_cache_offset rc)) l)"
    using assms(1) by (auto simp: reading_def)
  let ?o = "nat (rc_cache_offset rc)" and ?r = "nat (rc_actual_size rc - rc_cache_offset rc)"
  have o: "0 \<le> rc_cache_offset rc" "rc_last_fd rc = fd" using assms(1) lt by (auto simp: reading_def)
  have r: "nat n \<le> ?r" "?o + ?r \<le> length l" using assms(3) l(2) o lt by linarith+
  have take: "seg ?o (nat n) l = take (nat n) (seg ?o ?r l)" using r(1) by (simp add: seg_def min_def)
  have drop: "seg (nat (rc_cache_offset rc + n)) (nat (rc_actual_size rc - (rc_cache_offset rc + n))) l = drop (nat n) (seg ?o ?r l)"
  proof -
    have "nat (rc_cache_offset rc + n) = nat n + ?o" "nat (rc_actual_size rc - (rc_cache_offset rc + n)) = ?r - nat n"
      using o assms(2) by linarith+
    then show ?thesis by (simp add: seg_def drop_take)
  qed
  have len: "int (length (seg ?o (nat n) l)) = n" using r assms(2) by (simp add: length_seg)
  have rd: "reading (rc\<lparr>rc_cache_offset := rc_cache_offset rc + n\<rparr>) b (off + n) p"
    using assms l agrees_drop [OF l(3), of "nat n"] unfolding reading_def by (simp add: drop o(2))
  have ag: "agrees b off (seg ?o (nat n) l)" unfolding take by (rule agrees_take [OF l(3)])
  have "runs (thread o' rc wc R) (thenM (set_rc (\<lambda>c. c\<lparr>rc_cache_offset := rc_cache_offset c + n\<rparr>)) (returnM (seg ?o (nat n) l)))
      (\<lambda>xs s. int (length xs) = n \<and> agrees b off xs \<and> reading (rc\<lparr>rc_cache_offset := rc_cache_offset rc + n\<rparr>) b (off + n) p \<and>
        thread o' (rc\<lparr>rc_cache_offset := rc_cache_offset rc + n\<rparr>) wc R s)"
    by (rule runs_then [OF runs_set_rc], rule runs_return) (intro conjI len ag rd)
  moreover have "\<not> (rc_cache_offset rc < 0 \<or> int (length l) < rc_cache_offset rc + n)" using o assms(3) l(2) by linarith
  ultimately show ?thesis using False assms(2) unfolding ReadCache_read1_def
    by (auto intro!: runs_rc simp: l(1))
qed

text \<open>The answer to a read request is under way, with its bytes.\<close>

definition answer :: "(off64 \<rightharpoonup> cell) \<Rightarrow> off64 \<Rightarrow> off64 \<Rightarrow> cell list \<Rightarrow> 'w \<Rightarrow> bool" where
  "answer a p n ys w \<longleftrightarrow>
     int (length ys) \<le> n \<and> agrees a p ys \<and> (\<forall>k. k \<le> n \<longrightarrow> {p..<p + k} \<subseteq> dom a \<longrightarrow> k \<le> int (length ys)) \<and>
     (\<exists>w3. queue_read (h_read1 H tid) (h_cache_line_size H) (length ys) w = Some (ys, w3) \<and> serves w3 a (p + int (length ys))) \<and>
     (ys \<noteq> [] \<longrightarrow> length ys \<le> h_cache_line_size H \<longrightarrow>
       (\<exists>zs w4. h_read1 H tid (h_cache_line_size H) w = Some (ys @ zs, w4) \<and> serves w4 a (p + int (length ys))))"

lemma runs_read_request:
  assumes "0 < n" and "in_range 64 n"
  shows "runs (thread off rc wc (\<lambda>w. serves w a p)) (read_request H fd n tid)
    (\<lambda>v s. \<exists>ys. v = p + int (length ys) \<and> thread off rc wc (answer a p n ys) s)"
proof -
  let ?req = "request_text CAPIO_REQUEST_READ [IntA tid, IntA fd, IntA n]"
  have "runs (thread off rc wc (\<lambda>w. serves w a p)) (write_text H ?req)
      (\<lambda>_. thread off rc wc (\<lambda>w1. \<exists>ys w2. h_response H tid w1 = Inr (p + int (length ys), w2) \<and> answer a p n ys w2))"
  proof (rule runs_write_text [OF numbers_fit(2) [OF assms(2)]])
    fix w assume w: "serves w a p"
    obtain w1 w2 w3 ys where r: "h_request H ?req w = Inr w1" "h_response H tid w1 = Inr (p + int (length ys), w2)"
      "int (length ys) \<le> n" "agrees a p ys" "\<forall>k. k \<le> n \<longrightarrow> {p..<p + k} \<subseteq> dom a \<longrightarrow> k \<le> int (length ys)"
      "queue_read (h_read1 H tid) (h_cache_line_size H) (length ys) w2 = Some (ys, w3)" "serves w3 a (p + int (length ys))"
      "ys \<noteq> [] \<longrightarrow> length ys \<le> h_cache_line_size H \<longrightarrow>
         (\<exists>zs w4. h_read1 H tid (h_cache_line_size H) w2 = Some (ys @ zs, w4) \<and> serves w4 a (p + int (length ys)))"
      using read [OF w assms] by (elim exE conjE) (rule that)
    have "answer a p n ys w2" unfolding answer_def by (intro conjI exI [of _ w3] r(3-8))
    then show "case h_request H ?req w of Inl e \<Rightarrow> fatal e
      | Inr w1 \<Rightarrow> \<exists>ys w2. h_response H tid w1 = Inr (p + int (length ys), w2) \<and> answer a p n ys w2"
      using r(1,2) by auto
  qed
  moreover have "runs (thread off rc wc (\<lambda>w1. \<exists>ys w2. h_response H tid w1 = Inr (p + int (length ys), w2) \<and> answer a p n ys w2))
      (read_response H) (\<lambda>v. thread off rc wc (\<lambda>w. \<exists>ys. v = p + int (length ys) \<and> answer a p n ys w))"
    by (rule runs_read_response) blast
  ultimately have "runs (thread off rc wc (\<lambda>w. serves w a p)) (read_request H fd n tid)
      (\<lambda>v. thread off rc wc (\<lambda>w. \<exists>ys. v = p + int (length ys) \<and> answer a p n ys w))"
    unfolding read_request_def by (rule runs_then)
  then show ?thesis by (rule runs_post) (auto simp: thread_def)
qed

lemma runs_with_answer:
  assumes "0 < n" and "in_range 64 n"
    and "\<And>ys. int (length ys) \<le> n \<Longrightarrow> agrees a p ys \<Longrightarrow> (\<forall>k. k \<le> n \<longrightarrow> {p..<p + k} \<subseteq> dom a \<longrightarrow> k \<le> int (length ys)) \<Longrightarrow>
      runs (thread off rc wc (answer a p n ys)) (k (p + int (length ys))) Q"
  shows "runs (thread off rc wc (\<lambda>w. serves w a p)) (bindM (read_request H fd n tid) k) Q"
proof (rule runs_bind [OF runs_read_request [OF assms(1,2)]], rule runs_case, elim exE conjE)
  fix x s ys assume x: "x = p + int (length ys)" and s: "thread off rc wc (answer a p n ys) s"
  have "runs (thread off rc wc (answer a p n ys)) (k (p + int (length ys))) Q"
    by (rule assms(3)) (use s in \<open>simp_all add: thread_def answer_def\<close>)
  then show "runs (\<lambda>t. t = s) (k x) Q" unfolding x by (rule runs_pre) (simp add: s)
qed

lemma runs_take_bytes:
  "runs (thread off rc wc (answer a p n ys)) (q_read_bytes H (int (length ys)))
     (\<lambda>xs s. xs = ys \<and> thread off rc wc (\<lambda>w. serves w a (p + int (length ys))) s)"
proof -
  have "runs (thread off rc wc (answer a p n ys)) (waitWorld (queue_read (h_read1 H tid) (h_cache_line_size H) (length ys)))
      (\<lambda>xs. thread off rc wc (\<lambda>w. xs = ys \<and> serves w a (p + int (length ys))))"
    by (rule runs_waitWorld) (auto simp: answer_def)
  then have "runs (thread off rc wc (answer a p n ys)) (q_read_bytes H (int (length ys)))
      (\<lambda>xs. thread off rc wc (\<lambda>w. xs = ys \<and> serves w a (p + int (length ys))))"
    unfolding q_read_bytes_def by (intro runs_tid) simp
  then show ?thesis by (rule runs_post) (auto simp: thread_def)
qed

lemma runs_take_line:
  assumes "ys \<noteq> []" and "int (length ys) \<le> line"
  shows "runs (thread off rc wc (answer a p n ys)) (q_fetch_line H)
     (\<lambda>xs s. (\<exists>zs. xs = ys @ zs) \<and> thread off rc wc (\<lambda>w. serves w a (p + int (length ys))) s)"
proof -
  have "runs (thread off rc wc (answer a p n ys)) (waitWorld (h_read1 H tid (h_cache_line_size H)))
      (\<lambda>xs. thread off rc wc (\<lambda>w. (\<exists>zs. xs = ys @ zs) \<and> serves w a (p + int (length ys))))"
    by (rule runs_waitWorld) (use assms in \<open>auto simp: answer_def\<close>)
  then have "runs (thread off rc wc (answer a p n ys)) (q_fetch_line H)
      (\<lambda>xs. thread off rc wc (\<lambda>w. (\<exists>zs. xs = ys @ zs) \<and> serves w a (p + int (length ys))))"
    unfolding q_fetch_line_def by (intro runs_tid)
  then show ?thesis by (rule runs_post) (auto simp: thread_def)
qed

definition delivered :: "off64 \<Rightarrow> off64 \<Rightarrow> write_cache \<Rightarrow> (off64 \<rightharpoonup> cell) \<Rightarrow> off64 \<times> cell list \<Rightarrow> 'w client \<Rightarrow> bool" where
  "delivered off n wc b r s \<longleftrightarrow> r = (n, contents b off (nat n)) \<and>
     (\<exists>rc p. thread off rc wc (\<lambda>w. serves w b p) s \<and> reading rc b (off + n) p)"

lemma deliveredI:
  assumes "agrees b off xs" and "int (length xs) = n" and "{off..<off + n} \<subseteq> dom b"
    and "thread off rc wc (\<lambda>w. serves w b p) s" and "reading rc b (off + n) p"
  shows "delivered off n wc b (n, xs) s"
proof -
  have "xs = contents b off (length xs)" by (rule agrees_contents [OF assms(1)]) (use assms(2,3) in simp)
  moreover have "nat n = length xs" using assms(2) by simp
  ultimately show ?thesis unfolding delivered_def using assms(4,5) by metis
qed

lemma runs_read_cached:
  assumes "reading rc b off p" and "0 \<le> n" and "n \<le> rc_actual_size rc - rc_cache_offset rc" and "{off..<off + n} \<subseteq> dom b"
  shows "runs (thread off rc wc (\<lambda>w. serves w b p)) (bindM (ReadCache_read1 n) (\<lambda>xs. returnM (n, xs))) (delivered off n wc b)"
  by (rule runs_bind [OF runs_read1 [OF assms(1-3)]], rule runs_return, elim conjE) (erule (1) deliveredI [OF _ _ assms(4)])

text \<open>A line is fetched, and the rest of the read taken from it.\<close>

lemma runs_refill:
  assumes "reading rc b off p" and "rc_last_fd rc = fd" and "rc_cache_offset rc = rc_actual_size rc"
    and "ys \<noteq> []" and "int (length ys) \<le> line" and "agrees b p ys"
  shows "runs (thread o' rc wc (answer b p line ys))
    (thenM (set_rc (\<lambda>c. c\<lparr>rc_actual_size := int (length ys), rc_cache_offset := 0\<rparr>))
      (whenM (0 < int (length ys)) (bindM (q_fetch_line H) (\<lambda>line. set_rc (\<lambda>c. c\<lparr>rc_cache := Some line\<rparr>)))))
    (\<lambda>_ s. \<exists>rc'. rc_actual_size rc' = int (length ys) \<and> rc_cache_offset rc' = 0 \<and> reading rc' b p (p + int (length ys)) \<and>
      thread o' rc' wc (\<lambda>w. serves w b (p + int (length ys))) s)"
proof -
  let ?rc = "rc\<lparr>rc_actual_size := int (length ys), rc_cache_offset := 0\<rparr>"
  let ?Q = "\<lambda>_ s. \<exists>rc'. rc_actual_size rc' = int (length ys) \<and> rc_cache_offset rc' = 0 \<and> reading rc' b p (p + int (length ys)) \<and>
      thread o' rc' wc (\<lambda>w. serves w b (p + int (length ys))) s"
  have m: "rc_max_line_size rc = line" using assms(1) by (simp add: reading_def)
  have rd: "reading (?rc\<lparr>rc_cache := Some (ys @ zs)\<rparr>) b p (p + int (length ys))" for zs
    using assms(2,6) m by (simp add: reading_def seg_def)
  have "runs (\<lambda>s. (\<exists>zs. l = ys @ zs) \<and> thread o' ?rc wc (\<lambda>w. serves w b (p + int (length ys))) s)
      (set_rc (\<lambda>c. c\<lparr>rc_cache := Some l\<rparr>)) ?Q" for l
  proof (rule runs_case, elim exE conjE)
    fix s zs assume l: "l = ys @ zs" and s: "thread o' ?rc wc (\<lambda>w. serves w b (p + int (length ys))) s"
    have "runs (thread o' ?rc wc (\<lambda>w. serves w b (p + int (length ys)))) (set_rc (\<lambda>c. c\<lparr>rc_cache := Some l\<rparr>)) ?Q"
      by (rule runs_post [OF runs_set_rc], rule exI [of _ "?rc\<lparr>rc_cache := Some (ys @ zs)\<rparr>"]) (use rd l in simp)
    then show "runs (\<lambda>t. t = s) (set_rc (\<lambda>c. c\<lparr>rc_cache := Some l\<rparr>)) ?Q" by (rule runs_pre) (simp add: s)
  qed
  then have "runs (thread o' ?rc wc (answer b p line ys)) (bindM (q_fetch_line H) (\<lambda>line. set_rc (\<lambda>c. c\<lparr>rc_cache := Some line\<rparr>))) ?Q"
    by (rule runs_bind [OF runs_take_line [OF assms(4,5)]])
  then have "runs (thread o' ?rc wc (answer b p line ys))
      (whenM (0 < int (length ys)) (bindM (q_fetch_line H) (\<lambda>line. set_rc (\<lambda>c. c\<lparr>rc_cache := Some line\<rparr>)))) ?Q"
    using assms(4) by (simp add: whenM_def)
  then show ?thesis by (rule runs_then [OF runs_set_rc])
qed

lemma runs_rest:
  assumes "agrees b off xs" and "p = off + int (length xs)" and "n = int (length xs) + m" and "0 \<le> m" and "{off..<off + n} \<subseteq> dom b"
    and "m \<le> rc_actual_size rc - rc_cache_offset rc" and "reading rc b p q" and "v = n"
  shows "runs (thread off rc wc (\<lambda>w. serves w b q)) (bindM (ReadCache_read1 m) (\<lambda>ys. returnM (v, xs @ ys))) (delivered off n wc b)"
  unfolding assms(8)
proof (rule runs_bind [OF runs_read1 [OF assms(7,4,6)]], rule runs_return, elim conjE)
  fix ys s assume ys: "int (length ys) = m" "agrees b p ys"
    "reading (rc\<lparr>rc_cache_offset := rc_cache_offset rc + m\<rparr>) b (p + m) q"
    "thread off (rc\<lparr>rc_cache_offset := rc_cache_offset rc + m\<rparr>) wc (\<lambda>w. serves w b q) s"
  have "agrees b off (xs @ ys)" using agrees_append [OF assms(1)] ys(2) assms(2) by simp
  moreover have "reading (rc\<lparr>rc_cache_offset := rc_cache_offset rc + m\<rparr>) b (off + n) q"
    using ys(3) assms(2,3) by (simp add: add.assoc)
  ultimately show "delivered off n wc b (n, xs @ ys) s"
    using deliveredI [OF _ _ assms(5) ys(4)] ys(1) assms(3) by simp
qed

lemma thenM_assoc: "thenM (thenM m k) h = thenM m (thenM k h)"
  by (simp add: thenM_def bindM_assoc)

lemma runs_read_line:
  assumes "reading rc b off p" and "rc_last_fd rc = fd" and "r = rc_actual_size rc - rc_cache_offset rc"
    and "r < n" and "n - r \<le> line" and "{off..<off + n} \<subseteq> dom b"
  shows "runs (thread off rc wc (\<lambda>w. serves w b p)) (bindM (ReadCache_read1 r) (\<lambda>xs. bindM (read_request H fd line tid) (\<lambda>end_of_read.
      thenM (set_rc (\<lambda>c. c\<lparr>rc_actual_size := end_of_read - off - r, rc_cache_offset := 0\<rparr>))
        (thenM (whenM (0 < end_of_read - off - r) (bindM (q_fetch_line H) (\<lambda>line. set_rc (\<lambda>c. c\<lparr>rc_cache := Some line\<rparr>))))
          (if n - r < end_of_read - off - r then bindM (ReadCache_read1 (n - r)) (\<lambda>zs. returnM (n, xs @ zs))
           else bindM (ReadCache_read1 (end_of_read - off - r)) (\<lambda>zs. returnM (r + (end_of_read - off - r), xs @ zs)))))))
    (delivered off n wc b)"
proof -
  let ?rc = "rc\<lparr>rc_cache_offset := rc_cache_offset rc + r\<rparr>" and ?S = "\<lambda>w. serves w b p"
  have p: "p = off + r" and r0: "0 \<le> r" using assms(1,3) by (simp_all add: reading_def)
  have n0: "0 < line" and nr: "in_range 64 line" using line_pos line_range by simp_all
  have last: "rc_last_fd ?rc = fd" "rc_cache_offset ?rc = rc_actual_size ?rc" using assms(2,3) by simp_all
  show ?thesis
  proof (rule runs_bind [OF runs_read1 [OF assms(1) r0]], simp add: assms(3), rule runs_case, elim conjE, rule runs_pre)
    fix xs s assume xs: "int (length xs) = r" "agrees b off xs" and rd: "reading ?rc b (off + r) p"
      and s: "thread off ?rc wc ?S s"
    show "\<And>t. t = s \<Longrightarrow> thread off ?rc wc ?S t" using s by simp
    show "runs (thread off ?rc wc ?S) (bindM (read_request H fd line tid) (\<lambda>end_of_read.
      thenM (set_rc (\<lambda>c. c\<lparr>rc_actual_size := end_of_read - off - r, rc_cache_offset := 0\<rparr>))
        (thenM (whenM (0 < end_of_read - off - r) (bindM (q_fetch_line H) (\<lambda>line. set_rc (\<lambda>c. c\<lparr>rc_cache := Some line\<rparr>))))
          (if n - r < end_of_read - off - r then bindM (ReadCache_read1 (n - r)) (\<lambda>zs. returnM (n, xs @ zs))
           else bindM (ReadCache_read1 (end_of_read - off - r)) (\<lambda>zs. returnM (r + (end_of_read - off - r), xs @ zs))))))
      (delivered off n wc b)"
    proof (rule runs_with_answer [OF n0 nr])
      fix ys assume ys: "int (length ys) \<le> line" "agrees b p ys"
        "\<forall>k. k \<le> line \<longrightarrow> {p..<p + k} \<subseteq> dom b \<longrightarrow> k \<le> int (length ys)"
      have "{p..<p + (n - r)} \<subseteq> dom b" by (rule subset_trans [OF _ assms(6)]) (use r0 p in auto)
      then have m: "n - r \<le> int (length ys)" using ys(3) assms(5) by blast
      then have ne: "ys \<noteq> []" using assms(4) by auto
      have e: "p + int (length ys) - off - r = int (length ys)" using p by simp
      have rest: "runs (thread off rc' wc (\<lambda>w. serves w b (p + int (length ys))))
          (if n - r < int (length ys) then bindM (ReadCache_read1 (n - r)) (\<lambda>zs. returnM (n, xs @ zs))
           else bindM (ReadCache_read1 (int (length ys))) (\<lambda>zs. returnM (r + int (length ys), xs @ zs))) (delivered off n wc b)"
        if rc': "rc_actual_size rc' = int (length ys)" "rc_cache_offset rc' = 0" "reading rc' b p (p + int (length ys))" for rc'
      proof -
        have "runs (thread off rc' wc (\<lambda>w. serves w b (p + int (length ys))))
          (bindM (ReadCache_read1 (n - r)) (\<lambda>zs. returnM (v, xs @ zs))) (delivered off n wc b)" if "v = n" for v
          by (rule runs_rest [OF xs(2) _ _ _ assms(6) _ rc'(3) that]) (use rc' m assms(4) p xs(1) in simp_all)
        moreover have "int (length ys) = n - r" "r + int (length ys) = n" if "\<not> n - r < int (length ys)" using that m by simp_all
        ultimately show ?thesis by (cases "n - r < int (length ys)") simp_all
      qed
      note fill = runs_refill [OF rd [folded p] last ne ys(1,2), where o' = off and wc = wc]
      show "runs (thread off ?rc wc (answer b p line ys))
        (thenM (set_rc (\<lambda>c. c\<lparr>rc_actual_size := p + int (length ys) - off - r, rc_cache_offset := 0\<rparr>))
          (thenM (whenM (0 < p + int (length ys) - off - r) (bindM (q_fetch_line H) (\<lambda>line. set_rc (\<lambda>c. c\<lparr>rc_cache := Some line\<rparr>))))
            (if n - r < p + int (length ys) - off - r then bindM (ReadCache_read1 (n - r)) (\<lambda>zs. returnM (n, xs @ zs))
             else bindM (ReadCache_read1 (p + int (length ys) - off - r)) (\<lambda>zs. returnM (r + (p + int (length ys) - off - r), xs @ zs)))))
        (delivered off n wc b)"
        unfolding e thenM_assoc [symmetric]
        by (rule runs_then [OF fill], rule runs_case, elim exE conjE, rule runs_pre, rule rest) auto
    qed
  qed
qed

text \<open>A read of more than a line, with nothing left in the cache.\<close>

lemma runs_read_direct:
  assumes "reading rc b off off" and "line < n" and "in_range 64 n" and "{off..<off + n} \<subseteq> dom b"
  shows "runs (thread off rc wc (\<lambda>w. serves w b off)) (bindM (read_request H fd n tid) (\<lambda>end_of_read.
      bindM (q_read_bytes H (end_of_read - off)) (\<lambda>ys. bindM (fit n ys) (\<lambda>zs. returnM (end_of_read - off, zs)))))
    (delivered off n wc b)"
proof (rule runs_with_answer [OF _ assms(3)])
  show "0 < n" using assms(2) line_pos by linarith
  fix ys assume ys: "int (length ys) \<le> n" "agrees b off ys" "\<forall>k. k \<le> n \<longrightarrow> {off..<off + k} \<subseteq> dom b \<longrightarrow> k \<le> int (length ys)"
  have "n \<le> int (length ys)" using ys(3) assms(4) by blast
  then have n: "int (length ys) = n" using ys(1) by simp
  have rd: "reading rc b (off + n) (off + n)" using assms(1) by (auto simp: reading_def)
  have e: "off + int (length ys) - off = int (length ys)" by simp
  show "runs (thread off rc wc (answer b off n ys)) (bindM (q_read_bytes H (off + int (length ys) - off))
      (\<lambda>ys'. bindM (fit n ys') (\<lambda>zs. returnM (off + int (length ys) - off, zs)))) (delivered off n wc b)"
    unfolding e
  proof (rule runs_bind [OF runs_take_bytes], rule runs_case, elim conjE)
    fix xs s assume xs: "xs = ys" and s: "thread off rc wc (\<lambda>w. serves w b (off + int (length ys))) s"
    have "delivered off n wc b (n, ys) s"
      by (rule deliveredI [OF ys(2) n assms(4) s]) (use rd n in simp)
    then show "runs (\<lambda>t. t = s) (bindM (fit n xs) (\<lambda>zs. returnM (int (length ys), zs))) (delivered off n wc b)"
      using xs n by (simp add: fit_def runsM_def returnM_def)
  qed
qed

definition finished :: "off64 \<Rightarrow> off64 \<Rightarrow> write_cache \<Rightarrow> (off64 \<rightharpoonup> cell) \<Rightarrow> off64 \<times> cell list \<Rightarrow> 'w client \<Rightarrow> bool" where
  "finished off n wc b r s \<longleftrightarrow> r = (n, contents b off (nat n)) \<and>
     (\<exists>rc p. thread (off + n) rc wc (\<lambda>w. serves w b p) s \<and> reading rc b (off + n) p)"

lemma runs_finish:
  "runs (delivered off n wc b r) (case r of (bytes_read, xs) \<Rightarrow> thenM (set_capio_fd_offset fd (off + bytes_read)) (returnM (bytes_read, xs)))
     (finished off n wc b)"
proof (rule runs_case)
  let ?m = "case r of (bytes_read, xs) \<Rightarrow> thenM (set_capio_fd_offset fd (off + bytes_read)) (returnM (bytes_read, xs))"
  fix s assume "delivered off n wc b r s"
  then obtain rc p where r: "r = (n, contents b off (nat n))" and s: "thread off rc wc (\<lambda>w. serves w b p) s" "reading rc b (off + n) p"
    by (auto simp: delivered_def)
  have "runs (thread off rc wc (\<lambda>w. serves w b p)) ?m (finished off n wc b)"
    unfolding r by (simp, rule runs_then [OF runs_set_offset], rule runs_return) (use s(2) in \<open>auto simp: finished_def\<close>)
  then show "runs (\<lambda>t. t = s) ?m (finished off n wc b)" by (rule runs_pre) (simp add: s(1))
qed

lemma runs_own_cache:
  assumes "reading rc b off p"
  shows "runs (thread off rc wc R) (whenM (rc_last_fd rc \<noteq> fd) (thenM (ReadCache_flush H) (set_rc (\<lambda>c. c\<lparr>rc_last_fd := fd\<rparr>))))
    (\<lambda>_. thread off (rc\<lparr>rc_last_fd := fd\<rparr>) wc R)"
proof (rule runs_when)
  assume "rc_last_fd rc \<noteq> fd"
  then have "rc_cache_offset rc = rc_actual_size rc" using assms by (auto simp: reading_def)
  then have "runs (thread off rc wc R) (ReadCache_flush H) (\<lambda>_. thread off rc wc R)"
    unfolding ReadCache_flush_def by (intro runs_rc runs_when) simp_all
  then show "runs (thread off rc wc R) (thenM (ReadCache_flush H) (set_rc (\<lambda>c. c\<lparr>rc_last_fd := fd\<rparr>)))
      (\<lambda>_. thread off (rc\<lparr>rc_last_fd := fd\<rparr>) wc R)"
    by (rule runs_then) (rule runs_set_rc)
next
  fix s assume a: "\<not> rc_last_fd rc \<noteq> fd" "thread off rc wc R s"
  have e: "rc\<lparr>rc_last_fd := fd\<rparr> = rc" using a(1) by (cases rc) simp
  show "thread off (rc\<lparr>rc_last_fd := fd\<rparr>) wc R s" unfolding e by (rule a(2))
qed

lemma runs_ReadCache_read:
  assumes "reading rc b off p" and "0 \<le> n" and "in_range 64 n" and "{off..<off + n} \<subseteq> dom b" and "n \<le> line \<or> p = off"
  shows "runs (thread off rc wc (\<lambda>w. serves w b p)) (ReadCache_read H fd n False is64) (finished off n wc b)"
proof -
  let ?rc = "rc\<lparr>rc_last_fd := fd\<rparr>" and ?r = "rc_actual_size rc - rc_cache_offset rc"
  have rd: "reading ?rc b off p" and line: "rc_max_line_size rc = line" and r0: "0 \<le> ?r" and p: "p = off + ?r"
    using assms(1) by (auto simp: reading_def)
  have fields: "rc_actual_size ?rc = rc_actual_size rc" "rc_cache_offset ?rc = rc_cache_offset rc" "rc_max_line_size ?rc = line"
    by (simp_all add: line)
  let ?body = "if n \<le> ?r then bindM (ReadCache_read1 n) (\<lambda>xs. returnM (n, xs))
      else bindM (ReadCache_read1 ?r) (\<lambda>xs.
        if line < n - ?r then bindM (read_request H fd (n - ?r) tid) (\<lambda>end_of_read.
          bindM (q_read_bytes H (end_of_read - off)) (\<lambda>ys. bindM (fit n (xs @ ys)) (\<lambda>zs. returnM (end_of_read - off, zs))))
        else bindM (read_request H fd line tid) (\<lambda>end_of_read.
          thenM (set_rc (\<lambda>c. c\<lparr>rc_actual_size := end_of_read - off - ?r, rc_cache_offset := 0\<rparr>))
            (thenM (whenM (0 < end_of_read - off - ?r) (bindM (q_fetch_line H) (\<lambda>line. set_rc (\<lambda>c. c\<lparr>rc_cache := Some line\<rparr>))))
              (if n - ?r < end_of_read - off - ?r then bindM (ReadCache_read1 (n - ?r)) (\<lambda>zs. returnM (n, xs @ zs))
               else bindM (ReadCache_read1 (end_of_read - off - ?r)) (\<lambda>zs. returnM (?r + (end_of_read - off - ?r), xs @ zs))))))"
  have body: "runs (thread off ?rc wc (\<lambda>w. serves w b p)) ?body (delivered off n wc b)"
  proof (cases "n \<le> ?r")
    case True
    then show ?thesis using runs_read_cached [OF rd assms(2) _ assms(4)] by simp
  next
    case False
    show ?thesis
    proof (cases "line < n - ?r")
      case True
      then have "p = off" using assms(5) r0 by linarith
      then have "?r = 0" "reading ?rc b off off" using p rd by simp_all
      then show ?thesis using False True runs_read_direct [of ?rc b off n wc, OF _ _ assms(3,4)] p
        by (simp add: ReadCache_read1_def)
    next
      case small: False
      then show ?thesis using False runs_read_line [OF rd _ _ _ _ assms(4), of ?r wc] by simp
    qed
  qed
  show ?thesis unfolding ReadCache_read_def Let_def
    by (rule runs_last_fd, rule runs_then [OF runs_own_cache [OF assms(1)]], rule runs_tid, rule runs_rc, rule runs_with_offset,
        unfold fields if_False simp_thms, rule runs_bind [OF body runs_finish])
qed

section \<open>Calls\<close>

text \<open>The thread and the server together hold the ideal file.\<close>

definition holds :: "off64 \<Rightarrow> (off64 \<rightharpoonup> cell) \<Rightarrow> read_cache \<Rightarrow> int \<Rightarrow> cell list \<Rightarrow> (off64 \<rightharpoonup> cell) \<Rightarrow> off64 \<Rightarrow> bool" where
  "holds off b rc g xs a p \<longleftrightarrow>
     0 \<le> off \<and> off < SSIZE_MAX \<and> int (length xs) < line \<and> (xs \<noteq> [] \<longrightarrow> g = fd \<and> p + int (length xs) = off) \<and>
     b = store a p xs \<and> reading rc b off (p + int (length xs))"

definition at_file :: "ideal \<Rightarrow> 'w client \<Rightarrow> bool" where
  "at_file f s \<longleftrightarrow>
     (\<exists>rc g xs a p. thread (i_pos f) rc (wcache g xs) (\<lambda>w. serves w a p) s \<and>
        holds (i_pos f) (i_bytes f) rc g xs a p \<and> (i_fresh f \<longrightarrow> p + int (length xs) = i_pos f))"

lemma at_fileI:
  "thread (i_pos f) rc (wcache g xs) (\<lambda>w. serves w a p) s \<Longrightarrow> holds (i_pos f) (i_bytes f) rc g xs a p \<Longrightarrow>
   (i_fresh f \<Longrightarrow> p + int (length xs) = i_pos f) \<Longrightarrow> at_file f s"
  unfolding at_file_def by blast

lemma runs_at_file:
  assumes "\<And>rc g xs a p. holds (i_pos f) (i_bytes f) rc g xs a p \<Longrightarrow> (i_fresh f \<Longrightarrow> p + int (length xs) = i_pos f) \<Longrightarrow>
    runs (thread (i_pos f) rc (wcache g xs) (\<lambda>w. serves w a p)) m Q"
  shows "runs (at_file f) m Q"
proof (rule runs_case)
  fix s assume "at_file f s"
  then obtain rc g xs a p where s: "thread (i_pos f) rc (wcache g xs) (\<lambda>w. serves w a p) s"
    "holds (i_pos f) (i_bytes f) rc g xs a p" "i_fresh f \<longrightarrow> p + int (length xs) = i_pos f" unfolding at_file_def by blast
  have "runs (thread (i_pos f) rc (wcache g xs) (\<lambda>w. serves w a p)) m Q" by (rule assms [OF s(2)]) (use s(3) in simp)
  then show "runs (\<lambda>t. t = s) m Q" by (rule runs_pre) (simp add: s(1))
qed

lemma runs_sync_read:
  assumes "holds off b rc g xs a p"
  shows "runs (thread off rc (wcache g xs) (\<lambda>w. serves w a p)) (ReadCache_flush H)
    (\<lambda>_. thread off (emptied rc) (wcache g xs) (\<lambda>w. serves w a (off - int (length xs))))"
proof (cases "xs = []")
  case True
  show ?thesis using runs_ReadCache_flush [of p off rc "wcache g xs" a] assms True by (auto simp: holds_def reading_def)
next
  case False
  then have "rc_cache_offset rc = rc_actual_size rc" "p = off - int (length xs)" using assms by (auto simp: holds_def reading_def)
  then show ?thesis unfolding ReadCache_flush_def emptied_def by (intro runs_rc runs_when) simp_all
qed

lemma holds_emptied: "holds off b rc g xs a p \<Longrightarrow> holds off b (emptied rc) g xs a (off - int (length xs))"
  unfolding holds_def using reading_emptied [of rc b off "p + int (length xs)" b off] by auto

lemma runs_cachesFileOf:
  assumes "reading rc b off q" and "runs (thread o' rc wc R) (k (rc_last_fd rc = fd)) Q"
  shows "runs (thread o' rc wc R) (bindM (cachesFileOf fd) k) Q"
proof (cases "rc_last_fd rc = fd")
  case True
  then show ?thesis unfolding cachesFileOf_def bindM_assoc using assms(2) by (intro runs_last_fd) simp
next
  case False
  then have last: "rc_last_fd rc = - 1" using assms(1) by (simp add: reading_def)
  then have ne: "fd \<noteq> rc_last_fd rc" using ids(3) by simp
  have "runs (thread o' rc wc R) (bindM (exists_capio_fd (rc_last_fd rc)) (\<lambda>b. bindM (if \<not> b then returnM False else
      bindM (get_capio_fd_path fd) (\<lambda>p. bindM (get_capio_fd_path (rc_last_fd rc)) (\<lambda>q. returnM (p = q)))) k)) Q"
    unfolding exists_capio_fd_def
    by (rule runs_bind_gets [where v = False]) (use assms(2) False last in \<open>auto simp: thread_def\<close>)
  then show ?thesis unfolding cachesFileOf_def bindM_assoc
    by (intro runs_last_fd) (simp only: if_not_P [OF ne] bindM_assoc)
qed

lemma runs_capio_write:
  assumes "length ys \<le> max (h_cache_line_size H) room" and "i_pos f + int (length ys) < SSIZE_MAX"
  shows "runs (at_file f) (capio_write H fd ys) (\<lambda>v s. v = int (length ys) \<and>
    at_file (f\<lparr>i_bytes := store (i_bytes f) (i_pos f) ys, i_pos := i_pos f + int (length ys), i_fresh := True\<rparr>) s)"
proof (rule runs_at_file)
  let ?off = "i_pos f" and ?n = "i_pos f + int (length ys)"
  let ?f = "f\<lparr>i_bytes := store (i_bytes f) (i_pos f) ys, i_pos := i_pos f + int (length ys), i_fresh := True\<rparr>"
  fix rc g xs a p assume h: "holds ?off (i_bytes f) rc g xs a p"
  let ?p = "?off - int (length xs)"
  have rd: "reading rc (i_bytes f) ?off (p + int (length xs))" and off: "0 \<le> ?off" using h unfolding holds_def by blast+
  have h': "holds ?off (i_bytes f) (emptied rc) g xs a ?p" by (rule holds_emptied [OF h])
  have "runs (thread ?off rc (wcache g xs) (\<lambda>w. serves w a p)) (whenM (rc_last_fd rc = fd) (ReadCache_flush H))
      (\<lambda>_. thread ?off (emptied rc) (wcache g xs) (\<lambda>w. serves w a ?p))"
  proof (rule runs_when)
    fix s assume "\<not> rc_last_fd rc = fd" and s: "thread ?off rc (wcache g xs) (\<lambda>w. serves w a p) s"
    then have "emptied rc = rc" "p = ?p" using rd by (auto simp: emptied_def reading_def)
    then show "thread ?off (emptied rc) (wcache g xs) (\<lambda>w. serves w a ?p) s" using s by simp
  qed (rule runs_sync_read [OF h])
  moreover have "runs (thread ?off (emptied rc) (wcache g xs) (\<lambda>w. serves w a ?p)) (WriteCache_write H fd ys)
      (\<lambda>_. writing ?n ?n (emptied rc) (store a ?p (xs @ ys)))"
    by (rule runs_WriteCache_write) (use h h' assms off in \<open>auto simp: holds_def in_range_def\<close>)
  ultimately have w: "runs (thread ?off rc (wcache g xs) (\<lambda>w. serves w a p)) (capio_cached_write H fd ys)
      (\<lambda>_. writing ?n ?n (emptied rc) (store a ?p (xs @ ys)))"
    unfolding capio_cached_write_def by (intro runs_cachesFileOf [OF rd]) (rule runs_then)
  have b: "store (i_bytes f) ?off ys = store a ?p (xs @ ys)"
    using h' store_append [of a ?p xs ys] unfolding holds_def by simp
  have fin: "at_file ?f s" if wr: "writing ?n ?n (emptied rc) (store a ?p (xs @ ys)) s" for s
  proof -
    obtain zs c q where z: "thread ?n (emptied rc) (wcache fd zs) (\<lambda>w. serves w c q) s" "int (length zs) < line"
      "q + int (length zs) = ?n" "store a ?p (xs @ ys) = store c q zs" using wr by (auto simp: writing_def)
    have "holds ?n (store (i_bytes f) ?off ys) (emptied rc) fd zs c q"
      unfolding holds_def using z reading_emptied [OF rd] off assms(2) b by simp
    then show ?thesis using z(1,3) by (intro at_fileI [of _ "emptied rc" fd zs c q]) simp_all
  qed
  have "\<not> SSIZE_MAX < int (length ys)" using off assms(2) by linarith
  then show "runs (thread ?off rc (wcache g xs) (\<lambda>w. serves w a p)) (capio_write H fd ys)
      (\<lambda>v s. v = int (length ys) \<and> at_file ?f s)"
    unfolding capio_write_def
    by (intro runs_exists) (simp, rule runs_then [OF w], rule runs_return, simp add: fin)
qed

lemma runs_capio_read:
  assumes "0 \<le> n" and "i_pos f + n < SSIZE_MAX" and "{i_pos f..<i_pos f + n} \<subseteq> dom (i_bytes f)"
    and "n \<le> line \<or> i_fresh f"
  shows "runs (at_file f) (capio_read H fd n) (\<lambda>v s. v = (n, contents (i_bytes f) (i_pos f) (nat n)) \<and>
    at_file (f\<lparr>i_pos := i_pos f + n, i_fresh := False\<rparr>) s)"
proof (rule runs_at_file)
  let ?off = "i_pos f" and ?b = "i_bytes f" and ?f = "f\<lparr>i_pos := i_pos f + n, i_fresh := False\<rparr>"
  fix rc g xs a p assume h: "holds ?off ?b rc g xs a p" and fresh: "i_fresh f \<Longrightarrow> p + int (length xs) = ?off"
  have b: "?b = store a p xs" and rd: "reading rc ?b ?off (p + int (length xs))" and off: "0 \<le> ?off"
    and xs: "int (length xs) < line" "xs \<noteq> [] \<Longrightarrow> g = fd"
    using h unfolding holds_def by blast+
  have flush: "runs (thread ?off rc (wcache g xs) (\<lambda>w. serves w a p)) (WriteCache_flush H)
      (\<lambda>_. thread ?off rc (wcache g []) (\<lambda>w. serves w ?b (p + int (length xs))))"
    unfolding b by (rule runs_WriteCache_flush) (use xs in simp_all)
  have "runs (thread ?off rc (wcache g []) (\<lambda>w. serves w ?b (p + int (length xs)))) (ReadCache_read H fd n False False)
      (finished ?off n (wcache g []) ?b)"
    by (rule runs_ReadCache_read [OF rd assms(1) _ assms(3)]) (use assms(1,2,4) off fresh in \<open>auto simp: in_range_def\<close>)
  moreover have "at_file ?f s" if fin: "finished ?off n (wcache g []) ?b r s" for r s
  proof -
    obtain rc' q where s: "thread (?off + n) rc' (wcache g []) (\<lambda>w. serves w ?b q) s" "reading rc' ?b (?off + n) q"
      using fin by (auto simp: finished_def)
    have "holds (?off + n) ?b rc' g [] ?b q" unfolding holds_def using s(2) off assms(1,2) line_pos by simp
    then show ?thesis using s(1) by (intro at_fileI [of _ rc' g "[]" ?b q]) simp_all
  qed
  ultimately have "runs (thread ?off rc (wcache g xs) (\<lambda>w. serves w a p)) (capio_cached_read H fd n)
      (\<lambda>v s. v = (n, contents ?b ?off (nat n)) \<and> at_file ?f s)"
    unfolding capio_cached_read_def by (intro runs_then [OF flush]) (erule runs_post, auto simp: finished_def)
  moreover have "\<not> SSIZE_MAX \<le> n" using off assms(2) by linarith
  ultimately show "runs (thread ?off rc (wcache g xs) (\<lambda>w. serves w a p)) (capio_read H fd n)
      (\<lambda>v s. v = (n, contents ?b ?off (nat n)) \<and> at_file ?f s)"
    unfolding capio_read_def by (intro runs_exists) simp
qed

text \<open>A seek: both caches are emptied, and the server follows.\<close>

lemma runs_flush_both:
  assumes "holds off b rc g xs a p"
    and "runs (thread off (emptied rc) (wcache g []) (\<lambda>w. serves w b off)) k Q"
  shows "runs (thread off rc (wcache g xs) (\<lambda>w. serves w a p)) (thenM (ReadCache_flush H) (thenM (WriteCache_flush H) k)) Q"
proof -
  have h: "holds off b (emptied rc) g xs a (off - int (length xs))" by (rule holds_emptied [OF assms(1)])
  have "runs (thread off (emptied rc) (wcache g xs) (\<lambda>w. serves w a (off - int (length xs)))) (WriteCache_flush H)
      (\<lambda>_. thread off (emptied rc) (wcache g []) (\<lambda>w. serves w (store a (off - int (length xs)) xs) (off - int (length xs) + int (length xs))))"
    by (rule runs_WriteCache_flush) (use h in \<open>auto simp: holds_def\<close>)
  moreover have "store a (off - int (length xs)) xs = b" using h unfolding holds_def by blast
  ultimately have "runs (thread off (emptied rc) (wcache g xs) (\<lambda>w. serves w a (off - int (length xs)))) (WriteCache_flush H)
      (\<lambda>_. thread off (emptied rc) (wcache g []) (\<lambda>w. serves w b off))" by simp
  then have "runs (thread off (emptied rc) (wcache g xs) (\<lambda>w. serves w a (off - int (length xs)))) (thenM (WriteCache_flush H) k) Q"
    by (rule runs_then) (rule assms(2))
  then show ?thesis by (rule runs_then [OF runs_sync_read [OF assms(1)]])
qed

lemma holds_still: "holds off b rc g xs a p \<Longrightarrow> 0 \<le> n \<Longrightarrow> n < SSIZE_MAX \<Longrightarrow> holds n b (emptied rc) g [] b n"
  unfolding holds_def using reading_emptied line_pos by auto

lemma emptied_twice: "emptied (emptied rc) = emptied rc"
  by (simp add: emptied_def)

lemma runs_move:
  assumes "holds off b rc g xs a p" and "0 \<le> n" and "n < SSIZE_MAX"
  shows "runs (thread off (emptied rc) (wcache g []) (\<lambda>w. serves w b off)) (capio_set_fd_offset H fd n tid)
    (\<lambda>_. thread n (emptied rc) (wcache g []) (\<lambda>w. serves w b n))"
proof -
  have "holds off b (emptied rc) g [] b off" by (rule holds_still [OF assms(1)]) (use assms(1) in \<open>auto simp: holds_def\<close>)
  moreover have "runs (thread off (emptied rc) (wcache g []) (\<lambda>w. serves w b off))
      (thenM (set_capio_fd_offset fd n) (bindM (seek_request H fd n tid) (\<lambda>_. returnM ())))
      (\<lambda>_. thread n (emptied rc) (wcache g []) (\<lambda>w. serves w b n))"
    by (rule runs_then [OF runs_set_offset], rule runs_bind [OF runs_seek_request [OF assms(2,3)]], rule runs_return)
  ultimately show ?thesis unfolding capio_set_fd_offset_def
    by (intro runs_flush_both) (simp_all add: emptied_twice)
qed

lemma runs_capio_lseek:
  assumes "whence = SEEK_SET \<and> n = off \<or> whence = SEEK_CUR \<and> n = i_pos f + off" and "n < SSIZE_MAX"
  shows "runs (at_file f) (capio_lseek H fd off whence tid) (\<lambda>v s.
    if 0 \<le> n then v = n \<and> at_file (f\<lparr>i_pos := n, i_fresh := True\<rparr>) s
    else v = - 1 \<and> c_errno s = EINVAL \<and> at_file (f\<lparr>i_fresh := True\<rparr>) s)"
proof (rule runs_at_file)
  let ?off = "i_pos f" and ?b = "i_bytes f"
  let ?Q = "\<lambda>v s. if 0 \<le> n then v = n \<and> at_file (f\<lparr>i_pos := n, i_fresh := True\<rparr>) s
    else v = - 1 \<and> c_errno s = EINVAL \<and> at_file (f\<lparr>i_fresh := True\<rparr>) s"
  fix rc g xs a p assume h: "holds ?off ?b rc g xs a p"
  have off: "0 \<le> ?off" "?off < SSIZE_MAX" using h unfolding holds_def by blast+
  let ?P = "thread ?off (emptied rc) (wcache g []) (\<lambda>w. serves w ?b ?off)"
  have "runs ?P (thenM (capio_set_fd_offset H fd n tid) (returnM n)) ?Q" if "0 \<le> n"
  proof (rule runs_then [OF runs_move [OF h that assms(2)]], rule runs_return)
    fix s assume "thread n (emptied rc) (wcache g []) (\<lambda>w. serves w ?b n) s"
    then have "at_file (f\<lparr>i_pos := n, i_fresh := True\<rparr>) s"
      using holds_still [OF h that assms(2)] by (intro at_fileI [of _ "emptied rc" g "[]" ?b n]) simp_all
    then show "?Q n s" using that by simp
  qed
  moreover have "runs ?P (fail_errno EINVAL) ?Q" if "\<not> 0 \<le> n"
    unfolding fail_errno_def set_errno_def
  proof (rule runs_then [OF runs_modify [where Q = "\<lambda>_ s. c_errno s = EINVAL \<and> ?P s"]], simp add: thread_def, rule runs_return, elim conjE)
    fix s assume s: "c_errno s = EINVAL" "?P s"
    then have "at_file (f\<lparr>i_fresh := True\<rparr>) s"
      using holds_still [OF h off] by (intro at_fileI [of _ "emptied rc" g "[]" ?b ?off]) simp_all
    then show "?Q CAPIO_POSIX_SYSCALL_ERRNO s" using that s(1) by (simp add: CAPIO_POSIX_SYSCALL_ERRNO_def)
  qed
  ultimately have "runs ?P (if 0 \<le> n then thenM (capio_set_fd_offset H fd n tid) (returnM n) else fail_errno EINVAL) ?Q"
    by (cases "0 \<le> n") simp_all
  then show "runs (thread ?off rc (wcache g xs) (\<lambda>w. serves w a p)) (capio_lseek H fd off whence tid) ?Q"
    unfolding capio_lseek_def using assms(1)
    by (intro runs_exists) (auto intro!: runs_flush_both [OF h] runs_with_offset simp: Let_def)
qed

section \<open>Sessions\<close>

lemma runs_hook:
  assumes "runs P (syscall_table 0 H c) Q" and "c \<noteq> Sys_futex" and "c \<noteq> Sys_other"
  shows "runs P (hook 0 H False (Some dir) c) Q"
proof (rule runsMI)
  fix s assume "P s"
  from runsMD [OF assms(1) this] show "case hook 0 H False (Some dir) c s of Inl e \<Rightarrow> fatal e | Inr (x, t) \<Rightarrow> Q x t"
    using assms(2,3) exits by (auto simp: hook_def split: sum.splits fault.splits)
qed

lemma runs_return_value:
  assumes "\<And>s. P s \<Longrightarrow> v \<noteq> - 2 \<and> Q \<lparr>o_return = CAPIO_POSIX_SYSCALL_SUCCESS, o_result = Some (if v < 0 then - c_errno s else v), o_out = out\<rparr> s"
  shows "runs P (posix_return_value v out) Q"
  using assms unfolding posix_return_value_def
  by (auto simp: CAPIO_POSIX_SYSCALL_REQUEST_SKIP_def runsM_def bindM_def getsM_def returnM_def)

lemma runs_call:
  assumes "ideal_ok fd (h_cache_line_size H) room c f"
  shows "runs (at_file f) (hook 0 H False (Some dir) c) (\<lambda>r s. r = fst (ideal_call c f) \<and> at_file (snd (ideal_call c f)) s)"
proof -
  consider (w) ys where "c = Sys_write fd ys" "length ys \<le> max (h_cache_line_size H) room" "i_pos f + int (length ys) < SSIZE_MAX"
    | (r) n where "c = Sys_read fd n" "0 \<le> n" "i_pos f + n < SSIZE_MAX" "{i_pos f..<i_pos f + n} \<subseteq> dom (i_bytes f)"
        "n \<le> line \<or> i_fresh f"
    | (l) off whence where "c = Sys_lseek fd off whence"
        "whence = SEEK_SET \<and> off < SSIZE_MAX \<or> whence = SEEK_CUR \<and> i_pos f + off < SSIZE_MAX"
    using assms by (cases c) (simp_all add: ideal_ok_def)
  then show ?thesis
  proof cases
    case w
    have "runs (at_file f) (posix_write_handler H fd ys) (\<lambda>r s. r = fst (ideal_call c f) \<and> at_file (snd (ideal_call c f)) s)"
      unfolding posix_write_handler_def returnsI_def w(1)
      by (rule runs_bind [OF runs_capio_write [OF w(2,3)]], rule runs_return_value) (auto simp: ideal_call_def handled_def)
    then show ?thesis by (intro runs_hook) (simp_all add: w(1))
  next
    case r
    have "runs (at_file f) (posix_read_handler H fd n) (\<lambda>r s. r = fst (ideal_call c f) \<and> at_file (snd (ideal_call c f)) s)"
      unfolding posix_read_handler_def r(1)
      by (rule runs_bind [OF runs_capio_read [OF r(2-5)]], split prod.split, intro allI impI, rule runs_return_value)
         (use r(2) in \<open>auto simp: ideal_call_def\<close>)
    then show ?thesis by (intro runs_hook) (simp_all add: r(1))
  next
    case l
    let ?n = "if whence = SEEK_SET then off else i_pos f + off"
    have n: "whence = SEEK_SET \<and> ?n = off \<or> whence = SEEK_CUR \<and> ?n = i_pos f + off" "?n < SSIZE_MAX" using l(2) by auto
    have "runs (at_file f) (bindM (capio_lseek H fd off whence tid) (\<lambda>r. posix_return_value r Out_none))
        (\<lambda>r s. r = fst (ideal_call c f) \<and> at_file (snd (ideal_call c f)) s)"
      unfolding l(1)
      by (rule runs_bind [OF runs_capio_lseek [OF n]], rule runs_return_value)
         (auto simp: ideal_call_def ideal_seek_def handled_def split: if_splits)
    then have "runs (at_file f) (posix_lseek_handler H fd off whence) (\<lambda>r s. r = fst (ideal_call c f) \<and> at_file (snd (ideal_call c f)) s)"
      unfolding posix_lseek_handler_def withTid_def returnsI_def
      by (intro runs_bind_gets) (auto simp: at_file_def thread_def)
    then show ?thesis by (intro runs_hook) (simp_all add: l(1))
  qed
qed

lemma runs_session:
  "ideal_session_ok fd (h_cache_line_size H) room cs f \<Longrightarrow>
   runs (at_file f) (session H dir cs) (\<lambda>rs s. rs = fst (ideal_session cs f) \<and> at_file (snd (ideal_session cs f)) s)"
proof (induction cs arbitrary: f)
  case Nil
  then show ?case by (simp add: runs_return)
next
  case (Cons c cs)
  let ?g = "snd (ideal_call c f)"
  have ok: "ideal_ok fd (h_cache_line_size H) room c f" "ideal_session_ok fd (h_cache_line_size H) room cs ?g" using Cons.prems by simp_all
  have "runs (\<lambda>s. r = fst (ideal_call c f) \<and> at_file ?g s) (bindM (session H dir cs) (\<lambda>rs. returnM (r # rs)))
      (\<lambda>rs s. rs = fst (ideal_session (c # cs) f) \<and> at_file (snd (ideal_session (c # cs) f)) s)" for r
  proof (rule runs_case, elim conjE)
    fix s assume r: "r = fst (ideal_call c f)" and s: "at_file ?g s"
    have "runs (at_file ?g) (bindM (session H dir cs) (\<lambda>rs. returnM (r # rs)))
      (\<lambda>rs s. rs = fst (ideal_session (c # cs) f) \<and> at_file (snd (ideal_session (c # cs) f)) s)"
      by (rule runs_bind [OF Cons.IH [OF ok(2)]], rule runs_return) (simp add: r split_beta)
    then show "runs (\<lambda>t. t = s) (bindM (session H dir cs) (\<lambda>rs. returnM (r # rs)))
      (\<lambda>rs s. rs = fst (ideal_session (c # cs) f) \<and> at_file (snd (ideal_session (c # cs) f)) s)"
      by (rule runs_pre) (simp add: s)
  qed
  then show ?case unfolding session.simps by (rule runs_bind [OF runs_call [OF ok(1)]])
qed

end

end
