(* ===== verification/Posix_Tables.thy ===== *)
theory Posix_Tables
  imports Posix_Hook
begin

text \<open>
  What every handler of the library respects.

  \<open>yieldsM\<close> is about the value an operation returns: an intercepted call that CAPIO answers has a
  result. \<open>client_wf\<close> is the agreement of the three tables of the library: a descriptor that is
  in one of them is in all, with one path that lists it, and has an offset. The locale
  \<open>kernel_descriptors\<close> states what the library relies on from the kernel: the descriptors it
  hands out are not in use. In it, every call keeps the tables in agreement, provided that it
  does not duplicate onto an open CAPIO descriptor or rename onto a path the library knows.
\<close>

section \<open>Values\<close>

named_theorems yields_intros \<open>values an operation can return, one rule per construct\<close>

definition yieldsM :: "('a \<Rightarrow> bool) \<Rightarrow> ('a, 's) comp \<Rightarrow> bool" where
  "yieldsM P m \<longleftrightarrow> (\<forall>s x t. m s = Inr (x, t) \<longrightarrow> P x)"

lemma yieldsMI: "(\<And>s x t. m s = Inr (x, t) \<Longrightarrow> P x) \<Longrightarrow> yieldsM P m"
  by (auto simp: yieldsM_def)

lemma yieldsMD: "yieldsM P m \<Longrightarrow> m s = Inr (x, t) \<Longrightarrow> P x"
  by (auto simp: yieldsM_def)

lemma yields_return: "P x \<Longrightarrow> yieldsM P (returnM x)"
  by (simp add: yieldsM_def returnM_def)

lemma yields_fail [yields_intros]: "yieldsM P (failM f)"
  by (simp add: yieldsM_def failM_def)

lemma yields_bind [yields_intros]: "(\<And>x. yieldsM P (k x)) \<Longrightarrow> yieldsM P (bindM m k)"
  by (rule yieldsMI) (auto simp: bindM_Inr_iff dest: yieldsMD)

lemma yields_then [yields_intros]: "yieldsM P k \<Longrightarrow> yieldsM P (thenM m k)"
  unfolding thenM_def by (rule yields_bind)

lemma yields_if [yields_intros]: "yieldsM P m \<Longrightarrow> yieldsM P k \<Longrightarrow> yieldsM P (if b then m else k)"
  by simp

lemma yields_case_option [yields_intros]:
  "yieldsM P m \<Longrightarrow> (\<And>x. yieldsM P (k x)) \<Longrightarrow> yieldsM P (case r of None \<Rightarrow> m | Some x \<Rightarrow> k x)"
  by (cases r) simp_all

lemma yields_case_prod [yields_intros]:
  "(\<And>x y. yieldsM P (k x y)) \<Longrightarrow> yieldsM P (case p of (x, y) \<Rightarrow> k x y)"
  by (cases p) simp

definition answered :: "outcome \<Rightarrow> bool" where
  "answered r \<longleftrightarrow>
     o_return r \<in> {CAPIO_POSIX_SYSCALL_SUCCESS, CAPIO_POSIX_SYSCALL_SKIP, CAPIO_POSIX_SYSCALL_REQUEST_SKIP} \<and>
     (o_return r = CAPIO_POSIX_SYSCALL_SUCCESS \<longrightarrow> o_result r \<noteq> None)"

lemma answered_simps [simp]: "answered skipped" "answered (handled r)" "answered ((handled r)\<lparr>o_out := v\<rparr>)"
  "answered (skipped\<lparr>o_return := CAPIO_POSIX_SYSCALL_REQUEST_SKIP\<rparr>)"
  "answered \<lparr>o_return = CAPIO_POSIX_SYSCALL_SUCCESS, o_result = Some r, o_out = v\<rparr>"
  "answered \<lparr>o_return = CAPIO_POSIX_SYSCALL_SKIP, o_result = q, o_out = v\<rparr>"
  by (simp_all add: answered_def skipped_def handled_def CAPIO_POSIX_SYSCALL_SUCCESS_def CAPIO_POSIX_SYSCALL_SKIP_def
      CAPIO_POSIX_SYSCALL_REQUEST_SKIP_def)

lemma yields_answered_return [yields_intros]: "answered r \<Longrightarrow> yieldsM answered (returnM r)"
  by (rule yields_return)

lemma yields_posix_return_value [yields_intros]: "yieldsM answered (posix_return_value r v)"
  unfolding posix_return_value_def by (intro yields_intros) simp_all

lemma yields_returns [yields_intros]: "yieldsM answered (returns m)" "yieldsM answered (returnsI n)"
  "(\<And>tid. yieldsM answered (k tid)) \<Longrightarrow> yieldsM answered (withTid k)" "yieldsM answered handled_errno"
  unfolding returns_def returnsI_def withTid_def handled_errno_def by (intro yields_intros; simp)+

lemmas posix_handler_defs =
  posix_access_handler_def posix_faccessat_handler_def posix_chdir_handler_def posix_fchmod_handler_def
  posix_fchown_handler_def posix_close_handler_def posix_copy_file_range_handler_def posix_creat_handler_def
  posix_dup_handler_def posix_dup2_handler_def posix_dup3_handler_def posix_execve_handler_def
  posix_exit_handler_def posix_fgetxattr_handler_def posix_fork_handler_def posix_fstat_handler_def
  posix_fstatfs_handler_def posix_getcwd_handler_def posix_getdents_handler_def posix_getdents64_handler_def
  posix_getdents_handler_impl_def posix_ioctl_handler_def posix_lseek_handler_def posix_lstat_handler_def
  posix_mkdir_handler_def posix_mkdirat_handler_def posix_fstatat_handler_def posix_open_handler_def
  posix_openat_handler_def posix_read_handler_def posix_readv_handler_def posix_rename_handler_def
  posix_renameat_handler_def posix_renameat2_handler_def posix_rmdir_handler_def posix_sendfile_handler_def
  posix_splice_handler_def capio_refuse_in_kernel_copy_def posix_stat_handler_def posix_statx_handler_def
  posix_unlink_handler_def posix_unlinkat_handler_def posix_write_handler_def posix_writev_handler_def
  not_implemented_handler_def

lemma yields_fcntl: "yieldsM answered (posix_fcntl_handler H fd cmd a lock hint)"
  unfolding posix_fcntl_handler_def by (intro yields_intros; simp)

lemma yields_not_handled: "yieldsM answered not_handled_handler"
  unfolding not_handled_handler_def
  by (rule yields_return) (simp add: answered_def CAPIO_POSIX_SYSCALL_SUCCESS_def CAPIO_POSIX_SYSCALL_SKIP_def)

lemma yields_syscall_table: "yieldsM answered (syscall_table fuel H c)"
  by (cases c) (simp_all only: syscall_table.simps yields_fcntl yields_not_handled, (unfold posix_handler_defs; intro yields_intros; simp)+)



section \<open>Agreement of the tables\<close>

definition tables_agree :: "(int \<rightharpoonup> file_entry) \<Rightarrow> (int \<rightharpoonup> path) \<Rightarrow> (path \<rightharpoonup> int list) \<Rightarrow> nat \<Rightarrow> bool" where
  "tables_agree F D P n \<longleftrightarrow>
     (\<forall>fd. F fd = None \<longleftrightarrow> D fd = None) \<and>
     (\<forall>fd p. D fd = Some p \<longrightarrow> (\<exists>fds. P p = Some fds \<and> fd \<in> set fds)) \<and>
     (\<forall>p fds fd. P p = Some fds \<longrightarrow> fd \<in> set fds \<longrightarrow> D fd = Some p) \<and>
     (\<forall>fd e. F fd = Some e \<longrightarrow> fe_offset e < n)"

definition client_wf :: "'w client \<Rightarrow> bool" where
  "client_wf s \<longleftrightarrow>
     distinct (map fst (c_files s)) \<and> distinct (map fst (c_descriptors s)) \<and> distinct (map fst (c_paths s)) \<and>
     tables_agree (map_of (c_files s)) (map_of (c_descriptors s)) (map_of (c_paths s)) (length (c_offsets s))"

lemma client_wf_cong:
  assumes "client_wf s" and "c_files t = c_files s" and "c_descriptors t = c_descriptors s"
    and "c_paths t = c_paths s" and "length (c_offsets t) = length (c_offsets s)"
  shows "client_wf t"
  unfolding client_wf_def assms(2-5) by (rule assms(1) [unfolded client_wf_def])

text \<open>What most operations leave alone: the tables, and the descriptors open in the kernel.\<close>

definition lib_le :: "('w \<Rightarrow> int set) \<Rightarrow> 'w client \<Rightarrow> 'w client \<Rightarrow> bool" where
  "lib_le open_fds r s \<longleftrightarrow>
     c_files s = c_files r \<and> c_descriptors s = c_descriptors r \<and> c_paths s = c_paths r \<and>
     length (c_offsets s) = length (c_offsets r) \<and> open_fds (c_world r) \<subseteq> open_fds (c_world s)"

lemma lib_le_refl [simp]: "lib_le open_fds s s"
  by (simp add: lib_le_def)

definition lib_ok :: "('w \<Rightarrow> int set) \<Rightarrow> 'w client \<Rightarrow> bool" where
  "lib_ok open_fds s \<longleftrightarrow> client_wf s \<and> (\<forall>fd. map_of (c_files s) fd \<noteq> None \<longrightarrow> fd \<in> open_fds (c_world s))"

lemma lib_ok_le: "lib_ok open_fds r \<Longrightarrow> lib_le open_fds r s \<Longrightarrow> lib_ok open_fds s"
  unfolding lib_ok_def lib_le_def using client_wf_cong [of r s] by auto

definition quietM :: "('w \<Rightarrow> int set) \<Rightarrow> ('a, 'w) lib \<Rightarrow> bool" where
  "quietM open_fds m \<longleftrightarrow> (\<forall>r. keepsM (lib_le open_fds r) m)"

lemma quietD: "quietM open_fds m \<Longrightarrow> m s = Inr (x, t) \<Longrightarrow> lib_le open_fds s t"
  unfolding quietM_def by (meson keepsMD lib_le_refl)

lemma quiet_keeps_ok: "quietM open_fds m \<Longrightarrow> keepsM (lib_ok open_fds) m"
  by (rule keepsMI) (blast intro: lib_ok_le dest: quietD)

subsection \<open>The operations on the tables\<close>

lemma agreeI:
  assumes "\<And>fd. F fd = None \<longleftrightarrow> D fd = None"
    and "\<And>fd p. D fd = Some p \<Longrightarrow> \<exists>fds. P p = Some fds \<and> fd \<in> set fds"
    and "\<And>p fds fd. P p = Some fds \<Longrightarrow> fd \<in> set fds \<Longrightarrow> D fd = Some p"
    and "\<And>fd e. F fd = Some e \<Longrightarrow> fe_offset e < n"
  shows "tables_agree F D P n"
  using assms unfolding tables_agree_def by blast

lemma agreeD:
  assumes "tables_agree F D P n"
  shows "F fd = None \<longleftrightarrow> D fd = None"
    and "D fd = Some p \<Longrightarrow> \<exists>fds. P p = Some fds \<and> fd \<in> set fds"
    and "P p = Some fds \<Longrightarrow> fd \<in> set fds \<Longrightarrow> D fd = Some p"
    and "F fd = Some e \<Longrightarrow> fe_offset e < n"
  using assms unfolding tables_agree_def by blast+

lemma agree_add_path: "tables_agree F D P n \<Longrightarrow> P p = None \<Longrightarrow> tables_agree F D (P(p \<mapsto> [])) n"
proof (rule agreeI)
  fix fd q assume a: "tables_agree F D P n" "P p = None" "D fd = Some q"
  then obtain fds where "P q = Some fds" "fd \<in> set fds" using agreeD(2) by blast
  moreover from this have "q \<noteq> p" using a(2) by auto
  ultimately show "\<exists>fds. (P(p \<mapsto> [])) q = Some fds \<and> fd \<in> set fds" by simp
qed (use agreeD in \<open>fastforce split: if_splits\<close>)+

lemma agree_add_fd:
  assumes ag: "tables_agree F D P n" and F: "F fd = None" and P: "P p = Some fds" and "fe_offset e < m" and "n \<le> m"
  shows "tables_agree (F(fd \<mapsto> e)) (D(fd \<mapsto> p)) (P(p \<mapsto> List.insert fd fds)) m"
proof (rule agreeI)
  fix fd' q assume "(D(fd \<mapsto> p)) fd' = Some q"
  then show "\<exists>fds'. (P(p \<mapsto> List.insert fd fds)) q = Some fds' \<and> fd' \<in> set fds'"
    using agreeD(2) [OF ag, of fd' q] P by (cases "fd' = fd"; cases "q = p") auto
next
  fix q fds' fd' assume "(P(p \<mapsto> List.insert fd fds)) q = Some fds'" "fd' \<in> set fds'"
  moreover have "D fd = None" using agreeD(1) [OF ag] F by blast
  ultimately show "(D(fd \<mapsto> p)) fd' = Some q"
    using agreeD(3) [OF ag, of q _ fd'] P by (cases "q = p"; cases "fd' = fd") auto
next
  fix fd' e' assume "(F(fd \<mapsto> e)) fd' = Some e'"
  then show "fe_offset e' < m" using agreeD(4) [OF ag, of fd' e'] assms(4,5) by (cases "fd' = fd") auto
qed (use agreeD(1) [OF ag] in simp)

lemma agree_delete_fd:
  assumes ag: "tables_agree F D P n" and D: "D fd = Some p" and P: "P p = Some fds"
  shows "tables_agree (F(fd := None)) (D(fd := None)) (P(p \<mapsto> removeAll fd fds)) n"
proof (rule agreeI)
  fix fd' q assume "(D(fd := None)) fd' = Some q"
  then show "\<exists>fds'. (P(p \<mapsto> removeAll fd fds)) q = Some fds' \<and> fd' \<in> set fds'"
    using agreeD(2) [OF ag, of fd' q] P by (cases "fd' = fd"; cases "q = p") auto
next
  fix q fds' fd' assume "(P(p \<mapsto> removeAll fd fds)) q = Some fds'" "fd' \<in> set fds'"
  then show "(D(fd := None)) fd' = Some q"
    using agreeD(3) [OF ag, of q _ fd'] P D by (cases "q = p"; cases "fd' = fd") auto
next
  fix fd' e' assume "(F(fd := None)) fd' = Some e'"
  then show "fe_offset e' < n" using agreeD(4) [OF ag, of fd' e'] by (cases "fd' = fd") auto
qed (use agreeD(1) [OF ag] in simp)

lemma agree_delete_path:
  assumes ag: "tables_agree F D P n" and P: "P p = Some []"
  shows "tables_agree F D (P(p := None)) n"
proof (rule agreeI)
  fix fd q assume "D fd = Some q"
  then show "\<exists>fds. (P(p := None)) q = Some fds \<and> fd \<in> set fds"
    using agreeD(2) [OF ag, of fd q] P by (cases "q = p") auto
next
  fix q fds fd assume "(P(p := None)) q = Some fds" "fd \<in> set fds"
  then show "D fd = Some q" using agreeD(3) [OF ag, of q fds fd] by (cases "q = p") auto
qed (use agreeD(1,4) [OF ag] in blast)+

lemma agree_same_offsets:
  assumes ag: "tables_agree F D P n" and F: "F fd = Some e" and "fe_offset e' = fe_offset e"
  shows "tables_agree (F(fd \<mapsto> e')) D P n"
proof (rule agreeI)
  fix fd' show "(F(fd \<mapsto> e')) fd' = None \<longleftrightarrow> D fd' = None" using agreeD(1) [OF ag, of fd'] F by auto
next
  fix fd' e'' assume "(F(fd \<mapsto> e')) fd' = Some e''"
  then show "fe_offset e'' < n" using agreeD(4) [OF ag] F assms(3) by (cases "fd' = fd") auto
qed (use agreeD(2,3) [OF ag] in blast)+

lemma agree_rename:
  assumes ag: "tables_agree F D P n" and P: "P old = Some fds" "P new = None"
  shows "tables_agree F (\<lambda>fd. if fd \<in> set fds then Some new else D fd) (P(old := None, new \<mapsto> fds)) n"
proof (rule agreeI)
  fix fd show "F fd = None \<longleftrightarrow> (if fd \<in> set fds then Some new else D fd) = None"
    using agreeD(1) [OF ag, of fd] agreeD(3) [OF ag P(1), of fd] by simp
next
  fix fd q assume "(if fd \<in> set fds then Some new else D fd) = Some q"
  then show "\<exists>fds'. (P(old := None, new \<mapsto> fds)) q = Some fds' \<and> fd \<in> set fds'"
    using agreeD(2) [OF ag, of fd q] P by (cases "fd \<in> set fds"; cases "q = new"; cases "q = old") auto
next
  fix q fds' fd assume "(P(old := None, new \<mapsto> fds)) q = Some fds'" "fd \<in> set fds'"
  then show "(if fd \<in> set fds then Some new else D fd) = Some q"
    using agreeD(3) [OF ag, of q fds' fd] agreeD(3) [OF ag P(1), of fd] by (cases "q = new"; cases "q = old") auto
qed (use agreeD(4) [OF ag] in blast)

lemma wf_agree:
  "client_wf s \<Longrightarrow> tables_agree (map_of (c_files s)) (map_of (c_descriptors s)) (map_of (c_paths s)) (length (c_offsets s))"
  by (simp add: client_wf_def)

lemma path_fds_update_run:
  "map_of (c_paths s) p = Some fds \<Longrightarrow> path_fds_update p g s = Inr ((), s\<lparr>c_paths := um_set p (g fds) (c_paths s)\<rparr>)"
  by (simp add: path_fds_update_def um_at_def monad_simps)

text \<open>Every operation keeps the world; \<open>tables_step\<close> adds what it does to the set of descriptors.\<close>

definition tables_step :: "int set \<Rightarrow> 'w client \<Rightarrow> 'w client \<Rightarrow> bool" where
  "tables_step fds s t \<longleftrightarrow>
     client_wf t \<and> c_world t = c_world s \<and> dom (map_of (c_files t)) \<subseteq> fds \<union> dom (map_of (c_files s))"

lemma add_capio_path_step: "client_wf s \<Longrightarrow> add_capio_path p s = Inr (x, t) \<Longrightarrow> tables_step {} s t"
  using agree_add_path [OF wf_agree, of s p]
  by (cases "map_of (c_paths s) p") (auto simp: add_capio_path_def modifyM_def client_wf_def tables_step_def keys_um_insert)

lemma add_capio_fd_step:
  assumes wf: "client_wf s" and new: "map_of (c_files s) fd = None" and run: "add_capio_fd p fd off sz fl ce s = Inr (x, t)"
  shows "tables_step {fd} s t"
proof -
  let ?ps = "um_insert p [] (c_paths s)" and ?e = "\<lparr>fe_offset = length (c_offsets s), fe_size = sz, fe_flags = fl, fe_cloexec = ce\<rparr>"
  obtain fds where fds: "map_of ?ps p = Some fds" by (cases "map_of (c_paths s) p") simp_all
  have ag: "tables_agree (map_of (c_files s)) (map_of (c_descriptors s)) (map_of ?ps) (length (c_offsets s))"
    using wf_agree [OF wf] agree_add_path [OF wf_agree [OF wf], of p] by (cases "map_of (c_paths s) p") simp_all
  have t: "t = s\<lparr>c_paths := um_set p (List.insert fd fds) ?ps, c_descriptors := um_insert fd p (c_descriptors s),
      c_offsets := c_offsets s @ [off], c_files := um_insert fd ?e (c_files s)\<rparr>"
    using run path_fds_update_run [of "s\<lparr>c_paths := ?ps\<rparr>" p fds "List.insert fd"] fds
    by (simp add: add_capio_fd_def add_capio_path_def thenM_def bindM_def modifyM_def)
  have "map_of (c_descriptors s) fd = None" using agreeD(1) [OF ag] new by blast
  then have "tables_agree (map_of (c_files t)) (map_of (c_descriptors t)) (map_of (c_paths t)) (length (c_offsets t))"
    using agree_add_fd [OF ag new fds, of ?e "Suc (length (c_offsets s))"] new fds by (simp add: t)
  moreover have "distinct (map fst (c_files t))" "distinct (map fst (c_descriptors t))" "distinct (map fst (c_paths t))"
    using wf by (simp_all add: t client_wf_def keys_um_insert)
  moreover have "dom (map_of (c_files t)) \<subseteq> {fd} \<union> dom (map_of (c_files s))" by (auto simp: t new)
  ultimately show ?thesis by (simp add: tables_step_def client_wf_def t)
qed

lemma set_capio_fd_cloexec_step:
  assumes "client_wf s" and "set_capio_fd_cloexec fd b s = Inr (x, t)" shows "tables_step {} s t"
proof -
  obtain e where e: "map_of (c_files s) fd = Some e" and t: "t = s\<lparr>c_files := um_set fd (e\<lparr>fe_cloexec := b\<rparr>) (c_files s)\<rparr>"
    using assms(2) by (auto simp: set_capio_fd_cloexec_def um_at_def monad_simps split: option.splits)
  then show ?thesis using assms(1) agree_same_offsets [OF wf_agree [OF assms(1)] e, of "e\<lparr>fe_cloexec := b\<rparr>"]
    by (auto simp: client_wf_def tables_step_def)
qed

lemma set_capio_fd_flags_step:
  assumes "client_wf s" and "set_capio_fd_flags fd n s = Inr (x, t)" shows "tables_step {} s t"
proof -
  obtain e where e: "map_of (c_files s) fd = Some e" and t: "t = s\<lparr>c_files := um_set fd (e\<lparr>fe_flags := n\<rparr>) (c_files s)\<rparr>"
    using assms(2) by (auto simp: set_capio_fd_flags_def um_at_def monad_simps split: option.splits)
  then show ?thesis using assms(1) agree_same_offsets [OF wf_agree [OF assms(1)] e, of "e\<lparr>fe_flags := n\<rparr>"]
    by (auto simp: client_wf_def tables_step_def)
qed

lemma dup_capio_fd_step:
  assumes wf: "client_wf s" and new: "map_of (c_files s) newfd = None" and run: "dup_capio_fd oldfd newfd ce s = Inr (x, t)"
  shows "tables_step {newfd} s t"
proof -
  have ag: "tables_agree (map_of (c_files s)) (map_of (c_descriptors s)) (map_of (c_paths s)) (length (c_offsets s))"
    by (rule wf_agree [OF wf])
  obtain p where p: "map_of (c_descriptors s) oldfd = Some p"
    using run by (auto simp: dup_capio_fd_def um_at_def monad_simps split: option.splits)
  then obtain fds where fds: "map_of (c_paths s) p = Some fds" using agreeD(2) [OF ag] by blast
  obtain e where e: "map_of (c_files s) oldfd = Some e" using agreeD(1) [OF ag, of oldfd] p by auto
  have newd: "map_of (c_descriptors s) newfd = None" using agreeD(1) [OF ag] new by blast
  let ?e = "e\<lparr>fe_cloexec := ce\<rparr>"
  have t: "t = s\<lparr>c_paths := um_set p (List.insert newfd fds) (c_paths s),
      c_files := um_set newfd ?e (um_insert newfd e (c_files s)), c_descriptors := um_insert newfd p (c_descriptors s)\<rparr>"
    using run p e new path_fds_update_run [OF fds, of "List.insert newfd"]
    by (simp add: dup_capio_fd_def set_capio_fd_cloexec_def um_at_def monad_simps)
  have "fe_offset ?e < length (c_offsets s)" using agreeD(4) [OF ag e] by simp
  then have "tables_agree (map_of (c_files t)) (map_of (c_descriptors t)) (map_of (c_paths t)) (length (c_offsets t))"
    using agree_add_fd [OF ag new fds, of ?e] new newd fds by (simp add: t)
  moreover have "distinct (map fst (c_files t))" "distinct (map fst (c_descriptors t))" "distinct (map fst (c_paths t))"
    using wf by (simp_all add: t client_wf_def keys_um_insert)
  moreover have "dom (map_of (c_files t)) \<subseteq> {newfd} \<union> dom (map_of (c_files s))" by (auto simp: t new)
  ultimately show ?thesis by (simp add: tables_step_def client_wf_def t)
qed

lemma delete_capio_fd_step:
  assumes wf: "client_wf s" and run: "delete_capio_fd fd s = Inr (x, t)"
  shows "tables_step {} s t" and "\<exists>p fds. map_of (c_descriptors s) fd = Some p \<and> map_of (c_paths s) p = Some fds \<and>
      map_of (c_paths t) = (map_of (c_paths s))(p \<mapsto> removeAll fd fds)"
proof -
  have ag: "tables_agree (map_of (c_files s)) (map_of (c_descriptors s)) (map_of (c_paths s)) (length (c_offsets s))"
    by (rule wf_agree [OF wf])
  obtain p where p: "map_of (c_descriptors s) fd = Some p"
    using run by (auto simp: delete_capio_fd_def um_at_def monad_simps split: option.splits)
  then obtain fds where fds: "map_of (c_paths s) p = Some fds" using agreeD(2) [OF ag] by blast
  have t: "t = s\<lparr>c_paths := um_set p (removeAll fd fds) (c_paths s), c_descriptors := um_erase fd (c_descriptors s),
      c_files := um_erase fd (c_files s)\<rparr>"
    using run p path_fds_update_run [OF fds, of "removeAll fd"] by (simp add: delete_capio_fd_def um_at_def monad_simps)
  have "tables_agree (map_of (c_files t)) (map_of (c_descriptors t)) (map_of (c_paths t)) (length (c_offsets t))"
    using agree_delete_fd [OF ag p fds] fds by (simp add: t)
  moreover have "distinct (map fst (c_files t))" "distinct (map fst (c_descriptors t))" "distinct (map fst (c_paths t))"
    using wf by (simp_all add: t client_wf_def keys_um_erase)
  ultimately show "tables_step {} s t" by (auto simp: tables_step_def client_wf_def t split: if_splits)
  show "\<exists>p fds. map_of (c_descriptors s) fd = Some p \<and> map_of (c_paths s) p = Some fds \<and>
      map_of (c_paths t) = (map_of (c_paths s))(p \<mapsto> removeAll fd fds)"
    using p fds by (simp add: t)
qed

lemma tables_step_trans: "tables_step A s t \<Longrightarrow> tables_step {} t u \<Longrightarrow> tables_step A s u"
  unfolding tables_step_def by (metis sup_bot_left order_trans)

lemma tables_step_refl: "client_wf s \<Longrightarrow> tables_step {} s s"
  by (simp add: tables_step_def)

lemma delete_fds_step:
  "client_wf s \<Longrightarrow> map_of (c_paths s) p = Some ys \<Longrightarrow> set ys \<subseteq> set fds \<Longrightarrow> forM delete_capio_fd fds s = Inr (x, t) \<Longrightarrow>
   tables_step {} s t \<and> map_of (c_paths t) p = Some []"
proof (induction fds arbitrary: s ys)
  case Nil
  then show ?case by (simp add: returnM_def tables_step_refl)
next
  case (Cons fd fds)
  obtain u where u: "delete_capio_fd fd s = Inr ((), u)" "forM delete_capio_fd fds u = Inr (x, t)"
    using Cons.prems(4) by (auto simp: thenM_def bindM_Inr_iff)
  note step = delete_capio_fd_step [OF Cons.prems(1) u(1)]
  have ag: "tables_agree (map_of (c_files s)) (map_of (c_descriptors s)) (map_of (c_paths s)) (length (c_offsets s))"
    using Cons.prems(1) by (simp add: client_wf_def)
  obtain q gs where q: "map_of (c_descriptors s) fd = Some q" "map_of (c_paths s) q = Some gs"
    "map_of (c_paths u) = (map_of (c_paths s))(q \<mapsto> removeAll fd gs)" using step(2) by blast
  have "fd \<notin> set ys" if "q \<noteq> p" using agreeD(3) [OF ag Cons.prems(2), of fd] q(1) that by auto
  then have "map_of (c_paths u) p = Some (removeAll fd ys)" "set (removeAll fd ys) \<subseteq> set fds"
    using q Cons.prems(2,3) by (cases "q = p"; auto)+
  moreover have "client_wf u" using step(1) by (simp add: tables_step_def)
  ultimately show ?case using Cons.IH [of u "removeAll fd ys"] u(2) step(1) tables_step_trans by blast
qed

lemma delete_capio_path_step:
  assumes wf: "client_wf s" and run: "delete_capio_path p s = Inr (x, t)"
  shows "tables_step {} s t"
proof -
  obtain fds u where fds: "map_of (c_paths s) p = Some fds" and u: "forM delete_capio_fd fds s = Inr ((), u)"
    and t: "t = u\<lparr>c_paths := um_erase p (c_paths u)\<rparr>"
    using run by (auto simp: delete_capio_path_def um_at_def monad_simps split: option.splits sum.splits)
  have u': "tables_step {} s u" "map_of (c_paths u) p = Some []" using delete_fds_step [OF wf fds order_refl u] by simp_all
  then have "client_wf u" by (simp add: tables_step_def)
  then have "client_wf t" using agree_delete_path [OF wf_agree u'(2)] by (simp add: client_wf_def t keys_um_erase)
  then show ?thesis using u'(1) by (simp add: tables_step_def t)
qed

lemma assign_paths_run:
  "(\<And>fd. fd \<in> set fds \<Longrightarrow> map_of (c_descriptors s) fd \<noteq> None) \<Longrightarrow>
   \<exists>ds. forM (assign_path newpath) fds s = Inr ((), s\<lparr>c_descriptors := ds\<rparr>) \<and>
     map_of ds = (\<lambda>fd. if fd \<in> set fds then Some newpath else map_of (c_descriptors s) fd) \<and>
     map fst ds = map fst (c_descriptors s)"
proof (induction fds arbitrary: s)
  case Nil
  then show ?case by (intro exI [of _ "c_descriptors s"]) (simp add: returnM_def)
next
  case (Cons fd fds)
  let ?u = "s\<lparr>c_descriptors := um_set fd newpath (c_descriptors s)\<rparr>"
  obtain v where fd: "map_of (c_descriptors s) fd = Some v" using Cons.prems [of fd] by auto
  have m: "map_of (c_descriptors ?u) = (map_of (c_descriptors s))(fd \<mapsto> newpath)" using fd by simp
  have "map_of (c_descriptors ?u) fd' \<noteq> None" if "fd' \<in> set fds" for fd' using that Cons.prems [of fd'] unfolding m by simp
  then obtain ds where ds: "forM (assign_path newpath) fds ?u = Inr ((), ?u\<lparr>c_descriptors := ds\<rparr>)"
    "map_of ds = (\<lambda>fd. if fd \<in> set fds then Some newpath else map_of (c_descriptors ?u) fd)"
    "map fst ds = map fst (c_descriptors ?u)" using Cons.IH [of ?u] by blast
  have "assign_path newpath fd s = Inr ((), ?u)" using fd by (simp add: assign_path_def um_at_def monad_simps)
  then show ?case using ds fd unfolding m by (intro exI [of _ ds]) (auto simp: thenM_def bindM_def)
qed

lemma rename_capio_path_step:
  assumes wf: "client_wf s" and new: "map_of (c_paths s) newpath = None" and run: "rename_capio_path oldpath newpath s = Inr (x, t)"
  shows "tables_step {} s t"
proof -
  obtain fds where fds: "map_of (c_paths s) oldpath = Some fds"
    using run by (auto simp: rename_capio_path_def monad_simps split: option.splits)
  have ag: "tables_agree (map_of (c_files s)) (map_of (c_descriptors s)) (map_of (c_paths s)) (length (c_offsets s))"
    by (rule wf_agree [OF wf])
  let ?ps = "um_insert newpath fds (um_erase oldpath (c_paths s))"
  let ?u = "s\<lparr>c_paths := ?ps\<rparr>"
  have ps: "map_of ?ps = (map_of (c_paths s))(oldpath := None, newpath \<mapsto> fds)" using new by auto
  have ud: "c_descriptors ?u = c_descriptors s" by simp
  have "map_of (c_descriptors s) fd \<noteq> None" if "fd \<in> set fds" for fd using agreeD(3) [OF ag fds that] by simp
  then obtain ds where ds: "forM (assign_path newpath) fds ?u = Inr ((), ?u\<lparr>c_descriptors := ds\<rparr>)"
    "map_of ds = (\<lambda>fd. if fd \<in> set fds then Some newpath else map_of (c_descriptors s) fd)"
    "map fst ds = map fst (c_descriptors s)" using assign_paths_run [of fds ?u newpath, unfolded ud] by blast
  have t: "t = ?u\<lparr>c_descriptors := ds\<rparr>"
    using run fds ds(1) ps by (simp add: rename_capio_path_def um_at_def bindM_def thenM_def getsM_def modifyM_def optM_def returnM_def)
  have "tables_agree (map_of (c_files t)) (map_of (c_descriptors t)) (map_of (c_paths t)) (length (c_offsets t))"
    using agree_rename [OF ag fds new] ps ds(2) by (simp add: t)
  then show ?thesis using wf ds(3) by (simp add: tables_step_def client_wf_def t keys_um_insert keys_um_erase)
qed

subsection \<open>Descriptors that are not in use\<close>

definition fresh :: "('w \<Rightarrow> int set) \<Rightarrow> int \<Rightarrow> 'w client \<Rightarrow> bool" where
  "fresh open_fds fd s \<longleftrightarrow> lib_ok open_fds s \<and> fd \<in> open_fds (c_world s) \<and> map_of (c_files s) fd = None"

lemma lib_ok_step: "lib_ok F s \<Longrightarrow> tables_step A s t \<Longrightarrow> A \<subseteq> F (c_world s) \<Longrightarrow> lib_ok F t"
  unfolding lib_ok_def tables_step_def by (auto simp: dom_def)

definition leadsM :: "('s \<Rightarrow> bool) \<Rightarrow> ('a, 's) comp \<Rightarrow> ('a \<Rightarrow> 's \<Rightarrow> bool) \<Rightarrow> bool" where
  "leadsM P m Q \<longleftrightarrow> (\<forall>s x t. P s \<longrightarrow> m s = Inr (x, t) \<longrightarrow> Q x t)"

lemma leadsMI: "(\<And>s x t. P s \<Longrightarrow> m s = Inr (x, t) \<Longrightarrow> Q x t) \<Longrightarrow> leadsM P m Q"
  by (auto simp: leadsM_def)

lemma leadsMD: "leadsM P m Q \<Longrightarrow> P s \<Longrightarrow> m s = Inr (x, t) \<Longrightarrow> Q x t"
  by (auto simp: leadsM_def)

lemma leads_bind: "leadsM P m Q \<Longrightarrow> (\<And>x. leadsM (Q x) (k x) R) \<Longrightarrow> leadsM P (bindM m k) R"
  by (rule leadsMI) (auto simp: bindM_Inr_iff dest: leadsMD)

lemma leads_then: "leadsM P m (\<lambda>_. Q) \<Longrightarrow> leadsM Q k R \<Longrightarrow> leadsM P (thenM m k) R"
  unfolding thenM_def by (rule leads_bind)

lemma leads_keeps: "keepsM I m \<longleftrightarrow> leadsM I m (\<lambda>_. I)"
  by (simp add: keepsM_def leadsM_def)

lemma leads_return: "(\<And>s. P s \<Longrightarrow> Q x s) \<Longrightarrow> leadsM P (returnM x) Q"
  by (simp add: leadsM_def returnM_def)

lemma leads_weaken: "leadsM P' m Q \<Longrightarrow> (\<And>s. P s \<Longrightarrow> P' s) \<Longrightarrow> leadsM P m Q"
  by (auto simp: leadsM_def)

lemma fresh_ok: "fresh F fd s \<Longrightarrow> lib_ok F s"
  by (simp add: fresh_def)

lemma leads_fresh_ok: "keepsM (lib_ok F) m \<Longrightarrow> leadsM (fresh F fd) m (\<lambda>_. lib_ok F)"
  by (auto simp: keepsM_def leadsM_def fresh_def)

lemma leads_quiet: "quietM F m \<Longrightarrow> leadsM (fresh F fd) m (\<lambda>_. fresh F fd)"
proof (rule leadsMI)
  fix s x t assume a: "quietM F m" "fresh F fd s" "m s = Inr (x, t)"
  have "lib_le F s t" by (rule quietD [OF a(1,3)])
  then show "fresh F fd t" using a(2) lib_ok_le [of F s t] by (auto simp: fresh_def lib_le_def)
qed

lemma lib_ok_wf: "lib_ok F s \<Longrightarrow> client_wf s"
  by (simp add: lib_ok_def)

lemma fresh_step:
  assumes "fresh F fd s" and "client_wf s \<Longrightarrow> map_of (c_files s) fd = None \<Longrightarrow> tables_step {fd} s t"
  shows "lib_ok F t"
  using assms by (intro lib_ok_step [of F s "{fd}" t]) (auto simp: fresh_def lib_ok_wf)

lemma leads_add_capio_fd: "leadsM (fresh F fd) (add_capio_fd p fd off sz fl ce) (\<lambda>_. lib_ok F)"
  by (rule leadsMI) (erule fresh_step, erule (2) add_capio_fd_step)

lemma leads_dup_capio_fd: "leadsM (fresh F fd) (dup_capio_fd oldfd fd ce) (\<lambda>_. lib_ok F)"
  by (rule leadsMI) (erule fresh_step, erule (2) dup_capio_fd_step)

lemma keeps_tables_step: "(\<And>s x t. client_wf s \<Longrightarrow> m s = Inr (x, t) \<Longrightarrow> tables_step {} s t) \<Longrightarrow> keepsM (lib_ok F) m"
  using lib_ok_wf by (intro keepsMI) (blast intro: lib_ok_step)

lemma keeps_table_ops [keeps_intros]:
  "keepsM (lib_ok F) (add_capio_path p)" "keepsM (lib_ok F) (set_capio_fd_cloexec fd b)"
  "keepsM (lib_ok F) (set_capio_fd_flags fd n)" "keepsM (lib_ok F) (delete_capio_fd fd)"
  "keepsM (lib_ok F) (delete_capio_path p)"
  by (rule keeps_tables_step; (erule (1) add_capio_path_step set_capio_fd_cloexec_step set_capio_fd_flags_step
      delete_capio_fd_step(1) delete_capio_path_step))+

named_theorems quiet_intros \<open>operations that leave the tables alone\<close>

lemma quietI: "(\<And>r. keepsM (lib_le open_fds r) m) \<Longrightarrow> quietM open_fds m"
  by (simp add: quietM_def)

lemma quiet_bind [quiet_intros]: "quietM F m \<Longrightarrow> (\<And>x. quietM F (k x)) \<Longrightarrow> quietM F (bindM m k)"
  by (simp add: quietM_def keeps_bind)

lemma quiet_then [quiet_intros]: "quietM F m \<Longrightarrow> quietM F k \<Longrightarrow> quietM F (thenM m k)"
  by (simp add: quietM_def keeps_then)

lemma quiet_basic [quiet_intros]: "quietM F (returnM x)" "quietM F (failM e)" "quietM F (getsM g)" "quietM F (optM e r)"
  "quietM F (um_at k al)"
  by (simp_all add: quietM_def keeps_intros um_at_def)

lemma quiet_when [quiet_intros]: "quietM F m \<Longrightarrow> quietM F (whenM b m)"
  by (simp add: quietM_def keeps_when)

lemma quiet_if [quiet_intros]: "quietM F m \<Longrightarrow> quietM F k \<Longrightarrow> quietM F (if b then m else k)"
  by simp

lemma quiet_case_option [quiet_intros]:
  "quietM F m \<Longrightarrow> (\<And>x. quietM F (k x)) \<Longrightarrow> quietM F (case r of None \<Rightarrow> m | Some x \<Rightarrow> k x)"
  by (cases r) simp_all

lemma quiet_case_prod [quiet_intros]: "(\<And>x y. quietM F (k x y)) \<Longrightarrow> quietM F (case p of (x, y) \<Rightarrow> k x y)"
  by (cases p) simp

lemma quiet_case_sum [quiet_intros]:
  "(\<And>x. quietM F (k x)) \<Longrightarrow> (\<And>x. quietM F (h x)) \<Longrightarrow> quietM F (case r of Inl x \<Rightarrow> k x | Inr x \<Rightarrow> h x)"
  by (cases r) simp_all

lemma quiet_forM [quiet_intros]: "(\<And>x. quietM F (f x)) \<Longrightarrow> quietM F (forM f xs)"
  by (simp add: quietM_def keeps_forM)

lemma quiet_let [quiet_intros]: "(\<And>x. quietM F (k x)) \<Longrightarrow> quietM F (let x = v in k x)"
  by simp

lemma quiet_modify: "(\<And>r s. lib_le F r s \<Longrightarrow> lib_le F r (g s)) \<Longrightarrow> quietM F (modifyM g)"
  by (simp add: quietM_def keeps_modify)

lemma quiet_state [quiet_intros]:
  "quietM F (set_errno e)" "quietM F (set_rc g)" "quietM F (set_wc h)" "quietM F (set_current_dir p)"
  "quietM F (create_shm n v)" "quietM F (initialize_data_queues H)"
  "quietM F (modifyM (\<lambda>s. s\<lparr>c_tid := tid\<rparr>))" "quietM F (modifyM (\<lambda>s. s\<lparr>c_rw_hints := k s\<rparr>))"
  unfolding set_errno_def set_rc_def set_wc_def set_current_dir_def create_shm_def initialize_data_queues_def
  by (rule quiet_modify; simp add: lib_le_def)+

lemma quiet_tables [quiet_intros]:
  "quietM F (exists_capio_fd fd)" "quietM F (exists_capio_path p)" "quietM F (capio_fd_entry fd)"
  "quietM F (get_capio_fd_flags fd)" "quietM F (get_capio_fd_path fd)" "quietM F (get_capio_fd_offset fd)"
  "quietM F (get_capio_fd_size fd)" "quietM F (get_capio_fd_cloexec fd)" "quietM F get_capio_fds"
  "quietM F get_current_dir" "quietM F (askWorld g)"
  unfolding exists_capio_fd_def exists_capio_path_def capio_fd_entry_def get_capio_fd_flags_def get_capio_fd_path_def
    get_capio_fd_offset_def get_capio_fd_size_def get_capio_fd_cloexec_def get_capio_fds_def get_current_dir_def askWorld_def
  by (intro quiet_intros)+

lemma quiet_set_capio_fd_offset [quiet_intros]: "quietM F (set_capio_fd_offset fd off)"
  unfolding set_capio_fd_offset_def
proof (rule quiet_bind)
  fix e
  have "lib_le F r (s\<lparr>c_offsets := (c_offsets s)[fe_offset e := off]\<rparr>)" if "lib_le F r s" for r s
    using that by (simp add: lib_le_def)
  then show "quietM F (bindM (getsM c_offsets) (\<lambda>os. if fe_offset e < length os
      then modifyM (\<lambda>s. s\<lparr>c_offsets := os[fe_offset e := off]\<rparr>) else failM Dangling))"
    by (intro quietI keepsMI) (auto simp: monad_simps split: if_splits)
qed (rule quiet_intros)

lemma queue_read_invariant:
  assumes "\<And>n q x q'. rd n q = Some (x, q') \<Longrightarrow> P q \<Longrightarrow> P q'" and "P q" and "queue_read rd es n q = Some (x, q')"
  shows "P q'"
proof -
  have slots: "read_slots rd m es q = Some (x, q') \<Longrightarrow> P q \<Longrightarrow> P q'" for m q x q'
    by (induction m arbitrary: q x) (auto split: option.splits dest: assms(1))
  obtain y q1 where r: "read_slots rd (n div es) es q = Some (y, q1)"
    using assms(3) by (auto simp: queue_read_def Let_def split: option.splits)
  have "P q1" using slots [OF r assms(2)] .
  then show ?thesis using assms(1,3) r by (auto simp: queue_read_def Let_def split: if_splits)
qed

lemma queue_write_invariant:
  assumes "\<And>d q q'. wr d q = Some q' \<Longrightarrow> P q \<Longrightarrow> P q'" and "P q" and "queue_write wr es d q = Some q'"
  shows "P q'"
proof -
  have slots: "write_slots wr m es d q = Some q' \<Longrightarrow> P q \<Longrightarrow> P q'" for m d q q'
    by (induction m arbitrary: d q) (auto split: option.splits dest: assms(1))
  obtain q1 where r: "write_slots wr (length d div es) es d q = Some q1"
    using assms(3) by (auto simp: queue_write_def Let_def split: option.splits)
  have "P q1" using slots [OF r assms(2)] .
  then show ?thesis using assms(1,3) r by (auto simp: queue_write_def Let_def split: if_splits)
qed

section \<open>The kernel and its descriptors\<close>

locale kernel_descriptors =
  fixes H :: "'w host" and open_fds :: "'w \<Rightarrow> int set"
  assumes open_null: "h_open_null H fl w = (fd, w') \<Longrightarrow> 0 \<le> fd \<and> fd \<notin> open_fds w \<and> open_fds w' = insert fd (open_fds w)"
    and fcntl_dup: "h_fcntl H fd cmd arg w = (r, w') \<Longrightarrow> cmd = 0 \<or> cmd = 1030 \<Longrightarrow> 0 \<le> r \<Longrightarrow>
        r \<notin> open_fds w \<and> open_fds w' = insert r (open_fds w)"
    and fcntl_other: "h_fcntl H fd cmd arg w = (r, w') \<Longrightarrow> open_fds w \<subseteq> open_fds w'"
    and dup2: "h_dup2 H fd fd2 w = (r, w') \<Longrightarrow> r = fd2 \<and> open_fds w' = insert fd2 (open_fds w)"
    and dup3: "h_dup3 H fd fd2 fl w = (r, w') \<Longrightarrow> r = fd2 \<and> open_fds w' = insert fd2 (open_fds w)"
    and lseek: "h_lseek H fd off wh w = (r, w') \<Longrightarrow> open_fds w \<subseteq> open_fds w'"
    and kernel_read: "h_read H fd pos n w = (v, w') \<Longrightarrow> open_fds w \<subseteq> open_fds w'"
    and kernel_write: "h_write H fd pos xs w = (r, w') \<Longrightarrow> open_fds w \<subseteq> open_fds w'"
    and mmap: "h_mmap H n w = (r, w') \<Longrightarrow> open_fds w \<subseteq> open_fds w'"
    and copy: "h_copy H p q w = Inr w' \<Longrightarrow> open_fds w \<subseteq> open_fds w'"
    and fork: "h_fork H w = (r, w') \<Longrightarrow> open_fds w \<subseteq> open_fds w'"
    and connect: "open_fds w \<subseteq> open_fds (h_connect H tid w)"
    and request: "h_request H req w = Inr w' \<Longrightarrow> open_fds w \<subseteq> open_fds w'"
    and response: "h_response H tid w = Inr (r, w') \<Longrightarrow> open_fds w \<subseteq> open_fds w'"
    and reserve: "h_reserve H tid w = Some w' \<Longrightarrow> open_fds w \<subseteq> open_fds w'"
    and commit: "h_commit H tid xs w = Inr w' \<Longrightarrow> open_fds w \<subseteq> open_fds w'"
    and write1: "h_write1 H tid xs w = Some w' \<Longrightarrow> open_fds w \<subseteq> open_fds w'"
    and wake: "h_wake H w = Inr w' \<Longrightarrow> open_fds w \<subseteq> open_fds w'"
    and read1: "h_read1 H tid m w = Some (xs, w') \<Longrightarrow> open_fds w \<subseteq> open_fds w'"
begin

lemma quiet_onWorld: "(\<And>w x w'. g w = (x, w') \<Longrightarrow> open_fds w \<subseteq> open_fds w') \<Longrightarrow> quietM open_fds (onWorld g)"
  by (intro quietI keepsMI) (force simp: onWorld_def lib_le_def split: prod.splits)

lemma quiet_tryWorld: "(\<And>w w'. g w = Inr w' \<Longrightarrow> open_fds w \<subseteq> open_fds w') \<Longrightarrow> quietM open_fds (tryWorld g)"
  by (intro quietI keepsMI) (force simp: tryWorld_def lib_le_def split: sum.splits)

lemma quiet_waitWorld: "(\<And>w x w'. g w = Some (x, w') \<Longrightarrow> open_fds w \<subseteq> open_fds w') \<Longrightarrow> quietM open_fds (waitWorld g)"
  by (intro quietI keepsMI) (force simp: waitWorld_def lib_le_def split: option.splits prod.splits)

lemma quiet_runWorld: "(\<And>w x w'. g w = Inr (x, w') \<Longrightarrow> open_fds w \<subseteq> open_fds w') \<Longrightarrow> quietM open_fds (runWorld g)"
  by (intro quietI keepsMI) (force simp: runWorld_def lib_le_def split: sum.splits prod.splits)

lemma quiet_channel [quiet_intros]: "quietM open_fds (write_text H req)" "quietM open_fds (read_response H)"
  unfolding write_text_def read_response_def
  by (intro quiet_intros quiet_tryWorld quiet_runWorld; erule request response)+

lemmas request_defs =
  access_request_def clone_request_def close_request_def rename_request_def create_request_def
  create_exclusive_request_def dup_request_def exit_group_request_def getdents_request_def
  handshake_anonymous_request_def handshake_named_request_def fstat_request_def mkdir_request_def open_request_def
  copy_file_range_request_def read_request_def seek_data_request_def seek_end_request_def seek_hole_request_def
  seek_request_def stat_request_def unlink_request_def rmdir_request_def write_request_def

lemma quiet_requests [quiet_intros]:
  "quietM open_fds (access_request H p tid)" "quietM open_fds (clone_request H a b)" "quietM open_fds (close_request H fd tid)"
  "quietM open_fds (rename_request H tid p q)" "quietM open_fds (create_request H fd p tid)"
  "quietM open_fds (create_exclusive_request H fd p tid)" "quietM open_fds (dup_request H a b tid)"
  "quietM open_fds (exit_group_request H tid)" "quietM open_fds (getdents_request H fd n is64 tid)"
  "quietM open_fds (handshake_named_request H tid pid name wait)" "quietM open_fds (fstat_request H fd tid)"
  "quietM open_fds (mkdir_request H p tid)" "quietM open_fds (open_request H fd p tid)"
  "quietM open_fds (copy_file_range_request H i e oi oe n tid)" "quietM open_fds (read_request H fd n tid)"
  "quietM open_fds (seek_data_request H fd off tid)" "quietM open_fds (seek_end_request H fd tid)"
  "quietM open_fds (seek_hole_request H fd off tid)" "quietM open_fds (seek_request H fd off tid)"
  "quietM open_fds (stat_request H p tid)" "quietM open_fds (unlink_request H p tid)"
  "quietM open_fds (rmdir_request H p tid)" "quietM open_fds (write_request H fd n tid)"
  unfolding request_defs by (intro quiet_intros)+

lemma quiet_queues [quiet_intros]: "quietM open_fds (q_fetch_line H)" "quietM open_fds (q_read_bytes H n)"
  "quietM open_fds (q_write_bytes H xs)" "quietM open_fds (waitWorld (\<lambda>w. map_option (\<lambda>w'. ((), w')) (h_reserve H tid w)))"
  "quietM open_fds (tryWorld (h_commit H tid xs))"
proof -
  have r: "queue_read (h_read1 H tid) es m w = Some (x, w') \<Longrightarrow> open_fds w \<subseteq> open_fds w'" for tid es m w x w'
    by (rule queue_read_invariant [where P = "\<lambda>v. open_fds w \<subseteq> open_fds v"]) (auto dest: read1)
  have q: "queue_write (h_write1 H tid) es d w = Some w' \<Longrightarrow> open_fds w \<subseteq> open_fds w'" for tid es d w w'
    by (rule queue_write_invariant [where P = "\<lambda>v. open_fds w \<subseteq> open_fds v"]) (auto dest: write1)
  show "quietM open_fds (q_fetch_line H)" unfolding q_fetch_line_def
    by (intro quiet_intros quiet_waitWorld) (erule read1)
  show "quietM open_fds (q_read_bytes H n)" unfolding q_read_bytes_def
    by (intro quiet_intros quiet_waitWorld) (erule r)
  show "quietM open_fds (q_write_bytes H xs)" unfolding q_write_bytes_def
    by (intro quiet_intros quiet_waitWorld quiet_tryWorld) (auto dest: q wake)
  show "quietM open_fds (waitWorld (\<lambda>w. map_option (\<lambda>w'. ((), w')) (h_reserve H tid w)))"
    by (rule quiet_waitWorld) (auto dest: reserve)
  show "quietM open_fds (tryWorld (h_commit H tid xs))" by (rule quiet_tryWorld) (erule commit)
qed

lemma quiet_caches [quiet_intros]: "quietM open_fds (ReadCache_read1 n)" "quietM open_fds (ReadCache_flush H)"
  "quietM open_fds (cachesFileOf fd)" "quietM open_fds (fit room xs)" "quietM open_fds (WriteCache_flush H)"
  unfolding ReadCache_read1_def ReadCache_flush_def cachesFileOf_def fit_def WriteCache_flush_def
  by (intro quiet_intros)+

lemma quiet_transfers [quiet_intros]: "quietM open_fds (ReadCache_read H fd n dents is64)"
  "quietM open_fds (WriteCache_write1 H xs)"
  unfolding ReadCache_read_def WriteCache_write1_def by (intro quiet_intros)+

lemma quiet_data [quiet_intros]: "quietM open_fds (WriteCache_write H fd xs)"
  "quietM open_fds (capio_set_fd_offset H fd off tid)" "quietM open_fds (capio_cached_read H fd n)"
  unfolding WriteCache_write_def capio_set_fd_offset_def capio_cached_read_def by (intro quiet_intros)+

lemma quiet_cached_write [quiet_intros]: "quietM open_fds (capio_cached_write H fd xs)"
  unfolding capio_cached_write_def by (intro quiet_intros)

lemma quiet_paths [quiet_intros]: "quietM open_fds (capio_posix_realpath H p)" "quietM open_fds (capio_absolute H p)"
  "quietM open_fds (get_dir_path H d)"
  unfolding capio_posix_realpath_def capio_absolute_def get_dir_path_def by (intro quiet_intros)+

lemma quiet_results [quiet_intros]: "quietM open_fds (posix_return_value r v)" "quietM open_fds (fail_errno e)"
  "quietM open_fds m \<Longrightarrow> quietM open_fds (returns m)" "quietM open_fds n \<Longrightarrow> quietM open_fds (returnsI n)"
  "(\<And>tid. quietM open_fds (k tid)) \<Longrightarrow> quietM open_fds (withTid k)" "quietM open_fds handled_errno"
  "quietM open_fds skip_request"
  unfolding posix_return_value_def fail_errno_def returns_def returnsI_def withTid_def handled_errno_def skip_request_def
  by (intro quiet_intros; assumption?)+

lemma quiet_status [quiet_intros]: "quietM open_fds (capio_fstat H fd tid)" "quietM open_fds (capio_lstat H p tid)"
  unfolding capio_fstat_def capio_lstat_def by (intro quiet_intros)+

lemma quiet_directory [quiet_intros]: "quietM open_fds (is_directory H fd)" "quietM open_fds (capio_lstat_wrapper H p tid)"
  unfolding is_directory_def capio_lstat_wrapper_def by (intro quiet_intros)+

lemma quiet_statat [quiet_intros]: "quietM open_fds (capio_fstatat H d p fl tid)" "quietM open_fds (statx_path H d p fl)"
  unfolding capio_fstatat_def statx_path_def by (intro quiet_intros)+

lemma quiet_statx [quiet_intros]: "quietM open_fds (capio_statx H d p fl tid)"
  unfolding capio_statx_def by (intro quiet_intros)

lemma quiet_lseek [quiet_intros]: "quietM open_fds (capio_lseek H fd off wh tid)"
  unfolding capio_lseek_def by (intro quiet_intros)

lemma quiet_read [quiet_intros]: "quietM open_fds (capio_read H fd n)" "quietM open_fds (capio_write H fd xs)"
  unfolding capio_read_def capio_write_def by (intro quiet_intros)+

lemma quiet_readv_loop: "quietM open_fds (readv_loop H fd iov n r out)"
  by (induction iov arbitrary: n r out) (simp_all del: split_paired_All add: quiet_intros)

lemma quiet_writev_loop: "quietM open_fds (writev_loop H fd iov n r)"
  by (induction iov arbitrary: n r) (simp_all add: quiet_intros)

lemma quiet_vectors [quiet_intros]: "quietM open_fds (capio_readv H fd lens)" "quietM open_fds (capio_writev H fd iov)"
  unfolding capio_readv_def capio_writev_def by (intro quiet_intros quiet_readv_loop quiet_writev_loop)+

lemma quiet_resolve [quiet_intros]: "quietM open_fds m \<Longrightarrow> quietM open_fds (resolve_at H m j d p)"
  unfolding resolve_at_def by (intro quiet_intros)

lemma quiet_access [quiet_intros]: "quietM open_fds (capio_faccessat H d p tid)"
  unfolding capio_faccessat_def by (intro quiet_intros)

lemma quiet_open_request [quiet_intros]: "quietM open_fds (capio_open_request H fl fd p tid)"
  unfolding capio_open_request_def by (intro quiet_intros)

lemma quiet_snapshot [quiet_intros]: "quietM open_fds (create_snapshot tid)"
  unfolding create_snapshot_def snapshot_fd_def by (intro quiet_intros)

lemma quiet_new_thread [quiet_intros]: "quietM open_fds (initialize_new_thread H wait)"
  unfolding initialize_new_thread_def init_client_def by (intro quiet_intros quiet_onWorld) (use connect in auto)

lemma quiet_copy_end [quiet_intros]: "quietM open_fds (capio_copy_file_range_end H fd off tid)"
  "quietM open_fds (capio_copy_file_range_seek H e tid)" "quietM open_fds (capio_copy_file_range_unread H e n)"
  unfolding capio_copy_file_range_end_def capio_copy_file_range_seek_def capio_copy_file_range_unread_def
  by (intro quiet_intros quiet_onWorld; (erule fcntl_other | erule lseek))+

lemma quiet_copy_io [quiet_intros]: "quietM open_fds (capio_copy_file_range_read H e n tid)"
  "quietM open_fds (capio_copy_file_range_write H e xs tid)" "quietM open_fds (capio_copy_file_range_finish H e n tid)"
  unfolding capio_copy_file_range_read_def capio_copy_file_range_write_def capio_copy_file_range_finish_def
  by (intro quiet_intros quiet_onWorld; (erule kernel_read | erule kernel_write))+

lemma quiet_write_all [quiet_intros]: "quietM open_fds (capio_copy_file_range_write_all H e xs n tid)"
proof (induction "length xs" arbitrary: xs e n rule: less_induct)
  case less
  show ?case
  proof (cases xs)
    case (Cons b bs)
    have step: "quietM open_fds (if res \<le> 0 then returnM (n, if res = 0 then - EIO else res, e')
        else capio_copy_file_range_write_all H e' (drop (nat res) (b # bs)) (n + res) tid)" for res e'
      using less [of "drop (nat res) (b # bs)"] Cons by (cases "res \<le> 0") (simp_all add: quiet_intros)
    show ?thesis unfolding Cons capio_copy_file_range_write_all.simps
      by (intro quiet_bind quiet_case_prod quiet_copy_io step)
  qed (simp add: quiet_intros)
qed

lemma quiet_through_loop: "quietM open_fds (through_buffer_loop H i e n count chunk tid)"
proof (induction "nat (count - n)" arbitrary: i e n rule: less_induct)
  case less
  have step: "quietM open_fds (if bw < br then bindM (capio_copy_file_range_unread H i' (br - bw)) (\<lambda>i''. returnM (n + bw, er, i'', e'))
      else through_buffer_loop H i' e' (n + bw) count chunk tid)" if "n < count" "\<not> br \<le> 0" for bw br i' er e'
    using less [of "n + bw"] that by (cases "bw < br") (simp_all add: quiet_intros)
  have chunk: "quietM open_fds (if br = 0 then returnM (n, 0, i', e) else if br < 0 then returnM (n, br, i', e)
      else bindM (capio_copy_file_range_write_all H e (take (nat br) xs) 0 tid)
        (\<lambda>(bw, er, e'). if bw < br then bindM (capio_copy_file_range_unread H i' (br - bw)) (\<lambda>i''. returnM (n + bw, er, i'', e'))
           else through_buffer_loop H i' e' (n + bw) count chunk tid))" if "n < count" for br xs i'
  proof (cases "br \<le> 0")
    case False
    then show ?thesis
      by (simp only: if_not_P [of "br = 0"] if_not_P [of "br < 0"]) (intro quiet_bind quiet_case_prod quiet_write_all step that False)
  qed (auto simp: quiet_basic)
  show ?case
  proof (cases "n < count")
    case True
    then show ?thesis
      by (subst through_buffer_loop.simps) (simp only: if_P True, intro quiet_bind quiet_case_prod quiet_copy_io chunk True)
  qed (subst through_buffer_loop.simps, simp add: quiet_basic)
qed

lemma quiet_server_loop: "quietM open_fds (on_server_loop fuel H i e n count tid)"
  by (induction fuel arbitrary: i e n) (simp_all add: quiet_intros)

lemma quiet_copies [quiet_intros]: "quietM open_fds (capio_copy_file_range_on_server fuel H i e n tid)"
  "quietM open_fds (capio_copy_file_range_through_buffer H i e n tid)" "quietM open_fds (same_capio_file i e)"
  unfolding capio_copy_file_range_on_server_def capio_copy_file_range_through_buffer_def same_capio_file_def
  by (intro quiet_intros quiet_server_loop quiet_through_loop quiet_onWorld; erule mmap)+

lemma quiet_copy_and_finish [quiet_intros]: "quietM open_fds (copy_and_finish fuel H i e n tid)"
  unfolding copy_and_finish_def by (intro quiet_intros)

lemma quiet_copy_file_range [quiet_intros]: "quietM open_fds (capio_copy_file_range fuel H i oi e oe len fl tid)"
  unfolding capio_copy_file_range_def Let_def by (intro quiet_intros)

subsection \<open>Handlers that change the tables\<close>

lemmas keeps_quiet = quiet_keeps_ok

lemma leads_open_null: "leadsM (lib_ok open_fds) (onWorld (h_open_null H fl)) (\<lambda>fd s. 0 \<le> fd \<and> fresh open_fds fd s)"
proof (rule leadsMI)
  fix s fd t assume ok: "lib_ok open_fds s" and run: "onWorld (h_open_null H fl) s = Inr (fd, t)"
  then obtain w where w: "h_open_null H fl (c_world s) = (fd, w)" "t = s\<lparr>c_world := w\<rparr>"
    by (auto simp: onWorld_def split: prod.splits)
  have new: "fd \<notin> open_fds (c_world s)" "open_fds w = insert fd (open_fds (c_world s))" "0 \<le> fd"
    using open_null [OF w(1)] by simp_all
  have "lib_le open_fds s t" using new(2) by (auto simp: lib_le_def w(2))
  then have "lib_ok open_fds t" by (rule lib_ok_le [OF ok])
  moreover have "map_of (c_files s) fd = None" using ok new(1) unfolding lib_ok_def by blast
  ultimately show "0 \<le> fd \<and> fresh open_fds fd t" using new(2,3) by (simp add: fresh_def w(2))
qed

lemma leads_register_fd: "leadsM (fresh open_fds fd) (capio_register_fd H fl fd p tid) (\<lambda>_. lib_ok open_fds)"
proof -
  have "keepsM (lib_ok open_fds) (thenM (whenM c (bindM (capio_lseek H fd 0 SEEK_END tid) (\<lambda>_. returnM ()))) (returnM fd))" for c
    by (intro keeps_quiet quiet_intros)
  then show ?thesis unfolding capio_register_fd_def Let_def leads_keeps by (intro leads_then [OF leads_add_capio_fd])
qed

lemma keeps_open_path [keeps_intros]: "keepsM (lib_ok open_fds) (capio_open_path H fl p tid)"
proof -
  have "leadsM (fresh open_fds fd) (case e of Some v \<Rightarrow> returnM v | None \<Rightarrow> capio_register_fd H fl fd p tid) (\<lambda>_. lib_ok open_fds)"
    for e fd by (cases e) (auto intro: leads_register_fd leads_return fresh_ok)
  then have "leadsM (fresh open_fds fd) (bindM (capio_open_request H fl fd p tid)
      (\<lambda>e. case e of Some v \<Rightarrow> returnM v | None \<Rightarrow> capio_register_fd H fl fd p tid)) (\<lambda>_. lib_ok open_fds)" for fd
    by (intro leads_bind [OF leads_quiet [OF quiet_open_request]])
  then show ?thesis unfolding capio_open_path_def leads_keeps
    by (intro leads_bind [OF leads_open_null]) (auto simp: leadsM_def failM_def)
qed

lemma keeps_sum [keeps_intros]:
  "(\<And>v. keepsM I (k v)) \<Longrightarrow> (\<And>v. keepsM I (h v)) \<Longrightarrow> keepsM I (case r of Inl v \<Rightarrow> k v | Inr v \<Rightarrow> h v)"
  by (cases r) simp_all

lemma keeps_resolve [keeps_intros]: "quietM open_fds m \<Longrightarrow> keepsM (lib_ok open_fds) (resolve_at H m j d p)"
  by (intro keeps_quiet quiet_intros)

lemma keeps_quiet_values [keeps_intros]: "keepsM (lib_ok open_fds) skip_request" "keepsM (lib_ok open_fds) handled_errno"
  "keepsM (lib_ok open_fds) (fail_errno e)" "keepsM (lib_ok open_fds) (set_errno e)" "keepsM (lib_ok open_fds) (exists_capio_fd fd)"
  "keepsM (lib_ok open_fds) (exists_capio_path q)" "keepsM (lib_ok open_fds) (posix_return_value r v)"
  by (intro keeps_quiet quiet_intros)+

lemma keeps_wrappers [keeps_intros]: "keepsM I n \<Longrightarrow> (\<And>r v. keepsM I (posix_return_value r v)) \<Longrightarrow> keepsM I (returnsI n)"
  "keepsM I m \<Longrightarrow> (\<And>r v. keepsM I (posix_return_value r v)) \<Longrightarrow> keepsM I (returns m)"
  "(\<And>tid. keepsM I (k tid)) \<Longrightarrow> keepsM I (withTid k)"
  unfolding returnsI_def returns_def withTid_def by (intro keeps_intros; assumption)+

lemma keeps_openat [keeps_intros]: "keepsM (lib_ok open_fds) (capio_openat H d p fl tid)"
  unfolding capio_openat_def by (intro keeps_intros quiet_intros)

lemma keeps_mkdirat [keeps_intros]: "keepsM (lib_ok open_fds) (capio_mkdirat H d p tid)"
  unfolding capio_mkdirat_def by (intro keeps_intros quiet_intros keeps_quiet [OF quiet_requests(12)])

lemma keeps_rmdir [keeps_intros]: "keepsM (lib_ok open_fds) (capio_rmdir H p tid)"
  unfolding capio_rmdir_def by (intro keeps_intros quiet_intros keeps_quiet [OF quiet_requests(22)])

lemma keeps_unlink_abs [keeps_intros]: "keepsM (lib_ok open_fds) (capio_unlink_abs H p tid is_dir)"
  unfolding capio_unlink_abs_def
  by (intro keeps_intros quiet_intros keeps_quiet [OF quiet_requests(21)] keeps_quiet [OF quiet_requests(22)])

lemma keeps_unlinkat [keeps_intros]: "keepsM (lib_ok open_fds) (capio_unlinkat H d p fl tid)"
  unfolding capio_unlinkat_def by (intro keeps_intros quiet_intros)

lemma leads_libc_open: "leadsM (lib_ok open_fds) (libc_open_null H fl) (\<lambda>r. fresh open_fds r)"
  unfolding libc_open_null_def
proof (rule leads_bind [OF leads_open_null], rule leadsMI)
  fix r s x t
  assume "0 \<le> r \<and> fresh open_fds r s" "(if r < 0 then thenM (set_errno (- r)) (returnM (- 1)) else returnM r) s = Inr (x, t)"
  then show "fresh open_fds x t" by (auto simp: returnM_def)
qed

lemma leads_dup_and_request:
  "leadsM (fresh open_fds r) (thenM (dup_request H fd r tid) (thenM (dup_capio_fd fd r ce) (returnM v))) (\<lambda>_. lib_ok open_fds)"
  by (intro leads_then [OF leads_quiet] leads_then [OF leads_dup_capio_fd] leads_return quiet_intros)

lemma keeps_dup: "keepsM (lib_ok open_fds) (posix_dup_handler H fd)"
proof -
  have "leadsM (fresh open_fds r) (if r = - 1 then handled_errno
      else thenM (dup_request H fd r tid) (thenM (dup_capio_fd fd r False) (returnM (handled r)))) (\<lambda>_. lib_ok open_fds)" for r tid
    by (auto intro: leads_dup_and_request leads_fresh_ok keeps_quiet_values)
  then have step: "keepsM (lib_ok open_fds) (bindM (libc_open_null H O_WRONLY) (\<lambda>r. if r = - 1 then handled_errno
      else thenM (dup_request H fd r tid) (thenM (dup_capio_fd fd r False) (returnM (handled r)))))" for tid
    unfolding leads_keeps by (intro leads_bind [OF leads_libc_open])
  show ?thesis unfolding posix_dup_handler_def
    by (rule keeps_wrappers(3), rule keeps_bind [OF keeps_quiet_values(5)], rule keeps_if [OF step keeps_return])
qed

text \<open>Duplication onto a given descriptor.\<close>

lemma leads_given:
  assumes "\<And>w r w'. g w = (r, w') \<Longrightarrow> r = fd2 \<and> open_fds w' = insert fd2 (open_fds w)"
  shows "leadsM (\<lambda>s. lib_ok open_fds s \<and> (fd2 = fd \<or> map_of (c_files s) fd2 = None)) (onWorld g)
    (\<lambda>r s. r = fd2 \<and> lib_ok open_fds s \<and> (r = fd \<or> fresh open_fds r s))"
proof (rule leadsMI)
  fix s r t assume ok: "lib_ok open_fds s \<and> (fd2 = fd \<or> map_of (c_files s) fd2 = None)" and run: "onWorld g s = Inr (r, t)"
  then obtain w where w: "g (c_world s) = (r, w)" "t = s\<lparr>c_world := w\<rparr>" by (auto simp: onWorld_def split: prod.splits)
  have new: "r = fd2" "open_fds w = insert fd2 (open_fds (c_world s))" using assms [OF w(1)] by simp_all
  have "lib_le open_fds s t" using new(2) by (auto simp: lib_le_def w(2))
  then have "lib_ok open_fds t" using ok by (blast intro: lib_ok_le)
  then show "r = fd2 \<and> lib_ok open_fds t \<and> (r = fd \<or> fresh open_fds r t)" using ok new by (auto simp: fresh_def w(2))
qed

lemma leads_from_ok: "keepsM (lib_ok open_fds) m \<Longrightarrow> (\<And>s. P s \<Longrightarrow> lib_ok open_fds s) \<Longrightarrow> leadsM P m (\<lambda>_. lib_ok open_fds)"
  by (auto simp: keepsM_def leadsM_def)

lemma leads_if: "leadsM P m Q \<Longrightarrow> leadsM P k Q \<Longrightarrow> leadsM P (if b then m else k) Q"
  by simp

lemma leads_exists: "leadsM P (exists_capio_fd fd) (\<lambda>_. P)" "(\<And>tid. leadsM P (k tid) Q) \<Longrightarrow> leadsM P (withTid k) Q"
  by (auto simp: leadsM_def exists_capio_fd_def withTid_def getsM_def bindM_def)

lemma leads_dup2: "leadsM (\<lambda>s. lib_ok open_fds s \<and> (fd2 = fd \<or> map_of (c_files s) fd2 = None)) (posix_dup2_handler H fd fd2)
    (\<lambda>_. lib_ok open_fds)"
proof -
  have given: "leadsM (\<lambda>s. lib_ok open_fds s \<and> (fd2 = fd \<or> map_of (c_files s) fd2 = None)) (onWorld (h_dup2 H fd fd2))
      (\<lambda>r s. r = fd2 \<and> lib_ok open_fds s \<and> (r = fd \<or> fresh open_fds r s))"
    by (rule leads_given) (erule dup2)
  have "leadsM (\<lambda>s. r = fd2 \<and> lib_ok open_fds s \<and> (r = fd \<or> fresh open_fds r s)) (if r = - 1 then handled_errno
      else thenM (whenM (fd \<noteq> r) (thenM (dup_request H fd r tid) (dup_capio_fd fd r False))) (returnM (handled r))) (\<lambda>_. lib_ok open_fds)" for r tid
  proof (cases "r = - 1 \<or> r = fd")
    case True
    then show ?thesis by (intro leads_from_ok) (auto simp: whenM_def thenM_def intro: keeps_intros)
  next
    case False
    have "leadsM (fresh open_fds r) (thenM (thenM (dup_request H fd r tid) (dup_capio_fd fd r False)) (returnM (handled r))) (\<lambda>_. lib_ok open_fds)"
      by (rule leads_then [OF leads_then [OF leads_quiet leads_dup_capio_fd] leads_return]) (rule quiet_intros, simp)
    then show ?thesis using False by (auto simp: whenM_def intro: leads_weaken)
  qed
  note step = leads_bind [OF given this]
  show ?thesis unfolding posix_dup2_handler_def
    by (rule leads_exists(2), rule leads_bind [OF leads_exists(1)], rule leads_if [OF step]) (rule leads_return, simp)
qed

lemma leads_dup3: "leadsM (\<lambda>s. lib_ok open_fds s \<and> (fd2 = fd \<or> map_of (c_files s) fd2 = None)) (posix_dup3_handler H fd fd2 fl)
    (\<lambda>_. lib_ok open_fds)"
proof -
  have given: "leadsM (\<lambda>s. lib_ok open_fds s \<and> (fd2 = fd \<or> map_of (c_files s) fd2 = None)) (onWorld (h_dup3 H fd fd2 fl))
      (\<lambda>r s. r = fd2 \<and> lib_ok open_fds s \<and> (r = fd \<or> fresh open_fds r s))"
    by (rule leads_given) (erule dup3)
  have body: "leadsM (\<lambda>s. r = fd2 \<and> lib_ok open_fds s \<and> (r = fd \<or> fresh open_fds r s)) (if r = - 1 then handled_errno
      else thenM (dup_request H fd r tid) (thenM (dup_capio_fd fd r ce) (returnM (handled r)))) (\<lambda>_. lib_ok open_fds)"
    if "fd \<noteq> fd2" for r tid ce
    using that by (cases "r = - 1") (auto intro: leads_from_ok keeps_intros leads_weaken [OF leads_dup_and_request] simp: leadsM_def [of "\<lambda>_. False"])
  have step: "leadsM (\<lambda>s. lib_ok open_fds s \<and> (fd2 = fd \<or> map_of (c_files s) fd2 = None))
      (if fd = fd2 then thenM (set_errno EINVAL) handled_errno
       else bindM (onWorld (h_dup3 H fd fd2 fl)) (\<lambda>res. if res = - 1 then handled_errno
         else thenM (dup_request H fd res tid) (thenM (dup_capio_fd fd res (fl AND O_CLOEXEC = O_CLOEXEC)) (returnM (handled res)))))
      (\<lambda>_. lib_ok open_fds)" for tid
  proof (cases "fd = fd2")
    case True
    then show ?thesis by (auto intro: leads_from_ok keeps_intros)
  next
    case False
    then show ?thesis using leads_bind [OF given body [OF False]] by simp
  qed
  show ?thesis unfolding posix_dup3_handler_def
    by (rule leads_exists(2), rule leads_bind [OF leads_exists(1)], rule leads_if [OF step]) (rule leads_return, simp)
qed

lemma keeps_dupfd [keeps_intros]: "keepsM (lib_ok open_fds) (capio_fcntl_dupfd H tid fd min_fd ce)"
proof -
  have given: "leadsM (lib_ok open_fds) (onWorld (h_fcntl H fd (if ce then 1030 else 0) min_fd))
      (\<lambda>r s. lib_ok open_fds s \<and> (r < 0 \<or> fresh open_fds r s))"
  proof (rule leadsMI)
    fix s r t assume ok: "lib_ok open_fds s" and run: "onWorld (h_fcntl H fd (if ce then 1030 else 0) min_fd) s = Inr (r, t)"
    then obtain w where w: "h_fcntl H fd (if ce then 1030 else 0) min_fd (c_world s) = (r, w)" "t = s\<lparr>c_world := w\<rparr>"
      by (auto simp: onWorld_def split: prod.splits)
    have "lib_le open_fds s t" using fcntl_other [OF w(1)] by (simp add: lib_le_def w(2))
    then have ok': "lib_ok open_fds t" by (rule lib_ok_le [OF ok])
    have "fresh open_fds r t" if "0 \<le> r"
    proof -
      have new: "r \<notin> open_fds (c_world s)" "open_fds w = insert r (open_fds (c_world s))"
        using fcntl_dup [OF w(1) _ that] by (cases ce; simp)+
      then have "map_of (c_files s) r = None" using ok unfolding lib_ok_def by blast
      then show ?thesis using ok' new(2) by (simp add: fresh_def w(2))
    qed
    then show "lib_ok open_fds t \<and> (r < 0 \<or> fresh open_fds r t)" using ok' by linarith
  qed
  have "leadsM (\<lambda>s. lib_ok open_fds s \<and> (r < 0 \<or> fresh open_fds r s)) (if r < 0 then returnM r
      else thenM (dup_capio_fd fd r ce) (thenM (dup_request H fd r tid) (returnM r))) (\<lambda>_. lib_ok open_fds)" for r
  proof (cases "r < 0")
    case False
    have "keepsM (lib_ok open_fds) (thenM (dup_request H fd r tid) (returnM r))" by (intro keeps_quiet quiet_intros)
    then have "leadsM (fresh open_fds r) (thenM (dup_capio_fd fd r ce) (thenM (dup_request H fd r tid) (returnM r))) (\<lambda>_. lib_ok open_fds)"
      unfolding leads_keeps by (rule leads_then [OF leads_dup_capio_fd])
    then show ?thesis using False by (auto intro: leads_weaken)
  qed (simp add: leads_return)
  then show ?thesis unfolding capio_fcntl_dupfd_def leads_keeps by (rule leads_bind [OF given])
qed

lemma quiet_lock: "quietM open_fds (capio_fcntl_lock fd cmd lock)"
  unfolding capio_fcntl_lock_def Let_def by (intro quiet_intros)

lemma keeps_kernel_fcntl [keeps_intros]: "keepsM (lib_ok open_fds) (onWorld (h_fcntl H fd cmd arg))"
  by (intro keeps_quiet quiet_onWorld) (erule fcntl_other)

lemma keeps_fcntl: "keepsM (lib_ok open_fds) (posix_fcntl_handler H fd cmd a lock hint)"
  unfolding posix_fcntl_handler_def
  by (intro keeps_intros keeps_quiet [OF quiet_lock] keeps_quiet [OF quiet_tables(3)] keeps_quiet [OF quiet_tables(4)]
      keeps_quiet [OF quiet_tables(5)] keeps_quiet [OF quiet_tables(8)] keeps_quiet [OF quiet_state(8)])

lemma keeps_close: "keepsM (lib_ok open_fds) (posix_close_handler H fd)"
  unfolding posix_close_handler_def
  by (intro keeps_intros keeps_quiet [OF quiet_caches(5)] keeps_quiet [OF quiet_caches(2)] keeps_quiet [OF quiet_requests(3)])

lemma leads_rename:
  "leadsM (\<lambda>s. lib_ok open_fds s \<and> (\<forall>o' n t. rename_paths H od p nd q s = Inr ((o', n), t) \<longrightarrow> map_of (c_paths s) n = None))
     (posix_renameat2_handler H od p nd q) (\<lambda>_. lib_ok open_fds)"
proof -
  have paths: "leadsM (\<lambda>s. lib_ok open_fds s \<and> (\<forall>o' n t. rename_paths H od p nd q s = Inr ((o', n), t) \<longrightarrow> map_of (c_paths s) n = None))
     (rename_paths H od p nd q) (\<lambda>r s. lib_ok open_fds s \<and> map_of (c_paths s) (snd r) = None)"
  proof (rule leadsMI)
    fix s r t assume a: "lib_ok open_fds s \<and> (\<forall>o' n t. rename_paths H od p nd q s = Inr ((o', n), t) \<longrightarrow> map_of (c_paths s) n = None)"
      "rename_paths H od p nd q s = Inr (r, t)"
    have "quietM open_fds (rename_paths H od p nd q)" unfolding rename_paths_def by (intro quiet_intros)
    then have "lib_le open_fds s t" using a(2) by (rule quietD)
    then show "lib_ok open_fds t \<and> map_of (c_paths t) (snd r) = None"
      using a lib_ok_le by (cases r) (auto simp: lib_le_def)
  qed
  have ren: "leadsM (\<lambda>s. lib_ok open_fds s \<and> map_of (c_paths s) n = None) (rename_capio_path o' n) (\<lambda>_. lib_ok open_fds)" for o' n
    by (rule leadsMI) (blast intro: lib_ok_step rename_capio_path_step lib_ok_wf)
  have req: "leadsM (lib_ok open_fds) (bindM (rename_request H tid o' n) (\<lambda>res. if res < 0 then handled_errno else returnM (handled res)))
      (\<lambda>_. lib_ok open_fds)" for tid o' n
    unfolding leads_keeps [symmetric] by (intro keeps_quiet quiet_intros)
  have "leadsM (\<lambda>s. lib_ok open_fds s \<and> map_of (c_paths s) n = None)
      (withTid (\<lambda>tid. if is_prefix o' n then thenM (set_errno EINVAL) handled_errno
       else if is_capio_path (h_capio_dir H) o' then
         thenM (rename_capio_path o' n)
        (bindM (rename_request H tid o' n) (\<lambda>res. if res < 0 then handled_errno else returnM (handled res)))
       else if is_capio_path (h_capio_dir H) n then thenM (tryWorld (h_copy H o' n)) handled_errno
       else returnM skipped)) (\<lambda>_. lib_ok open_fds)" for o' n
    by (intro leads_exists(2) leads_if leads_then [OF ren req])
       (auto intro!: leads_from_ok keeps_intros keeps_quiet [OF quiet_tryWorld] dest: copy)
  then show ?thesis unfolding posix_renameat2_handler_def by (intro leads_bind [OF paths]) (auto split: prod.splits)
qed

end

section \<open>Reachable states\<close>

text \<open>
  The calls excluded: a duplication onto another open CAPIO descriptor, which the tables do not
  replace, and a rename to a path that is in the tables.
\<close>

definition rename_clear :: "'w host \<Rightarrow> 'w client \<Rightarrow> int \<Rightarrow> path \<Rightarrow> int \<Rightarrow> path \<Rightarrow> bool" where
  "rename_clear H s od p nd q \<longleftrightarrow>
     (case rename_paths H od p nd q s of Inl _ \<Rightarrow> True | Inr ((_, n), _) \<Rightarrow> map_of (c_paths s) n = None)"

definition safe_call :: "'w host \<Rightarrow> 'w client \<Rightarrow> syscall \<Rightarrow> bool" where
  "safe_call H s c =
     (case c of
        Sys_dup2 fd fd2 \<Rightarrow> fd2 = fd \<or> map_of (c_files s) fd2 = None
      | Sys_dup3 fd fd2 _ \<Rightarrow> fd2 = fd \<or> map_of (c_files s) fd2 = None
      | Sys_rename p q \<Rightarrow> rename_clear H s AT_FDCWD p AT_FDCWD q
      | Sys_renameat od p nd q \<Rightarrow> rename_clear H s od p nd q
      | Sys_renameat2 od p nd q \<Rightarrow> rename_clear H s od p nd q
      | _ \<Rightarrow> True)"

text \<open>
  A thread starts with empty tables; between its calls the world may change, as long as the
  kernel does not close descriptors that are still in the tables.
\<close>

inductive lib_reachable :: "'w host \<Rightarrow> ('w \<Rightarrow> int set) \<Rightarrow> 'w client \<Rightarrow> bool" for H open_fds where
  start: "c_files s = [] \<Longrightarrow> c_descriptors s = [] \<Longrightarrow> c_paths s = [] \<Longrightarrow> lib_reachable H open_fds s"
| call: "lib_reachable H open_fds s \<Longrightarrow> safe_call H s c \<Longrightarrow> hook fuel H flag dir c s = Inr (r, t) \<Longrightarrow>
    lib_reachable H open_fds t"
| outside: "lib_reachable H open_fds s \<Longrightarrow> (\<forall>fd. map_of (c_files s) fd \<noteq> None \<longrightarrow> fd \<in> open_fds w) \<Longrightarrow>
    lib_reachable H open_fds (s\<lparr>c_world := w\<rparr>)"

context kernel_descriptors
begin

lemmas keeps_changing = keeps_dup keeps_fcntl keeps_close

lemma keeps_fork: "keepsM (lib_ok open_fds) (posix_fork_handler H)"
  unfolding posix_fork_handler_def
  by (intro keeps_quiet quiet_intros quiet_onWorld) (erule fork)

lemma keeps_other:
  assumes "case c of Sys_dup2 _ _ \<Rightarrow> False | Sys_dup3 _ _ _ \<Rightarrow> False | Sys_rename _ _ \<Rightarrow> False
    | Sys_renameat _ _ _ _ \<Rightarrow> False | Sys_renameat2 _ _ _ _ \<Rightarrow> False | _ \<Rightarrow> True"
  shows "keepsM (lib_ok open_fds) (syscall_table fuel H c)"
  using assms
  by (cases c) (simp_all only: syscall_table.simps syscall.simps keeps_changing keeps_fork,
     (unfold posix_handler_defs not_handled_handler_def, (intro keeps_intros | intro keeps_quiet quiet_intros)+)+)

lemma rename_clearD:
  "rename_clear H s od p nd q \<Longrightarrow> \<forall>o' n t. rename_paths H od p nd q s = Inr ((o', n), t) \<longrightarrow> map_of (c_paths s) n = None"
  by (auto simp: rename_clear_def)

lemma rename_ok:
  assumes "lib_ok open_fds s" and "rename_clear H s od p nd q" and "posix_renameat2_handler H od p nd q s = Inr (r, t)"
  shows "lib_ok open_fds t"
  by (rule leadsMD [OF leads_rename _ assms(3)]) (intro conjI assms(1) rename_clearD assms(2))

lemma table_ok:
  assumes ok: "lib_ok open_fds s" and safe: "safe_call H s c" and run: "syscall_table fuel H c s = Inr (r, t)"
  shows "lib_ok open_fds t"
proof (cases "case c of Sys_dup2 _ _ \<Rightarrow> False | Sys_dup3 _ _ _ \<Rightarrow> False | Sys_rename _ _ \<Rightarrow> False
    | Sys_renameat _ _ _ _ \<Rightarrow> False | Sys_renameat2 _ _ _ _ \<Rightarrow> False | _ \<Rightarrow> True")
  case True
  show ?thesis by (rule keepsMD [OF keeps_other [OF True] ok run])
next
  case False
  then consider fd fd2 where "c = Sys_dup2 fd fd2" | fd fd2 fl where "c = Sys_dup3 fd fd2 fl"
    | p q where "c = Sys_rename p q" | od p nd q where "c = Sys_renameat od p nd q"
    | od p nd q where "c = Sys_renameat2 od p nd q"
    by (cases c) simp_all
  then show ?thesis
  proof cases
    case 1
    have "lib_ok open_fds s \<and> (fd2 = fd \<or> map_of (c_files s) fd2 = None)" using ok safe 1 by (simp add: safe_call_def)
    then show ?thesis by (rule leadsMD [OF leads_dup2]) (use run 1 in simp)
  next
    case 2
    have "lib_ok open_fds s \<and> (fd2 = fd \<or> map_of (c_files s) fd2 = None)" using ok safe 2 by (simp add: safe_call_def)
    then show ?thesis by (rule leadsMD [OF leads_dup3]) (use run 2 in simp)
  next
    case 3
    then show ?thesis using rename_ok [OF ok, of "- 100" p "- 100" q r t] safe run
      by (simp add: safe_call_def posix_rename_handler_def)
  next
    case 4
    then show ?thesis using rename_ok [OF ok, of od p nd q r t] safe run
      by (simp add: safe_call_def posix_renameat_handler_def)
  next
    case 5
    then show ?thesis using rename_ok [OF ok, of od p nd q r t] safe run by (simp add: safe_call_def)
  qed
qed

lemma hook_ok:
  assumes "lib_ok open_fds s" and "safe_call H s c" and "hook fuel H flag dir c s = Inr (r, t)"
  shows "lib_ok open_fds t"
proof (cases "c = Sys_futex \<or> flag \<or> c = Sys_other \<or> dir = None")
  case True
  then show ?thesis using assms(1,3) by (auto simp: hook_def not_handled_handler_def returnM_def)
next
  case False
  then have "syscall_table fuel H c s = Inr (r, t)" using assms(3) by (auto simp: hook_def split: sum.splits fault.splits)
  then show ?thesis by (rule table_ok [OF assms(1,2)])
qed

lemma reachable_ok: "lib_reachable H open_fds s \<Longrightarrow> lib_ok open_fds s"
proof (induction rule: lib_reachable.induct)
  case (start s)
  then show ?case by (simp add: lib_ok_def client_wf_def tables_agree_def)
next
  case (call s c fuel flag dir r t)
  then show ?case by (blast intro: hook_ok)
next
  case (outside s w)
  then have "client_wf s" by (simp add: lib_ok_def)
  then have "client_wf (s\<lparr>c_world := w\<rparr>)" by (rule client_wf_cong) simp_all
  then show ?case using outside by (simp add: lib_ok_def)
qed

end

lemma lib_ok_lookup:
  assumes "lib_ok F s" and "exists_capio_fd fd s = Inr (True, s)"
  obtains p off fds where "get_capio_fd_path fd s = Inr (p, s)" and "get_capio_fd_offset fd s = Inr (off, s)"
    and "map_of (c_paths s) p = Some fds" and "fd \<in> set fds" and "fd \<in> F (c_world s)"
proof -
  have ag: "tables_agree (map_of (c_files s)) (map_of (c_descriptors s)) (map_of (c_paths s)) (length (c_offsets s))"
    using assms(1) by (simp add: lib_ok_def client_wf_def)
  obtain e where e: "map_of (c_files s) fd = Some e" using assms(2) by (auto simp: exists_capio_fd_def getsM_def)
  have "map_of (c_descriptors s) fd \<noteq> None" using ag e unfolding tables_agree_def by (metis option.distinct(1))
  then obtain p where p: "map_of (c_descriptors s) fd = Some p" by blast
  obtain fds where fds: "map_of (c_paths s) p = Some fds" "fd \<in> set fds" using ag p unfolding tables_agree_def by blast
  have n: "fe_offset e < length (c_offsets s)" using ag e unfolding tables_agree_def by blast
  have k: "fd \<in> F (c_world s)" using assms(1) e unfolding lib_ok_def by simp
  show ?thesis
    by (rule that [of p "c_offsets s ! fe_offset e" fds])
       (simp_all add: get_capio_fd_path_def get_capio_fd_offset_def capio_fd_entry_def um_at_def getsM_def bindM_def optM_def
         e p n fds k returnM_def)
qed

end
