(* ===== verification/Server_Common.thy ===== *)
theory Server_Common
  imports Storage_Manager
begin

text \<open>
  What the handlers share (\<open>utils/common.hpp\<close>) and the messages to other servers
  (\<open>remote/requests.hpp\<close>).
\<close>

section \<open>Directory entries for a client\<close>

text \<open>
  \<open>strcpy(current_dirent.d_name, dir_entity->d_name)\<close>: the name in the bytes of an entry. The
  copy of a name without terminator, or with indeterminate bytes, is undefined.
\<close>

fun cstring :: "cell list \<Rightarrow> fault + byte list" where
  "cstring [] = Inl OutOfBounds"
| "cstring (None # cs) = Inl Uninitialised"
| "cstring (Some b # cs) =
     (if b = 0 then Inr []
      else case cstring cs of Inl e \<Rightarrow> Inl e | Inr bs \<Rightarrow> Inr (b # bs))"

definition dirent_copy :: "int \<Rightarrow> cell list \<Rightarrow> fault + cell list" where
  "dirent_copy i ld =
     (case cstring (drop 19 ld) of
        Inl e \<Rightarrow> Inl e
      | Inr name \<Rightarrow>
          Inr (take 8 ld @ map Some (le_bytes 8 (word_of_int ((i + 1) * sizeof_linux_dirent64)) @
                 le_bytes 2 (word_of_int sizeof_linux_dirent64)) @ [ld ! 18] @ map Some (name @ [0]) @
               replicate (NAME_ROOM - (length name + 1)) None))"

definition dirent_at :: "capio_file \<Rightarrow> int \<Rightarrow> fault + cell list" where
  "dirent_at f i =
     (case load_at (i * sizeof_linux_dirent64) sizeof_linux_dirent64 f of
        Inl e \<Rightarrow> Inl e
      | Inr ld \<Rightarrow> dirent_copy i ld)"

fun dirents_from :: "capio_file \<Rightarrow> int \<Rightarrow> nat \<Rightarrow> fault + cell list" where
  "dirents_from f i 0 = Inr []"
| "dirents_from f i (Suc n) =
     (case dirent_at f i of
        Inl e \<Rightarrow> Inl e
      | Inr ld \<Rightarrow> (case dirents_from f (i + 1) n of Inl e \<Rightarrow> Inl e | Inr lds \<Rightarrow> Inr (ld @ lds)))"

definition send_dirent_to_client :: "env \<Rightarrow> int \<Rightarrow> int \<Rightarrow> nat \<Rightarrow> off64 \<Rightarrow> off64 \<Rightarrow> unit srv" where
  "send_dirent_to_client E tid fd i offset count =
     bindM (file_at i) (\<lambda>f.
       let first_entry = to_int32 (to_u64 offset div sizeof_linux_dirent64);
           end_of_read = min (offset + count) (getStoredSize f);
           last_entry = to_int32 (to_u64 end_of_read div sizeof_linux_dirent64);
           actual_size = (last_entry - first_entry) * sizeof_linux_dirent64
       in if 0 < actual_size then
            bindM (liftM (dirents_from f first_entry (nat (last_entry - first_entry)))) (\<lambda>dirents.
              thenM (replyToClient_data tid offset
                       (\<lambda>off n. Inr (seg (nat (off - offset)) (nat n) dirents)) actual_size)
                (bindM (setFileOffset tid fd (offset + actual_size)) (\<lambda>_. returnM ())))
          else
            bindM (getPath tid fd) (\<lambda>path_to_check.
              if \<not> isCommitted f \<and> cl_isFirable E path_to_check then
                spawn (Start_dirent_data i ((last_entry + 1) * sizeof_linux_dirent64) tid fd (to_int32 count))
              else replyToClient tid offset))"

text \<open>\<open>wait_for_dirent_data\<close> up to the call of \<open>waitForData\<close>.\<close>

definition wait_for_dirent_data :: "nat \<Rightarrow> off64 \<Rightarrow> int \<Rightarrow> int \<Rightarrow> off64 \<Rightarrow> unit srv" where
  "wait_for_dirent_data i wait_size tid fd count =
     bindM (getFileOffset tid fd) (\<lambda>current_size.
       spawn (Wait_dirent_data i wait_size tid fd count current_size))"

text \<open>\<open>strtol\<close> reads optional white space, a sign and digits; \<open>*p\<close> is the end of the text.\<close>

definition is_int :: "string \<Rightarrow> bool" where
  "is_int s = (s \<noteq> [] \<and> (case next_int s of None \<Rightarrow> False | Some (_, p) \<Rightarrow> p = []))"

section \<open>Written data\<close>

definition register_written_data :: "env \<Rightarrow> int \<Rightarrow> path \<Rightarrow> nat \<Rightarrow> off64 \<Rightarrow> off64 \<Rightarrow> unit srv" where
  "register_written_data E tid p i offset end_of_write =
     thenM (registerProducedFile tid p)
       (thenM (update_file i (insertSector offset end_of_write))
          (bindM (file_at i) (\<lambda>f.
             whenM (isFirstWrite f)
               (thenM (update_file i registerFirstWrite)
                 (thenM (write_file_location E p) (updateDirectory E tid p))))))"

text \<open>
  The input is read when the output has its buffer, since the two may be the same file.
\<close>

definition copy_file_range_data :: "env \<Rightarrow> copy_range \<Rightarrow> unit srv" where
  "copy_file_range_data E c =
     bindM (get_file (cp_path_in c)) (\<lambda>i.
     bindM (file_at i) (\<lambda>f_in.
       let end_of_sector = getSectorEnd (cp_offset_in c) f_in;
           bytes_copied = (if end_of_sector = CAPIO_SECTOR_NOT_FOUND then 0
                           else min (cp_count c) (end_of_sector - cp_offset_in c))
       in thenM
            (whenM (0 < bytes_copied)
              (bindM (get_file (cp_path_out c)) (\<lambda>j.
                 let end_of_write = cp_offset_out c + bytes_copied
                 in thenM (try_update_file j (createBuffer (env_sys E) (env_quota E) (cp_path_out c) True))
                   (bindM (file_at j) (\<lambda>f_out.
                    thenM (whenM (getBufSize f_out < end_of_write)
                             (try_update_file j (expandBuffer (env_sys E) (env_quota E) end_of_write)))
                   (bindM (file_at i) (\<lambda>src.
                    thenM (try_update_file j (copyFromFile src (cp_offset_in c) (cp_offset_out c) bytes_copied))
                      (register_written_data E (cp_tid c) (cp_path_out c) j (cp_offset_out c) end_of_write))))))))
            (replyToClient (cp_tid c) bytes_copied)))"

section \<open>Messages to other servers\<close>

definition arg_bool :: "bool \<Rightarrow> arg" where
  "arg_bool b = IntA (of_bool b)"

definition serve_remote_stat_request :: "path \<Rightarrow> int \<Rightarrow> off64 \<Rightarrow> bool \<Rightarrow> string \<Rightarrow> unit srv" where
  "serve_remote_stat_request p source_tid file_size is_dir dest =
     send dest (request_text CAPIO_SERVER_REQUEST_STAT_REPLY
       [StrA p, IntA source_tid, IntA file_size, arg_bool is_dir]) []"

definition remote_reply_size :: "env \<Rightarrow> capio_file \<Rightarrow> off64 \<Rightarrow> off64" where
  "remote_reply_size E f offset =
     (let nbytes = max 0 (getStoredSize f - offset); prefetch_data_size = rc_prefetch_data_size E
      in if prefetch_data_size \<noteq> 0 \<and> prefetch_data_size < nbytes then prefetch_data_size else nbytes)"

text \<open>The parameter \<open>count\<close> of this function is an \<open>int\<close>.\<close>

definition serve_remote_read_request ::
    "int \<Rightarrow> int \<Rightarrow> off64 \<Rightarrow> off64 \<Rightarrow> off64 \<Rightarrow> bool \<Rightarrow> bool \<Rightarrow> string \<Rightarrow> cell list \<Rightarrow> unit srv" where
  "serve_remote_read_request tid fd count nbytes file_size complete is_getdents dest file =
     send dest (request_text CAPIO_SERVER_REQUEST_READ_REPLY
       [IntA tid, IntA fd, IntA (to_int32 count), IntA nbytes, IntA file_size,
        arg_bool complete, arg_bool is_getdents]) file"

definition handle_remote_stat_request :: "env \<Rightarrow> int \<Rightarrow> path \<Rightarrow> unit srv" where
  "handle_remote_stat_request E tid p =
     bindM (get_file_location p) (\<lambda>(node, _).
       send (node_str E node) (request_text CAPIO_SERVER_REQUEST_STAT
         [IntA tid, StrA (be_node_name E), StrA p]) [])"

definition handle_remote_read_request :: "env \<Rightarrow> int \<Rightarrow> int \<Rightarrow> off64 \<Rightarrow> bool \<Rightarrow> unit srv" where
  "handle_remote_read_request E tid fd count is_getdents =
     bindM (getPath tid fd) (\<lambda>p.
     bindM (getFileOffset tid fd) (\<lambda>offset.
     bindM (get_file_location p) (\<lambda>(node, _).
       send (node_str E node) (request_text CAPIO_SERVER_REQUEST_READ
         [StrA p, IntA tid, IntA fd, IntA count, IntA offset, arg_bool is_getdents]) [])))"

definition handle_remote_copy_file_range_request ::
    "env \<Rightarrow> int \<Rightarrow> int \<Rightarrow> int \<Rightarrow> path \<Rightarrow> off64 \<Rightarrow> off64 \<Rightarrow> off64 \<Rightarrow> unit srv" where
  "handle_remote_copy_file_range_request E tid fd_in fd_out path_in offset_in offset_out count =
     bindM (get_file_location path_in) (\<lambda>(node, _).
       send (node_str E node) (request_text CAPIO_SERVER_REQUEST_COPY_FILE_RANGE
         [StrA path_in, IntA tid, IntA fd_in, IntA fd_out, IntA offset_in, IntA offset_out, IntA count]) [])"

definition serve_remote_copy_file_range_request ::
    "int \<Rightarrow> int \<Rightarrow> int \<Rightarrow> off64 \<Rightarrow> off64 \<Rightarrow> off64 \<Rightarrow> off64 \<Rightarrow> off64 \<Rightarrow> bool \<Rightarrow> string \<Rightarrow> cell list \<Rightarrow> unit srv" where
  "serve_remote_copy_file_range_request tid fd_in fd_out offset_in offset_out count nbytes file_size complete dest data =
     send dest (request_text CAPIO_SERVER_REQUEST_COPY_FILE_RANGE_REPLY
       [IntA tid, IntA fd_in, IntA fd_out, IntA offset_in, IntA offset_out, IntA count, IntA nbytes,
        IntA file_size, arg_bool complete]) data"

end
