(* ===== verification/Remote_Handlers.thy ===== *)
theory Remote_Handlers
  imports Server_Common
begin

text \<open>
  The handlers of the requests from other servers (\<open>remote/handlers/\<close>) and the listener that
  dispatches them (\<open>remote/listener.hpp\<close>). A reply with data comes with the bytes that
  \<open>backend->recv_file\<close> delivers, the argument \<open>received\<close>.
\<close>

section \<open>Reads\<close>

definition serve_remote_read :: "env \<Rightarrow> path \<Rightarrow> string \<Rightarrow> int \<Rightarrow> int \<Rightarrow> off64 \<Rightarrow> off64 \<Rightarrow> bool \<Rightarrow> bool \<Rightarrow> unit srv" where
  "serve_remote_read E p dest tid fd count offset complete is_getdents =
     bindM (get_file p) (\<lambda>i.
     bindM (file_at i) (\<lambda>f.
       let nbytes = remote_reply_size E f offset; file_size = getStoredSize f
       in bindM (liftM (load_at offset nbytes f)) (\<lambda>file.
            serve_remote_read_request tid fd count nbytes file_size complete is_getdents dest file)))"

definition handle_read_reply :: "env \<Rightarrow> int \<Rightarrow> int \<Rightarrow> off64 \<Rightarrow> off64 \<Rightarrow> off64 \<Rightarrow> bool \<Rightarrow> bool \<Rightarrow> unit srv" where
  "handle_read_reply E tid fd count file_size nbytes complete is_getdents =
     bindM (getPath tid fd) (\<lambda>p.
     bindM (get_file p) (\<lambda>i.
     bindM (getFileOffset tid fd) (\<lambda>offset.
     thenM (update_file i (setRealFileSize file_size))
    (thenM (update_file i (insertSector offset (offset + nbytes)))
    (thenM (update_file i (setCommitted complete))
    (bindM (file_at i) (\<lambda>f.
       let end_of_sector = getSectorEnd offset f
       in thenM (try_update_file i (createBuffer (env_sys E) (env_quota E) p False))
            (let end_of_read = offset + count;
                 bytes_read = (if end_of_read < end_of_sector then count else end_of_sector - offset)
             in if is_getdents then send_dirent_to_client E tid fd i offset bytes_read
                else bindM (file_at i) (\<lambda>f.
                  thenM (replyToClient_data tid offset (\<lambda>off n. load_at off n f) bytes_read)
                    (bindM (setFileOffset tid fd (offset + bytes_read)) (\<lambda>_. returnM ())))))))))))"

text \<open>\<open>wait_for_data\<close> up to the call of \<open>waitForData\<close>, and after it.\<close>

definition wait_for_data :: "path \<Rightarrow> string \<Rightarrow> int \<Rightarrow> int \<Rightarrow> off64 \<Rightarrow> off64 \<Rightarrow> bool \<Rightarrow> unit srv" where
  "wait_for_data p dest tid fd count offset is_getdents =
     bindM (get_file p) (\<lambda>i. spawn (Wait_remote_data i p dest tid fd count offset is_getdents))"

definition wait_for_data_then :: "env \<Rightarrow> nat \<Rightarrow> path \<Rightarrow> string \<Rightarrow> int \<Rightarrow> int \<Rightarrow> off64 \<Rightarrow> off64 \<Rightarrow> bool \<Rightarrow> unit srv" where
  "wait_for_data_then E i p dest tid fd count offset is_getdents =
     bindM (file_at i) (\<lambda>f. serve_remote_read E p dest tid fd count offset (isCommitted f) is_getdents)"

definition handle_remote_read :: "env \<Rightarrow> path \<Rightarrow> string \<Rightarrow> int \<Rightarrow> int \<Rightarrow> off64 \<Rightarrow> off64 \<Rightarrow> bool \<Rightarrow> unit srv" where
  "handle_remote_read E p source tid fd count offset is_getdents =
     bindM (get_file p) (\<lambda>i.
     bindM (file_at i) (\<lambda>f.
       let data_available = (offset + count \<le> getStoredSize f)
       in if isCommitted f \<or> (cl_isFirable E p \<and> data_available)
          then serve_remote_read E p source tid fd count offset (isCommitted f) is_getdents
          else spawn (Start_remote_data p source tid fd count offset is_getdents)))"

definition handle_remote_read_reply ::
    "env \<Rightarrow> cell list \<Rightarrow> int \<Rightarrow> int \<Rightarrow> off64 \<Rightarrow> off64 \<Rightarrow> off64 \<Rightarrow> bool \<Rightarrow> bool \<Rightarrow> unit srv" where
  "handle_remote_read_reply E received tid fd count nbytes file_size complete is_getdents =
     bindM (getPath tid fd) (\<lambda>p.
     bindM (getFileOffset tid fd) (\<lambda>offset.
     bindM (get_file p) (\<lambda>i.
     thenM (try_update_file i (createBuffer (env_sys E) (env_quota E) p False))
    (thenM (whenM (nbytes \<noteq> 0)
       (bindM (file_at i) (\<lambda>f.
          thenM (whenM (getBufSize f < offset + nbytes)
                   (try_update_file i (expandBuffer (env_sys E) (env_quota E) (offset + nbytes))))
            (try_update_file i (readFromNode received offset)))))
       (handle_read_reply E tid fd count file_size nbytes complete is_getdents)))))"

definition remote_read_handler :: "env \<Rightarrow> remote_message \<Rightarrow> unit srv" where
  "remote_read_handler E r =
     bindM (scan (get_content r) [Conv_s, Conv_d, Conv_d, Conv_ld, Conv_ld, Conv_d]) (\<lambda>a.
       handle_remote_read E (str_arg a 0) (rr_source r) (int_arg a 1) (int_arg a 2) (int_arg a 3)
         (int_arg a 4) (int_arg a 5 \<noteq> 0))"

definition remote_read_reply_handler :: "env \<Rightarrow> remote_message \<Rightarrow> cell list \<Rightarrow> unit srv" where
  "remote_read_reply_handler E r received =
     bindM (scan (get_content r) [Conv_d, Conv_d, Conv_ld, Conv_ld, Conv_ld, Conv_d, Conv_d]) (\<lambda>a.
       handle_remote_read_reply E received (int_arg a 0) (int_arg a 1) (int_arg a 2) (int_arg a 3)
         (int_arg a 4) (int_arg a 5 \<noteq> 0) (int_arg a 6 \<noteq> 0))"

section \<open>Status\<close>

definition serve_remote_stat :: "path \<Rightarrow> string \<Rightarrow> int \<Rightarrow> unit srv" where
  "serve_remote_stat p dest source_tid =
     bindM (get_file p) (\<lambda>i.
     bindM (file_at i) (\<lambda>f.
       serve_remote_stat_request p source_tid (getFileSize f) (isDirectory f) dest))"

text \<open>\<open>wait_for_completion\<close> up to the call of \<open>waitForCommit\<close>; \<open>serve_remote_stat\<close> follows it.\<close>

definition wait_for_completion :: "path \<Rightarrow> int \<Rightarrow> string \<Rightarrow> unit srv" where
  "wait_for_completion p source_tid dest =
     bindM (get_file p) (\<lambda>i. spawn (Wait_remote_completion i p source_tid dest))"

definition handle_remote_stat :: "env \<Rightarrow> int \<Rightarrow> path \<Rightarrow> string \<Rightarrow> unit srv" where
  "handle_remote_stat E source_tid p dest =
     bindM (tryGet p) (\<lambda>r.
       case r of
         Some i \<Rightarrow>
           bindM (file_at i) (\<lambda>f.
             if isCommitted f \<or> cl_isFirable E p then serve_remote_stat p dest source_tid
             else spawn (Start_remote_completion p source_tid dest))
       | None \<Rightarrow>
           bindM (add_file E p False CAPIO_DEFAULT_FILE_INITIAL_SIZE) (\<lambda>_.
             spawn (Start_remote_completion p source_tid dest)))"

definition handle_remote_stat_reply :: "path \<Rightarrow> int \<Rightarrow> off64 \<Rightarrow> bool \<Rightarrow> unit srv" where
  "handle_remote_stat_reply p source_tid fsize dir =
     thenM (replyToClient source_tid fsize) (replyToClient source_tid (of_bool dir))"

definition remote_stat_handler :: "env \<Rightarrow> remote_message \<Rightarrow> unit srv" where
  "remote_stat_handler E r =
     bindM (scan (get_content r) [Conv_d, Conv_s, Conv_s]) (\<lambda>a.
       handle_remote_stat E (int_arg a 0) (str_arg a 2) (str_arg a 1))"

definition remote_stat_reply_handler :: "remote_message \<Rightarrow> unit srv" where
  "remote_stat_reply_handler r =
     bindM (scan (get_content r) [Conv_s, Conv_d, Conv_ld, Conv_d]) (\<lambda>a.
       handle_remote_stat_reply (str_arg a 0) (int_arg a 1) (int_arg a 2) (int_arg a 3 \<noteq> 0))"

section \<open>Copies\<close>

definition handle_remote_copy_file_range :: "env \<Rightarrow> copy_range \<Rightarrow> unit srv" where
  "handle_remote_copy_file_range E c =
     bindM (get_file (cp_path_in c)) (\<lambda>i.
     bindM (file_at i) (\<lambda>f.
       let end_of_sector = getSectorEnd (cp_offset_in c) f;
           sector_found = (end_of_sector \<noteq> CAPIO_SECTOR_NOT_FOUND);
           range_here = (sector_found \<and> cp_offset_in c + cp_count c \<le> end_of_sector);
           all_data_here = (isCommitted f \<and> (if sector_found then end_of_sector else 0) = getRealFileSize f)
       in if range_here \<or> all_data_here then copy_file_range_data E c
          else handle_remote_copy_file_range_request E (cp_tid c) (cp_fd_in c) (cp_fd_out c) (cp_path_in c)
                 (cp_offset_in c) (cp_offset_out c) (cp_count c)))"

text \<open>The lambda \<open>serve\<close>.\<close>

definition serve_remote_copy ::
    "env \<Rightarrow> path \<Rightarrow> string \<Rightarrow> int \<Rightarrow> int \<Rightarrow> int \<Rightarrow> off64 \<Rightarrow> off64 \<Rightarrow> off64 \<Rightarrow> unit srv" where
  "serve_remote_copy E path_in dest tid fd_in fd_out offset_in offset_out count =
     bindM (get_file path_in) (\<lambda>i.
     bindM (file_at i) (\<lambda>f.
       let nbytes = remote_reply_size E f offset_in
       in bindM (liftM (load_at offset_in nbytes f)) (\<lambda>data.
            serve_remote_copy_file_range_request tid fd_in fd_out offset_in offset_out count nbytes
              (getStoredSize f) (isCommitted f) dest data)))"

definition handle_remote_copy_file_range_data ::
    "env \<Rightarrow> path \<Rightarrow> string \<Rightarrow> int \<Rightarrow> int \<Rightarrow> int \<Rightarrow> off64 \<Rightarrow> off64 \<Rightarrow> off64 \<Rightarrow> unit srv" where
  "handle_remote_copy_file_range_data E path_in dest tid fd_in fd_out offset_in offset_out count =
     bindM (get_file path_in) (\<lambda>i.
     bindM (file_at i) (\<lambda>f.
       let data_available = (offset_in + count \<le> getStoredSize f)
       in if isCommitted f \<or> (cl_isFirable E path_in \<and> data_available)
          then serve_remote_copy E path_in dest tid fd_in fd_out offset_in offset_out count
          else spawn (Wait_remote_copy i path_in dest tid fd_in fd_out offset_in offset_out count)))"

definition handle_remote_copy_file_range_reply ::
    "env \<Rightarrow> cell list \<Rightarrow> int \<Rightarrow> int \<Rightarrow> int \<Rightarrow> off64 \<Rightarrow> off64 \<Rightarrow> off64 \<Rightarrow> off64 \<Rightarrow> off64 \<Rightarrow> bool \<Rightarrow> unit srv" where
  "handle_remote_copy_file_range_reply E received tid fd_in fd_out offset_in offset_out count nbytes file_size complete =
     bindM (getPath tid fd_in) (\<lambda>path_in.
     bindM (getPath tid fd_out) (\<lambda>path_out.
     bindM (get_file path_in) (\<lambda>i.
     thenM (try_update_file i (createBuffer (env_sys E) (env_quota E) path_in False))
    (thenM (whenM (nbytes \<noteq> 0)
       (bindM (file_at i) (\<lambda>f.
          thenM (whenM (getBufSize f < offset_in + nbytes)
                   (try_update_file i (expandBuffer (env_sys E) (env_quota E) (offset_in + nbytes))))
            (try_update_file i (readFromNode received offset_in)))))
    (thenM (update_file i (setRealFileSize file_size))
    (thenM (update_file i (insertSector offset_in (offset_in + nbytes)))
    (thenM (update_file i (setCommitted complete))
       (copy_file_range_data E
          \<lparr>cp_tid = tid, cp_fd_in = fd_in, cp_fd_out = fd_out, cp_offset_in = offset_in,
           cp_offset_out = offset_out, cp_count = count, cp_path_in = path_in, cp_path_out = path_out\<rparr>))))))))"

definition remote_copy_file_range_handler :: "env \<Rightarrow> remote_message \<Rightarrow> unit srv" where
  "remote_copy_file_range_handler E r =
     bindM (scan (get_content r) [Conv_s, Conv_d, Conv_d, Conv_d, Conv_ld, Conv_ld, Conv_ld]) (\<lambda>a.
       handle_remote_copy_file_range_data E (str_arg a 0) (rr_source r) (int_arg a 1) (int_arg a 2)
         (int_arg a 3) (int_arg a 4) (int_arg a 5) (int_arg a 6))"

definition remote_copy_file_range_reply_handler :: "env \<Rightarrow> remote_message \<Rightarrow> cell list \<Rightarrow> unit srv" where
  "remote_copy_file_range_reply_handler E r received =
     bindM (scan (get_content r)
              [Conv_d, Conv_d, Conv_d, Conv_ld, Conv_ld, Conv_ld, Conv_ld, Conv_ld, Conv_d]) (\<lambda>a.
       handle_remote_copy_file_range_reply E received (int_arg a 0) (int_arg a 1) (int_arg a 2) (int_arg a 3)
         (int_arg a 4) (int_arg a 5) (int_arg a 6) (int_arg a 7) (int_arg a 8 \<noteq> 0))"

section \<open>The listener\<close>

text \<open>\<open>build_server_request_handlers_table\<close>; \<open>None\<close> is a null entry.\<close>

definition server_request_handlers :: "env \<Rightarrow> nat \<Rightarrow> (remote_message \<Rightarrow> cell list \<Rightarrow> unit srv) option" where
  "server_request_handlers E code =
     (if code = CAPIO_SERVER_REQUEST_READ then Some (\<lambda>r _. remote_read_handler E r)
      else if code = CAPIO_SERVER_REQUEST_READ_REPLY then Some (remote_read_reply_handler E)
      else if code = CAPIO_SERVER_REQUEST_STAT then Some (\<lambda>r _. remote_stat_handler E r)
      else if code = CAPIO_SERVER_REQUEST_STAT_REPLY then Some (\<lambda>r _. remote_stat_reply_handler r)
      else if code = CAPIO_SERVER_REQUEST_COPY_FILE_RANGE then Some (\<lambda>r _. remote_copy_file_range_handler E r)
      else if code = CAPIO_SERVER_REQUEST_COPY_FILE_RANGE_REPLY then Some (remote_copy_file_range_reply_handler E)
      else None)"

text \<open>One round of the loop of \<open>capio_remote_listener\<close>.\<close>

definition capio_remote_listener :: "env \<Rightarrow> remote_message \<Rightarrow> cell list \<Rightarrow> unit srv" where
  "capio_remote_listener E r received =
     (let code = rr_code r
      in if code < 0 \<or> int CAPIO_SERVER_NR_REQUEST \<le> code then returnM ()
         else case server_request_handlers E (nat code) of
                None \<Rightarrow> returnM ()
              | Some h \<Rightarrow> h r received)"

end
