(* ===== verification/Server_Handlers.thy ===== *)
theory Server_Handlers
  imports Remote_Handlers
begin

text \<open>
  The handlers of the requests from clients (\<open>handlers/\<close>) and the loop that dispatches them
  (\<open>capio_server.cpp\<close>). A handler takes the text after the code; its first step is the
  \<open>sscanf\<close> of the source.
\<close>

section \<open>Open and create\<close>

definition update_file_metadata :: "env \<Rightarrow> path \<Rightarrow> int \<Rightarrow> int \<Rightarrow> bool \<Rightarrow> off64 \<Rightarrow> unit srv" where
  "update_file_metadata E p tid fd is_creat offset =
     bindM (tryGet p) (\<lambda>c_file_opt.
     bindM (case c_file_opt of Some i \<Rightarrow> returnM i | None \<Rightarrow> add_file E p False (rc_file_initial_size E)) (\<lambda>i.
     thenM (addFileToTid tid fd p offset)
       (bindM (file_at i) (\<lambda>f.
          whenM (isFirstWrite f \<and> is_creat)
            (thenM (registerProducedFile tid p)
            (thenM (update_file i registerFirstWrite)
            (thenM (write_file_location E p) (updateDirectory E tid p))))))))"

text \<open>\<open>wait_for_file_creation\<close> after \<open>loop_load_file_location\<close>.\<close>

definition wait_for_file_creation :: "env \<Rightarrow> path \<Rightarrow> int \<Rightarrow> int \<Rightarrow> unit srv" where
  "wait_for_file_creation E p tid fd =
     thenM (update_file_metadata E p tid fd False 0) (replyToClient tid 0)"

text \<open>\<open>get_file_location_opt(path) || load_file_location(path)\<close>.\<close>

definition file_location_exists :: "env \<Rightarrow> path \<Rightarrow> bool srv" where
  "file_location_exists E p =
     bindM (get_file_location_opt p) (\<lambda>l. if l \<noteq> None then returnM True else load_file_location E p)"

definition handle_create :: "env \<Rightarrow> int \<Rightarrow> int \<Rightarrow> path \<Rightarrow> unit srv" where
  "handle_create E tid fd p =
     bindM (file_location_exists E p) (\<lambda>known.
       thenM (update_file_metadata E p tid fd (\<not> known) 0) (replyToClient tid 0))"

definition handle_create_exclusive :: "env \<Rightarrow> int \<Rightarrow> int \<Rightarrow> path \<Rightarrow> unit srv" where
  "handle_create_exclusive E tid fd p =
     bindM (tryGet p) (\<lambda>r.
       if r \<noteq> None then replyToClient tid 1
       else thenM (replyToClient tid 0) (update_file_metadata E p tid fd True 0))"

definition handle_open :: "env \<Rightarrow> int \<Rightarrow> int \<Rightarrow> path \<Rightarrow> unit srv" where
  "handle_open E tid fd p =
     bindM (file_location_exists E p) (\<lambda>known.
       if known then thenM (update_file_metadata E p tid fd False 0) (replyToClient tid 0)
       else spawn (Wait_file_creation p tid fd))"

definition create_handler :: "env \<Rightarrow> string \<Rightarrow> unit srv" where
  "create_handler E str =
     bindM (scan str [Conv_d, Conv_d, Conv_s]) (\<lambda>a.
       let tid = int_arg a 0; fd = int_arg a 1; p = str_arg a 2
       in if cl_isExcluded E p then replyToClient tid CAPIO_POSIX_SYSCALL_REQUEST_SKIP
          else handle_create E tid fd p)"

definition create_exclusive_handler :: "env \<Rightarrow> string \<Rightarrow> unit srv" where
  "create_exclusive_handler E str =
     bindM (scan str [Conv_d, Conv_d, Conv_s]) (\<lambda>a.
       let tid = int_arg a 0; fd = int_arg a 1; p = str_arg a 2
       in if cl_isExcluded E p then replyToClient tid CAPIO_POSIX_SYSCALL_REQUEST_SKIP
          else handle_create_exclusive E tid fd p)"

definition open_handler :: "env \<Rightarrow> string \<Rightarrow> unit srv" where
  "open_handler E str =
     bindM (scan str [Conv_d, Conv_d, Conv_s]) (\<lambda>a.
       let tid = int_arg a 0; fd = int_arg a 1; p = str_arg a 2
       in if cl_isExcluded E p then replyToClient tid CAPIO_POSIX_SYSCALL_REQUEST_SKIP
          else handle_open E tid fd p)"

section \<open>Close\<close>

definition handle_close :: "env \<Rightarrow> int \<Rightarrow> int \<Rightarrow> unit srv" where
  "handle_close E tid fd =
     bindM (getPath tid fd) (\<lambda>p.
       if p = [] then returnM ()
       else bindM (get_fd tid fd) (\<lambda>i.
         thenM (update_file i file_close)
           (bindM (file_at i) (\<lambda>f.
              thenM (whenM (cl_getCommitRule E p = ON_CLOSE \<and> file_closed f)
                       (thenM (update_file i (setCommitted True)) (try_update_file i (dump (env_sys E)))))
                (removeFromTid tid fd)))))"

definition close_handler :: "env \<Rightarrow> string \<Rightarrow> unit srv" where
  "close_handler E str = bindM (scan str [Conv_d, Conv_d]) (\<lambda>a. handle_close E (int_arg a 0) (int_arg a 1))"

section \<open>Read\<close>

text \<open>\<open>replyToClient\<close> with the bytes of the file, and the move of the descriptor's offset.\<close>

definition reply_bytes :: "int \<Rightarrow> int \<Rightarrow> nat \<Rightarrow> off64 \<Rightarrow> off64 \<Rightarrow> unit srv" where
  "reply_bytes tid fd i offset n =
     bindM (file_at i) (\<lambda>f.
       thenM (replyToClient_data tid offset (\<lambda>off k. load_at off k f) n)
         (bindM (setFileOffset tid fd (offset + n)) (\<lambda>_. returnM ())))"

definition handle_pending_read :: "env \<Rightarrow> int \<Rightarrow> int \<Rightarrow> off64 \<Rightarrow> off64 \<Rightarrow> unit srv" where
  "handle_pending_read E tid fd process_offset count =
     bindM (getPath tid fd) (\<lambda>p.
     bindM (get_file p) (\<lambda>i.
     bindM (file_at i) (\<lambda>f.
       let end_of_sector = getSectorEnd process_offset f;
           end_of_read = process_offset + count;
           bytes_read = (if end_of_read < end_of_sector then count
                         else if end_of_sector = CAPIO_SECTOR_NOT_FOUND then 0
                         else end_of_sector - process_offset)
       in thenM (try_update_file i (createBuffer (env_sys E) (env_quota E) p False))
            (reply_bytes tid fd i process_offset bytes_read))))"

definition handle_local_read :: "env \<Rightarrow> int \<Rightarrow> int \<Rightarrow> off64 \<Rightarrow> bool \<Rightarrow> unit srv" where
  "handle_local_read E tid fd count is_prod =
     bindM (getPath tid fd) (\<lambda>p.
     bindM (get_file p) (\<lambda>i.
     bindM (getFileOffset tid fd) (\<lambda>process_offset.
     bindM (file_at i) (\<lambda>f.
       let file_complete = (isCommitted f \<or> is_prod)
       in if \<not> (file_complete \<or> cl_isFirable E p) then spawn (Wait_read_commit i tid fd count process_offset)
          else
            let end_of_sector = getSectorEnd process_offset f;
                sector_not_found = (end_of_sector = CAPIO_SECTOR_NOT_FOUND)
            in if sector_not_found \<and> file_complete then replyToClient tid process_offset
               else if (sector_not_found \<or> end_of_sector < process_offset + count) \<and> \<not> file_complete
               then spawn (Wait_read_data i tid fd count process_offset)
               else
                 let read_size = min count (end_of_sector - process_offset)
                 in thenM (try_update_file i (createBuffer (env_sys E) (env_quota E) p False))
                      (reply_bytes tid fd i process_offset read_size)))))"

definition request_remote_read :: "env \<Rightarrow> int \<Rightarrow> int \<Rightarrow> off64 \<Rightarrow> unit srv" where
  "request_remote_read E tid fd count =
     bindM (getPath tid fd) (\<lambda>p.
     bindM (get_file p) (\<lambda>i.
     bindM (getFileOffset tid fd) (\<lambda>offset.
     bindM (file_at i) (\<lambda>f.
       let end_of_read = offset + count; end_of_sector = getSectorEnd offset f
       in if isCommitted f \<and>
             (end_of_read \<le> end_of_sector \<or>
              (if end_of_sector = CAPIO_SECTOR_NOT_FOUND then 0 else end_of_sector) = getRealFileSize f)
          then handle_local_read E tid fd count True
          else if end_of_read \<le> end_of_sector
          then thenM (try_update_file i (createBuffer (env_sys E) (env_quota E) p False))
                 (reply_bytes tid fd i offset count)
          else handle_remote_read_request E tid fd count False))))"

text \<open>
  \<open>wait_for_file\<close> after \<open>loop_load_file_location\<close>. The comparison is one of pointers.
\<close>

definition wait_for_file :: "env \<Rightarrow> path \<Rightarrow> int \<Rightarrow> int \<Rightarrow> off64 \<Rightarrow> unit srv" where
  "wait_for_file E p tid fd count =
     bindM (get_file_location p) (\<lambda>(node, _).
       if node = OwnName then handle_local_read E tid fd count False
       else request_remote_read E tid fd count)"

definition handle_read :: "env \<Rightarrow> int \<Rightarrow> int \<Rightarrow> off64 \<Rightarrow> unit srv" where
  "handle_read E tid fd count =
     bindM (getPath tid fd) (\<lambda>p.
     bindM (getAppName tid) (\<lambda>app_name.
     bindM (if cl_isProducer E p app_name then returnM True else isProducer tid p) (\<lambda>is_prod.
     bindM (get_file_location_opt p) (\<lambda>l.
       if l = None \<and> \<not> is_prod then spawn (Wait_file p tid fd count)
       else if is_prod \<or> node_str E (fst (the l)) = be_node_name E \<or> rc_capio_dir E = p
       then handle_local_read E tid fd count is_prod
       else request_remote_read E tid fd count))))"

definition read_handler :: "env \<Rightarrow> string \<Rightarrow> unit srv" where
  "read_handler E str =
     bindM (scan str [Conv_d, Conv_d, Conv_ld]) (\<lambda>a. handle_read E (int_arg a 0) (int_arg a 1) (int_arg a 2))"

section \<open>Write\<close>

definition read_from_queue :: "int \<Rightarrow> nat \<Rightarrow> off64 \<Rightarrow> off64 \<Rightarrow> unit srv" where
  "read_from_queue tid i offset count =
     bindM (getClientToServerDataBuffers tid) (\<lambda>data_buf.
     bindM (file_at i) (\<lambda>f.
     bindM (liftM (readFromQueue data_buf offset count f)) (\<lambda>(q, f').
       thenM (set_ClientToServer tid q) (set_file i f'))))"

definition write_handler :: "env \<Rightarrow> string \<Rightarrow> unit srv" where
  "write_handler E str =
     bindM (scan str [Conv_d, Conv_d, Conv_ld]) (\<lambda>a.
       let tid = int_arg a 0; fd = int_arg a 1; count = int_arg a 2
       in bindM (getFileOffset tid fd) (\<lambda>offset.
          bindM (getPath tid fd) (\<lambda>p.
          bindM (get_file p) (\<lambda>i.
          bindM (getClientToServerDataBuffers tid) (\<lambda>_.
            let end_of_write = offset + count
            in thenM (try_update_file i (createBuffer (env_sys E) (env_quota E) p True))
              (bindM (file_at i) (\<lambda>f.
               thenM (whenM (getBufSize f < end_of_write)
                        (try_update_file i (expandBuffer (env_sys E) (env_quota E) end_of_write)))
              (thenM (read_from_queue tid i offset count)
              (thenM (register_written_data E tid p i offset end_of_write)
                (bindM (setFileOffset tid fd end_of_write) (\<lambda>_. returnM ())))))))))))"

section \<open>Status\<close>

definition reply_file_stat :: "int \<Rightarrow> nat \<Rightarrow> unit srv" where
  "reply_file_stat tid i =
     bindM (file_at i) (\<lambda>f.
       thenM (replyToClient tid (getFileSize f)) (replyToClient tid (if isDirectory f then 1 else 0)))"

text \<open>
  \<open>wait_for_file_completion\<close> after \<open>loop_load_file_location\<close>. The comparison is one of pointers.
\<close>

definition wait_for_file_completion :: "env \<Rightarrow> int \<Rightarrow> path \<Rightarrow> unit srv" where
  "wait_for_file_completion E tid p =
     bindM (get_file p) (\<lambda>i.
     bindM (file_at i) (\<lambda>f.
     bindM (if isCommitted f \<or> cl_isFirable E p then returnM True
            else bindM (get_file_location p) (\<lambda>(node, _). returnM (node = OwnName))) (\<lambda>here.
       if here then reply_file_stat tid i else handle_remote_stat_request E tid p)))"

definition reply_stat :: "env \<Rightarrow> int \<Rightarrow> path \<Rightarrow> unit srv" where
  "reply_stat E tid p =
     bindM (get_file_location_opt p) (\<lambda>file_location_opt.
     bindM (if file_location_opt \<noteq> None then returnM True else load_file_location E p) (\<lambda>known.
       if \<not> known then
         bindM (getAppName tid) (\<lambda>app_name.
           if cl_isProducer E p app_name then thenM (replyToClient tid (- 1)) (replyToClient tid (- 1))
           else spawn (Wait_file_completion tid p))
       else
         bindM (tryGet p) (\<lambda>c_file_opt.
         bindM (case c_file_opt of Some i \<Rightarrow> returnM i | None \<Rightarrow> add_file E p False (rc_file_initial_size E)) (\<lambda>i.
         bindM (get_file_location p) (\<lambda>(node, _).
         bindM (file_at i) (\<lambda>f.
           if isCommitted f \<or> node_str E node = be_node_name E \<or> cl_isFirable E p \<or> rc_capio_dir E = p
           then reply_file_stat tid i
           else thenM (try_update_file i (createBuffer (env_sys E) (env_quota E) p False))
                  (handle_remote_stat_request E tid p)))))))"

definition fstat_handler :: "env \<Rightarrow> string \<Rightarrow> unit srv" where
  "fstat_handler E str =
     bindM (scan str [Conv_d, Conv_d]) (\<lambda>a.
       bindM (getPath (int_arg a 0) (int_arg a 1)) (reply_stat E (int_arg a 0)))"

definition stat_handler :: "env \<Rightarrow> string \<Rightarrow> unit srv" where
  "stat_handler E str =
     bindM (scan str [Conv_d, Conv_s]) (\<lambda>a.
       let tid = int_arg a 0; p = str_arg a 1
       in if cl_isExcluded E p then replyToClient tid CAPIO_POSIX_SYSCALL_REQUEST_SKIP
          else reply_stat E tid p)"

section \<open>Seek\<close>

definition handle_lseek :: "int \<Rightarrow> int \<Rightarrow> off64 \<Rightarrow> unit srv" where
  "handle_lseek tid fd offset = bindM (setFileOffset tid fd offset) (\<lambda>_. replyToClient tid offset)"

definition handle_seek_data :: "int \<Rightarrow> int \<Rightarrow> off64 \<Rightarrow> unit srv" where
  "handle_seek_data tid fd offset =
     bindM (get_fd tid fd) (\<lambda>i.
     bindM (file_at i) (\<lambda>f.
       let offset = seekData offset f
       in bindM (setFileOffset tid fd offset) (\<lambda>_. replyToClient tid offset)))"

definition handle_seek_end :: "env \<Rightarrow> int \<Rightarrow> int \<Rightarrow> unit srv" where
  "handle_seek_end E tid fd = bindM (getPath tid fd) (reply_stat E tid)"

definition handle_seek_hole :: "int \<Rightarrow> int \<Rightarrow> off64 \<Rightarrow> unit srv" where
  "handle_seek_hole tid fd offset =
     bindM (get_fd tid fd) (\<lambda>i.
     bindM (file_at i) (\<lambda>f.
       let offset = seekHole offset f
       in bindM (setFileOffset tid fd offset) (\<lambda>_. replyToClient tid offset)))"

definition lseek_handler :: "string \<Rightarrow> unit srv" where
  "lseek_handler str =
     bindM (scan str [Conv_d, Conv_d, Conv_ld]) (\<lambda>a. handle_lseek (int_arg a 0) (int_arg a 1) (int_arg a 2))"

definition seek_data_handler :: "string \<Rightarrow> unit srv" where
  "seek_data_handler str =
     bindM (scan str [Conv_d, Conv_d, Conv_ld]) (\<lambda>a. handle_seek_data (int_arg a 0) (int_arg a 1) (int_arg a 2))"

definition seek_end_handler :: "env \<Rightarrow> string \<Rightarrow> unit srv" where
  "seek_end_handler E str =
     bindM (scan str [Conv_d, Conv_d]) (\<lambda>a. handle_seek_end E (int_arg a 0) (int_arg a 1))"

definition seek_hole_handler :: "string \<Rightarrow> unit srv" where
  "seek_hole_handler str =
     bindM (scan str [Conv_d, Conv_d, Conv_ld]) (\<lambda>a. handle_seek_hole (int_arg a 0) (int_arg a 1) (int_arg a 2))"

section \<open>Directories\<close>

definition request_remote_getdents :: "env \<Rightarrow> int \<Rightarrow> int \<Rightarrow> off64 \<Rightarrow> unit srv" where
  "request_remote_getdents E tid fd count =
     bindM (get_fd tid fd) (\<lambda>i.
     bindM (getFileOffset tid fd) (\<lambda>offset.
     bindM (file_at i) (\<lambda>f.
       let end_of_read = offset + count; end_of_sector = getSectorEnd offset f
       in if isCommitted f \<and>
             (end_of_read \<le> end_of_sector \<or>
              (if end_of_sector = CAPIO_SECTOR_NOT_FOUND then 0 else end_of_sector) = getRealFileSize f)
          then send_dirent_to_client E tid fd i offset count
          else if end_of_read \<le> end_of_sector
          then bindM (getPath tid fd) (\<lambda>p.
                 thenM (try_update_file i (createBuffer (env_sys E) (env_quota E) p False))
                   (reply_bytes tid fd i offset count))
          else handle_remote_read_request E tid fd count True)))"

definition handle_getdents :: "env \<Rightarrow> int \<Rightarrow> int \<Rightarrow> off64 \<Rightarrow> unit srv" where
  "handle_getdents E tid fd count =
     bindM (getAppName tid) (\<lambda>app_name.
     bindM (getPath tid fd) (\<lambda>path_to_check.
     bindM (get_file_location_opt path_to_check) (\<lambda>l.
       let is_prod = cl_isProducer E path_to_check app_name
       in if l = None \<and> \<not> is_prod then spawn (Wait_getdents path_to_check tid fd count)
          else if is_prod \<or> node_str E (fst (the l)) = be_node_name E \<or> rc_capio_dir E = path_to_check
          then bindM (get_file path_to_check) (\<lambda>i.
                 bindM (getFileOffset tid fd) (\<lambda>offset. send_dirent_to_client E tid fd i offset count))
          else request_remote_getdents E tid fd count)))"

text \<open>The thread started by \<open>handle_getdents\<close>, after \<open>loop_load_file_location\<close>.\<close>

definition wait_for_getdents :: "env \<Rightarrow> path \<Rightarrow> int \<Rightarrow> int \<Rightarrow> off64 \<Rightarrow> unit srv" where
  "wait_for_getdents E p tid fd count =
     bindM (get_file_location p) (\<lambda>(node, _).
       if node_str E node = be_node_name E then handle_getdents E tid fd count
       else request_remote_getdents E tid fd count)"

definition getdents_handler :: "env \<Rightarrow> string \<Rightarrow> unit srv" where
  "getdents_handler E str =
     bindM (scan str [Conv_d, Conv_d, Conv_ld]) (\<lambda>a. handle_getdents E (int_arg a 0) (int_arg a 1) (int_arg a 2))"

definition mkdir_handler :: "env \<Rightarrow> string \<Rightarrow> unit srv" where
  "mkdir_handler E str =
     bindM (scan str [Conv_d, Conv_s]) (\<lambda>a.
       bindM (addDirectory E (int_arg a 0) (str_arg a 1)) (replyToClient (int_arg a 0)))"

definition rmdir_handler :: "env \<Rightarrow> string \<Rightarrow> unit srv" where
  "rmdir_handler E str =
     bindM (scan str [Conv_s, Conv_d]) (\<lambda>a.
       let dir_to_remove = str_arg a 0; tid = int_arg a 1
       in if cl_isExcluded E dir_to_remove then replyToClient tid CAPIO_POSIX_SYSCALL_REQUEST_SKIP
          else thenM (remove_path dir_to_remove)
                 (bindM (delete_from_files_location E dir_to_remove) (replyToClient tid)))"

section \<open>Names\<close>

definition access_handler :: "env \<Rightarrow> string \<Rightarrow> unit srv" where
  "access_handler E str =
     bindM (scan str [Conv_ld, Conv_s]) (\<lambda>a.
       let tid = to_int32 (int_arg a 0); p = str_arg a 1
       in if cl_isExcluded E p then replyToClient tid CAPIO_POSIX_SYSCALL_REQUEST_SKIP
          else bindM (get_file_location_opt p) (\<lambda>l. replyToClient tid (if l \<noteq> None then 0 else - 1)))"

definition handle_rename :: "env \<Rightarrow> int \<Rightarrow> path \<Rightarrow> path \<Rightarrow> unit srv" where
  "handle_rename E tid oldpath newpath =
     bindM (tryGet oldpath) (\<lambda>r.
       if r \<noteq> None then
         thenM (rename_path oldpath newpath)
        (bindM (delete_from_files_location E oldpath) (\<lambda>_.
         bindM (get_file_location_opt newpath) (\<lambda>l.
         thenM (whenM (l = None) (write_file_location E newpath))
        (thenM (rename_file_location oldpath newpath) (replyToClient tid 0)))))
       else replyToClient tid 1)"

definition rename_handler :: "env \<Rightarrow> string \<Rightarrow> unit srv" where
  "rename_handler E str =
     bindM (scan str [Conv_s, Conv_s, Conv_d]) (\<lambda>a. handle_rename E (int_arg a 2) (str_arg a 0) (str_arg a 1))"

definition unlink_handler :: "env \<Rightarrow> string \<Rightarrow> unit srv" where
  "unlink_handler E str =
     bindM (scan str [Conv_d, Conv_s]) (\<lambda>a.
       let tid = int_arg a 0; p = str_arg a 1
       in if cl_isExcluded E p then replyToClient tid CAPIO_POSIX_SYSCALL_REQUEST_SKIP
          else bindM (tryGet p) (\<lambda>c_file_opt.
            case c_file_opt of
              None \<Rightarrow> replyToClient tid (- 1)
            | Some i \<Rightarrow>
                bindM (file_at i) (\<lambda>f.
                  thenM (whenM (deletable f)
                           (thenM (remove_path p)
                             (bindM (delete_from_files_location E p) (\<lambda>_. returnM ()))))
                    (replyToClient tid 0))))"

section \<open>Copies\<close>

definition handle_local_copy_file_range :: "env \<Rightarrow> copy_range \<Rightarrow> bool \<Rightarrow> unit srv" where
  "handle_local_copy_file_range E c is_prod =
     bindM (get_file (cp_path_in c)) (\<lambda>i.
     bindM (file_at i) (\<lambda>f.
       let file_complete = (isCommitted f \<or> is_prod);
           end_of_sector = getSectorEnd (cp_offset_in c) f;
           wait_for_commit = (\<not> file_complete \<and> \<not> cl_isFirable E (cp_path_in c));
           wait_for_data = (\<not> file_complete \<and>
             (end_of_sector = CAPIO_SECTOR_NOT_FOUND \<or> end_of_sector < cp_offset_in c + cp_count c))
       in if \<not> wait_for_commit \<and> \<not> wait_for_data then copy_file_range_data E c
          else if wait_for_commit then spawn (Wait_copy_commit i c)
          else spawn (Wait_copy_data i c)))"

definition handle_copy_file_range :: "env \<Rightarrow> copy_range \<Rightarrow> bool \<Rightarrow> unit srv" where
  "handle_copy_file_range E c is_prod =
     (if is_prod then handle_local_copy_file_range E c is_prod
      else bindM (get_file_location (cp_path_in c)) (\<lambda>(node, _).
        if node_str E node = be_node_name E then handle_local_copy_file_range E c is_prod
        else handle_remote_copy_file_range E c))"

definition copy_file_range_handler :: "env \<Rightarrow> string \<Rightarrow> unit srv" where
  "copy_file_range_handler E str =
     bindM (scan str [Conv_d, Conv_d, Conv_d, Conv_ld, Conv_ld, Conv_ld]) (\<lambda>a.
     let tid = int_arg a 0; fd_in = int_arg a 1; fd_out = int_arg a 2
     in bindM (getPath tid fd_in) (\<lambda>path_in.
        bindM (getPath tid fd_out) (\<lambda>path_out.
        bindM (getAppName tid) (\<lambda>app_name.
        bindM (if cl_isProducer E path_in app_name then returnM True else isProducer tid path_in) (\<lambda>is_prod.
        bindM (get_file_location_opt path_in) (\<lambda>l.
          let c = \<lparr>cp_tid = tid, cp_fd_in = fd_in, cp_fd_out = fd_out, cp_offset_in = int_arg a 3,
                   cp_offset_out = int_arg a 4, cp_count = int_arg a 5, cp_path_in = path_in,
                   cp_path_out = path_out\<rparr>
          in if \<not> is_prod \<and> l = None then spawn (Wait_copy_creation c)
             else handle_copy_file_range E c is_prod))))))"

section \<open>Clients\<close>

definition clone_handler :: "string \<Rightarrow> unit srv" where
  "clone_handler str =
     bindM (scan str [Conv_d, Conv_d]) (\<lambda>a.
       thenM (clone_fds (int_arg a 0) (int_arg a 1)) (unlockClonedChild (int_arg a 1)))"

definition dup_handler :: "string \<Rightarrow> unit srv" where
  "dup_handler str =
     bindM (scan str [Conv_d, Conv_d, Conv_d]) (\<lambda>a.
       whenM (int_arg a 1 \<noteq> int_arg a 2) (dup_fd (int_arg a 0) (int_arg a 1) (int_arg a 2)))"

text \<open>The body of the loop over the produced files.\<close>

definition exit_file :: "env \<Rightarrow> path \<Rightarrow> unit srv" where
  "exit_file E p =
     whenM (cl_getCommitRule E p = ON_TERMINATION)
       (bindM (get_file p) (\<lambda>i.
        bindM (file_at i) (\<lambda>f.
          thenM
            (if isDirectory f then
               whenM (uint (getDirectoryExpectedFileCount f) \<le> uint (getCurrentDirectoryFileCount f))
                 (update_file i (setCommitted True))
             else thenM (update_file i (setCommitted True)) (try_update_file i (dump (env_sys E))))
            (update_file i file_close))))"

definition handle_exit_group :: "env \<Rightarrow> int \<Rightarrow> unit srv" where
  "handle_exit_group E tid =
     bindM (getProducedFiles tid) (\<lambda>files.
       thenM (forM (exit_file E) files)
         (bindM (getFileDescriptors tid) (\<lambda>fds.
            thenM (forM (handle_close E tid) fds) (removeClient tid))))"

definition exit_group_handler :: "env \<Rightarrow> string \<Rightarrow> unit srv" where
  "exit_group_handler E str = bindM (scan str [Conv_d]) (\<lambda>a. handle_exit_group E (int_arg a 0))"

definition handshake_anonymous_handler :: "env \<Rightarrow> string \<Rightarrow> unit srv" where
  "handshake_anonymous_handler E str =
     bindM (scan str [Conv_d, Conv_d]) (\<lambda>a. registerClient E (int_arg a 0) CAPIO_DEFAULT_APP_NAME False)"

definition handshake_named_handler :: "env \<Rightarrow> string \<Rightarrow> unit srv" where
  "handshake_named_handler E str =
     bindM (scan str [Conv_d, Conv_d, Conv_s, Conv_d]) (\<lambda>a.
       registerClient E (int_arg a 0) (str_arg a 2) (int_arg a 3 \<noteq> 0))"

section \<open>The server loop\<close>

text \<open>\<open>build_request_handlers_table\<close>, in the order of the codes.\<close>

definition request_handlers :: "env \<Rightarrow> (string \<Rightarrow> unit srv) list" where
  "request_handlers E =
     [access_handler E, clone_handler, close_handler E, create_handler E, create_exclusive_handler E,
      dup_handler, exit_group_handler E, fstat_handler E, getdents_handler E, getdents_handler E,
      handshake_named_handler E, handshake_anonymous_handler E, mkdir_handler E, open_handler E,
      read_handler E, rename_handler E, lseek_handler, seek_data_handler, seek_end_handler E,
      seek_hole_handler, stat_handler E, unlink_handler E, write_handler E, rmdir_handler E,
      copy_file_range_handler E]"

text \<open>One round of the loop, on the text \<open>req\<close> taken from the request queue.\<close>

definition capio_server :: "env \<Rightarrow> string \<Rightarrow> unit srv" where
  "capio_server E req =
     bindM (liftM (readNextRequest req)) (\<lambda>(code, str).
       if code < 0 \<or> int CAPIO_NR_REQUESTS < code then failM ErrExit
       else if length (request_handlers E) \<le> nat code then failM OutOfBounds
       else (request_handlers E ! nat code) str)"

text \<open>What comes before the loop.\<close>

definition capio_server_start :: "env \<Rightarrow> int \<Rightarrow> unit srv" where
  "capio_server_start E pid = bindM (addDirectory E pid (rc_capio_dir E)) (\<lambda>_. returnM ())"

section \<open>Waiting threads\<close>

text \<open>
  When the wait of a thread is over, and what it does then. A thread that waits on a file that
  was destroyed uses a dangling reference.
\<close>

definition file_cond :: "(capio_file \<Rightarrow> bool) \<Rightarrow> nat \<Rightarrow> server \<Rightarrow> bool" where
  "file_cond P i s = (case s_files s i of None \<Rightarrow> True | Some f \<Rightarrow> P f)"

definition waiter_ready :: "env \<Rightarrow> waiter \<Rightarrow> server \<Rightarrow> bool" where
  "waiter_ready E w s =
     (case w of
        Wait_cloned_child tid \<Rightarrow> cloned_child_ready tid s
      | Wait_file_creation p tid fd \<Rightarrow> location_known E p s
      | Wait_read_commit i tid fd count offset \<Rightarrow> file_cond waitForCommit_done i s
      | Wait_read_data i tid fd count offset \<Rightarrow> file_cond (waitForData_done (offset + count)) i s
      | Wait_file p tid fd count \<Rightarrow> location_known E p s
      | Wait_file_completion tid p \<Rightarrow> location_known E p s
      | Start_dirent_data i wait_size tid fd count \<Rightarrow> True
      | Wait_dirent_data i wait_size tid fd count current_size \<Rightarrow> file_cond (waitForData_done wait_size) i s
      | Wait_getdents p tid fd count \<Rightarrow> location_known E p s
      | Wait_copy_commit i c \<Rightarrow> file_cond waitForCommit_done i s
      | Wait_copy_data i c \<Rightarrow> file_cond (waitForData_done (cp_offset_in c + cp_count c)) i s
      | Wait_copy_creation c \<Rightarrow> location_known E (cp_path_in c) s
      | Start_remote_data p dest tid fd count offset is_getdents \<Rightarrow> True
      | Wait_remote_data i p dest tid fd count offset is_getdents \<Rightarrow>
          file_cond (waitForData_done (offset + count)) i s
      | Start_remote_completion p tid dest \<Rightarrow> True
      | Wait_remote_completion i p tid dest \<Rightarrow> file_cond waitForCommit_done i s
      | Wait_remote_copy i p dest tid fd_in fd_out offset_in offset_out count \<Rightarrow>
          file_cond (waitForData_done (offset_in + count)) i s)"

definition after_wait :: "nat \<Rightarrow> unit srv \<Rightarrow> unit srv" where
  "after_wait i m = bindM (file_at i) (\<lambda>_. m)"

definition after_load :: "env \<Rightarrow> path \<Rightarrow> unit srv \<Rightarrow> unit srv" where
  "after_load E p m = bindM (load_file_location E p) (\<lambda>_. m)"

definition run_waiter :: "env \<Rightarrow> waiter \<Rightarrow> unit srv" where
  "run_waiter E w =
     (case w of
        Wait_cloned_child tid \<Rightarrow> run_cloned_child tid
      | Wait_file_creation p tid fd \<Rightarrow> after_load E p (wait_for_file_creation E p tid fd)
      | Wait_read_commit i tid fd count offset \<Rightarrow> after_wait i (handle_pending_read E tid fd offset count)
      | Wait_read_data i tid fd count offset \<Rightarrow> after_wait i (handle_pending_read E tid fd offset count)
      | Wait_file p tid fd count \<Rightarrow> after_load E p (wait_for_file E p tid fd count)
      | Wait_file_completion tid p \<Rightarrow> after_load E p (wait_for_file_completion E tid p)
      | Start_dirent_data i wait_size tid fd count \<Rightarrow> wait_for_dirent_data i wait_size tid fd count
      | Wait_dirent_data i wait_size tid fd count current_size \<Rightarrow>
          after_wait i (send_dirent_to_client E tid fd i current_size count)
      | Wait_getdents p tid fd count \<Rightarrow> after_load E p (wait_for_getdents E p tid fd count)
      | Wait_copy_commit i c \<Rightarrow> after_wait i (copy_file_range_data E c)
      | Wait_copy_data i c \<Rightarrow> after_wait i (copy_file_range_data E c)
      | Wait_copy_creation c \<Rightarrow> after_load E (cp_path_in c) (handle_copy_file_range E c False)
      | Start_remote_data p dest tid fd count offset is_getdents \<Rightarrow>
          wait_for_data p dest tid fd count offset is_getdents
      | Wait_remote_data i p dest tid fd count offset is_getdents \<Rightarrow>
          wait_for_data_then E i p dest tid fd count offset is_getdents
      | Start_remote_completion p tid dest \<Rightarrow> wait_for_completion p tid dest
      | Wait_remote_completion i p tid dest \<Rightarrow> after_wait i (serve_remote_stat p dest tid)
      | Wait_remote_copy i p dest tid fd_in fd_out offset_in offset_out count \<Rightarrow>
          after_wait i (serve_remote_copy E p dest tid fd_in fd_out offset_in offset_out count))"

section \<open>Dispatch\<close>

lemma length_request_handlers: "length (request_handlers E) = CAPIO_NR_REQUESTS"
  by (simp add: request_handlers_def CAPIO_NR_REQUESTS_def)

lemma capio_server_request:
  assumes "code < CAPIO_NR_REQUESTS" and "vs \<noteq> []"
  shows "capio_server E (request_text code vs) = (request_handlers E ! code) (tl (show_args vs))"
proof -
  have "code < 100" using assms(1) by (simp add: CAPIO_NR_REQUESTS_def)
  then show ?thesis
    using assms by (simp add: capio_server_def readNextRequest_request_text liftM_def fun_eq_iff bindM_def
        length_request_handlers)
qed

end
