(* ===== verification/Server_Invariant.thy ===== *)
theory Server_Invariant
  imports Server_Handlers
begin

text \<open>
  The invariant of the server's tables and the steps of a server.

  \<open>table_invariant\<close> is the contract between the storage manager and the handlers: a property of
  the tables that every operation of the storage manager keeps. Inside the locale every handler,
  every remote handler and every waiting thread is shown to keep it. It is interpreted for
  \<open>tables_wf\<close>, which says that paths, files, descriptors and offsets fit together.
\<close>

section \<open>Tables\<close>

definition same_tables :: "server \<Rightarrow> server \<Rightarrow> bool" where
  "same_tables s t \<longleftrightarrow>
     s_storage t = s_storage s \<and> s_files t = s_files s \<and> s_next_file t = s_next_file s \<and>
     s_fds t = s_fds s \<and> s_offsets t = s_offsets s \<and> s_next_offset t = s_next_offset s"

lemma same_tables_refl [simp]: "same_tables s s"
  by (simp add: same_tables_def)

definition off_tables :: "'a srv \<Rightarrow> bool" where
  "off_tables m \<longleftrightarrow> (\<forall>s. keepsM (same_tables s) m)"

lemma off_tables_step: "off_tables m \<Longrightarrow> m s = Inr (x, t) \<Longrightarrow> same_tables s t"
  unfolding off_tables_def using keepsMD same_tables_refl by metis

lemma off_tables_client:
  "off_tables (getAppName tid)" "off_tables (replyToClient tid v)"
  "off_tables (replyToClient_data tid offset buf n)" "off_tables (registerProducedFile tid p)"
  "off_tables (isProducer tid p)" "off_tables (getProducedFiles tid)" "off_tables (removeClient tid)"
  "off_tables (unlockClonedChild tid)" "off_tables (getClientToServerDataBuffers tid)"
  "off_tables (set_ClientToServer tid q)" "off_tables (run_cloned_child tid)" "off_tables (spawn w)"
  "off_tables (send dest msg payload)" "off_tables (registerClient E tid app wait)"
  unfolding off_tables_def getAppName_def replyToClient_def replyToClient_data_def registerProducedFile_def
    isProducer_def getProducedFiles_def removeClient_def unlockClonedChild_def
    getClientToServerDataBuffers_def set_ClientToServer_def run_cloned_child_def spawn_def send_def
    registerClient_def
  by (intro allI keeps_intros keeps_modify; simp add: same_tables_def)+

lemma off_tables_locations:
  "off_tables (get_file_location_opt p)" "off_tables (get_file_location p)"
  "off_tables (add_file_location p n off)" "off_tables (rename_file_location p q)"
  "off_tables (load_file_location E p)" "off_tables (write_file_location E p)"
  "off_tables (delete_from_files_location E p)"
  unfolding off_tables_def get_file_location_opt_def get_file_location_def add_file_location_def
    rename_file_location_def load_file_location_def write_file_location_def
    delete_from_files_location_def erase_from_files_location_def
  by (intro allI keeps_intros keeps_modify; simp add: same_tables_def split: option.split)+

text \<open>An update of a file that keeps the list of its descriptors.\<close>

definition fds_kept :: "(capio_file \<Rightarrow> fault + capio_file) \<Rightarrow> bool" where
  "fds_kept g \<longleftrightarrow> (\<forall>f f'. g f = Inr f' \<longrightarrow> f_threads_fd f' = f_threads_fd f)"

lemma fds_kept_ops:
  "fds_kept (createBuffer S quota p home)" "fds_kept (expandBuffer S quota n)" "fds_kept (dump S)"
  "fds_kept (store_at off xs)" "fds_kept (readFromNode xs off)" "fds_kept (copyFromFile src i j n)"
  by (auto simp: fds_kept_def createBuffer_def expandBuffer_def dump_def store_at_def readFromNode_def
      copyFromFile_def Let_def split: if_splits sum.splits prod.splits storage_interface.splits option.splits)

lemma fds_kept_pure:
  "fds_kept (\<lambda>f. Inr (setCommitted c f))" "fds_kept (\<lambda>f. Inr (file_close f))"
  "fds_kept (\<lambda>f. Inr (setRealFileSize n f))" "fds_kept (\<lambda>f. Inr (registerFirstWrite f))"
  "fds_kept (\<lambda>f. Inr (incrementDirectoryFileCount k f))" "fds_kept (\<lambda>f. Inr (insertSector a b f))"
  by (simp_all add: fds_kept_def setCommitted_def file_close_def setRealFileSize_def registerFirstWrite_def
      incrementDirectoryFileCount_def insertSector_def Let_def)

lemma update_as_try: "update_file i g = try_update_file i (\<lambda>f. Inr (g f))"
  by (simp add: update_file_def try_update_file_def monad_simps fun_eq_iff split: sum.split prod.split)

lemma sscanf_word:
  "sscanf str cs = a \<Longrightarrow> i < length a \<Longrightarrow> i < length cs \<Longrightarrow> cs ! i = Conv_s \<Longrightarrow> \<exists>w. a ! i = StrA w \<and> w \<noteq> []"
proof (induction str cs arbitrary: a i rule: sscanf.induct)
  case (2 s c cs)
  then obtain v rest where v: "scan_one c s = Some (v, rest)" "a = v # sscanf rest cs"
    by (cases "scan_one c s") auto
  show ?case
  proof (cases i)
    case 0
    then show ?thesis using v 2(5)
      by (auto simp: scan_one_def next_word_def Let_def split: option.splits if_splits)
  next
    case (Suc j)
    then show ?thesis using v 2 by auto
  qed
qed simp

lemma sscanf_length: "length (sscanf str cs) \<le> length cs"
  by (induction str cs rule: sscanf.induct) (auto split: option.split)

lemma scan_word:
  assumes "scan str cs s = Inr (a, t)" and "i < length cs" and "cs ! i = Conv_s"
  shows "str_arg a i \<noteq> [] \<and> t = s"
proof -
  have "a = sscanf str cs" "length cs \<le> length a" "t = s"
    using assms(1) by (auto simp: scan_def monad_simps Let_def split: if_splits)
  then show ?thesis using sscanf_word [of str cs a i] assms(2,3) by (auto simp: str_arg_def)
qed

lemma keeps_scan:
  assumes "\<And>a. (\<forall>i < length cs. cs ! i = Conv_s \<longrightarrow> str_arg a i \<noteq> []) \<Longrightarrow> keepsM I (k a)"
  shows "keepsM I (bindM (scan str cs) k)"
proof (rule keepsMI)
  fix s x t assume I: "I s" and k: "bindM (scan str cs) k s = Inr (x, t)"
  then obtain a u where a: "scan str cs s = Inr (a, u)" "k a u = Inr (x, t)" by (auto simp: bindM_Inr_iff)
  have "u = s" using a(1) by (auto simp: scan_def monad_simps Let_def split: if_splits)
  moreover have "keepsM I (k a)" using assms scan_word [OF a(1)] by blast
  ultimately show "I t" using a(2) I keepsMD by metis
qed

section \<open>Steps of a server\<close>

text \<open>
  A step of a server process: its startup, a request of a client, one of another server, the end of the wait
  of a thread, or a step of the processes around it, which take replies, put data into the
  queues and publish locations of other nodes.
\<close>

datatype event = Startup int | Request string | Message remote_message "cell list" | Thread waiter | Others

definition around :: "server \<Rightarrow> server \<Rightarrow> bool" where
  "around s t \<longleftrightarrow>
     t = s\<lparr>s_responses := s_responses t, s_data_buffers := s_data_buffers t, s_texts := s_texts t\<rparr>"

inductive server_step :: "env \<Rightarrow> server \<Rightarrow> event \<Rightarrow> server \<Rightarrow> bool" for E where
  startup: "capio_server_start E pid s = Inr ((), t) \<Longrightarrow> server_step E s (Startup pid) t"
| request: "capio_server E req s = Inr ((), t) \<Longrightarrow> server_step E s (Request req) t"
| remote_message: "capio_remote_listener E r received s = Inr ((), t) \<Longrightarrow> server_step E s (Message r received) t"
| waiting_thread: "w \<in> set (s_waiting s) \<Longrightarrow> waiter_ready E w s \<Longrightarrow>
    run_waiter E w (s\<lparr>s_waiting := remove1 w (s_waiting s)\<rparr>) = Inr ((), t) \<Longrightarrow> server_step E s (Thread w) t"
| other_process: "around s t \<Longrightarrow> server_step E s Others t"

inductive_cases server_stepE: "server_step E s ev t"

text \<open>A request to rename a file to the path of another file of this server.\<close>

definition overwriting :: "string \<Rightarrow> server \<Rightarrow> bool" where
  "overwriting req s =
     (case readNextRequest req of
        Inl _ \<Rightarrow> False
      | Inr (code, str) \<Rightarrow>
          code = int CAPIO_REQUEST_RENAME \<and>
          (let a = sscanf str [Conv_s, Conv_s, Conv_d]
           in length a = 3 \<and> storage_find (str_arg a 0) s \<noteq> None \<and> storage_find (str_arg a 1) s \<noteq> None \<and>
              str_arg a 1 \<noteq> str_arg a 0))"

fun regular :: "event \<Rightarrow> server \<Rightarrow> bool" where
  "regular (Request req) s = (\<not> overwriting req s)"
| "regular _ s = True"

text \<open>The states a server reaches from its start.\<close>

inductive reachable :: "env \<Rightarrow> server \<Rightarrow> bool" for E where
  init: "reachable E (server_init\<lparr>s_texts := texts\<rparr>)"
| step: "reachable E s \<Longrightarrow> server_step E s ev t \<Longrightarrow> regular ev s \<Longrightarrow> reachable E t"

section \<open>The contract of the storage manager\<close>

locale table_invariant =
  fixes I :: "server \<Rightarrow> bool" and E :: env
  assumes tables_only: "same_tables s t \<Longrightarrow> I s \<Longrightarrow> I t"
    and entry: "keepsM I (fd_entry tid fd)"
    and set_offset: "keepsM I (setFileOffset tid fd off)"
    and open_file: "keepsM I (addFileToTid tid fd p off)"
    and close_file: "keepsM I (removeFromTid1 tid fd)"
    and dup: "keepsM I (dup_fd tid fd fd')"
    and clone: "keepsM I (clone_fds tid tid')"
    and add: "keepsM I (add_file E p is_dir n)"
    and remove: "p \<noteq> [] \<Longrightarrow> keepsM I (remove_path p)"
    and try_update: "fds_kept g \<Longrightarrow> keepsM I (try_update_file i g)"
    and rename: "I s \<Longrightarrow> storage_find new s = None \<or> new = old \<Longrightarrow> rename_path old new s = Inr ((), t) \<Longrightarrow> I t"
begin

lemma off_keeps:
  assumes "off_tables m"
  shows "keepsM I m"
proof (rule keepsMI)
  fix s x t assume "I s" and "m s = Inr (x, t)"
  then show "I t" by (rule tables_only [OF off_tables_step [OF assms], rotated])
qed

lemmas client_keeps = off_tables_client [THEN off_keeps] off_tables_locations [THEN off_keeps]

lemma update_keeps: "fds_kept (\<lambda>f. Inr (g f)) \<Longrightarrow> keepsM I (update_file i g)"
  unfolding update_as_try by (rule try_update)

lemmas file_keeps = fds_kept_ops [THEN try_update] fds_kept_pure [THEN update_keeps]

lemma file_at_keeps: "keepsM I (file_at i)"
  by (rule keepsMI) (auto simp: file_at_def split: option.splits)

lemma reads_keep:
  "keepsM I (tryGet p)" "keepsM I (get_file p)" "keepsM I (get_fd tid fd)" "keepsM I (getPath tid fd)"
  "keepsM I (getFileOffset tid fd)" "keepsM I (getFileDescriptors tid)"
  unfolding tryGet_def get_file_def get_fd_def getPath_def getFileOffset_def getFileDescriptors_def
  by (intro keeps_intros entry)+

lemmas basic_keeps = keeps_intros client_keeps file_keeps file_at_keeps reads_keep entry set_offset
  open_file close_file dup clone add

lemma removeFromTid_keeps: "keepsM I (removeFromTid tid fd)"
  unfolding removeFromTid_def by (intro basic_keeps)

lemma addDirectoryEntry_keeps: "keepsM I (addDirectoryEntry E tid p dir ty)"
  unfolding addDirectoryEntry_def by (intro basic_keeps)

lemma updateDirectory_keeps: "keepsM I (updateDirectory E tid p)"
  unfolding updateDirectory_def by (intro basic_keeps addDirectoryEntry_keeps)

lemma addDirectory_keeps: "keepsM I (addDirectory E tid p)"
  unfolding addDirectory_def by (intro basic_keeps addDirectoryEntry_keeps updateDirectory_keeps)

lemma send_dirent_keeps: "keepsM I (send_dirent_to_client E tid fd i off n)"
  unfolding send_dirent_to_client_def by (intro basic_keeps)

lemma register_written_keeps: "keepsM I (register_written_data E tid p i a b)"
  unfolding register_written_data_def by (intro basic_keeps updateDirectory_keeps)

lemma copy_data_keeps: "keepsM I (copy_file_range_data E c)"
  unfolding copy_file_range_data_def by (intro basic_keeps register_written_keeps)

lemma messages_keep:
  "keepsM I (serve_remote_stat_request p tid n d dest)"
  "keepsM I (serve_remote_read_request tid fd c n sz b1 b2 dest xs)"
  "keepsM I (handle_remote_stat_request E tid p)"
  "keepsM I (handle_remote_read_request E tid fd c g)"
  "keepsM I (handle_remote_copy_file_range_request E tid fi fo p oi oo c)"
  "keepsM I (serve_remote_copy_file_range_request tid fi fo oi oo c n sz b dest xs)"
  unfolding serve_remote_stat_request_def serve_remote_read_request_def handle_remote_stat_request_def
    handle_remote_read_request_def handle_remote_copy_file_range_request_def
    serve_remote_copy_file_range_request_def
  by (intro basic_keeps)+

lemmas common_keeps = basic_keeps removeFromTid_keeps updateDirectory_keeps addDirectory_keeps
  send_dirent_keeps register_written_keeps copy_data_keeps messages_keep

lemma remote_read_keeps:
  "keepsM I (serve_remote_read E p dest tid fd c off b g)"
  "keepsM I (handle_read_reply E tid fd c sz n b g)"
  "keepsM I (wait_for_data p dest tid fd c off g)"
  unfolding serve_remote_read_def handle_read_reply_def wait_for_data_def
  by (intro common_keeps)+

lemma remote_read_keeps':
  "keepsM I (wait_for_data_then E i p dest tid fd c off g)"
  "keepsM I (handle_remote_read E p src tid fd c off g)"
  "keepsM I (handle_remote_read_reply E received tid fd c n sz b g)"
  unfolding wait_for_data_then_def handle_remote_read_def handle_remote_read_reply_def
  by (intro common_keeps remote_read_keeps)+

lemma remote_stat_keeps:
  "keepsM I (serve_remote_stat p dest tid)" "keepsM I (wait_for_completion p tid dest)"
  "keepsM I (handle_remote_stat_reply p tid n d)"
  unfolding serve_remote_stat_def wait_for_completion_def handle_remote_stat_reply_def
  by (intro common_keeps)+

lemma handle_remote_stat_keeps: "keepsM I (handle_remote_stat E tid p dest)"
  unfolding handle_remote_stat_def by (intro common_keeps remote_stat_keeps)

lemma remote_copy_keeps:
  "keepsM I (handle_remote_copy_file_range E c)"
  "keepsM I (serve_remote_copy E p dest tid fi fo oi oo n)"
  "keepsM I (handle_remote_copy_file_range_reply E received tid fi fo oi oo n nb sz b)"
  unfolding handle_remote_copy_file_range_def serve_remote_copy_def handle_remote_copy_file_range_reply_def
  by (intro common_keeps)+

lemma remote_copy_data_keeps: "keepsM I (handle_remote_copy_file_range_data E p dest tid fi fo oi oo n)"
  unfolding handle_remote_copy_file_range_data_def by (intro common_keeps remote_copy_keeps)

lemma remote_handlers_keep:
  "keepsM I (remote_read_handler E r)" "keepsM I (remote_read_reply_handler E r received)"
  "keepsM I (remote_stat_handler E r)" "keepsM I (remote_stat_reply_handler r)"
  "keepsM I (remote_copy_file_range_handler E r)"
  "keepsM I (remote_copy_file_range_reply_handler E r received)"
  unfolding remote_read_handler_def remote_read_reply_handler_def remote_stat_handler_def
    remote_stat_reply_handler_def remote_copy_file_range_handler_def remote_copy_file_range_reply_handler_def
  by (intro keeps_scan remote_read_keeps' handle_remote_stat_keeps remote_stat_keeps remote_copy_keeps
      remote_copy_data_keeps)+

lemma listener_keeps: "keepsM I (capio_remote_listener E r received)"
  unfolding capio_remote_listener_def server_request_handlers_def
  by (auto intro: keeps_intros remote_handlers_keep simp: Let_def split: option.split if_splits)

lemma open_keeps:
  "keepsM I (update_file_metadata E p tid fd c off)" "keepsM I (file_location_exists E p)"
  unfolding update_file_metadata_def file_location_exists_def by (intro common_keeps)+

lemma open_keeps':
  "keepsM I (wait_for_file_creation E p tid fd)" "keepsM I (handle_create E tid fd p)"
  "keepsM I (handle_create_exclusive E tid fd p)" "keepsM I (handle_open E tid fd p)"
  unfolding wait_for_file_creation_def handle_create_def handle_create_exclusive_def handle_open_def
  by (intro common_keeps open_keeps)+

lemma close_keeps: "keepsM I (handle_close E tid fd)"
  unfolding handle_close_def by (intro common_keeps)

lemma read_keeps:
  "keepsM I (reply_bytes tid fd i off n)"
  unfolding reply_bytes_def by (intro common_keeps)

lemma local_read_keeps:
  "keepsM I (handle_pending_read E tid fd off n)" "keepsM I (handle_local_read E tid fd n b)"
  unfolding handle_pending_read_def handle_local_read_def by (intro common_keeps read_keeps)+

lemma request_read_keeps: "keepsM I (request_remote_read E tid fd n)"
  unfolding request_remote_read_def by (intro common_keeps read_keeps local_read_keeps)

lemma handle_read_keeps: "keepsM I (wait_for_file E p tid fd n)" "keepsM I (handle_read E tid fd n)"
  unfolding wait_for_file_def handle_read_def
  by (intro common_keeps local_read_keeps request_read_keeps)+

lemma read_from_queue_keeps: "keepsM I (read_from_queue tid i off n)"
proof (rule keepsMI)
  fix s x t assume I: "I s" and r: "read_from_queue tid i off n s = Inr (x, t)"
  then obtain q f q' f' where f: "s_files s i = Some f" "readFromQueue q off n f = Inr (q', f')"
    and t: "same_tables (s\<lparr>s_files := (s_files s)(i \<mapsto> f')\<rparr>) t"
    by (auto simp: read_from_queue_def getClientToServerDataBuffers_def file_at_def set_ClientToServer_def
        set_file_def monad_simps same_tables_def split: option.splits sum.splits)
  let ?g = "\<lambda>f. case readFromQueue q off n f of Inl e \<Rightarrow> Inl e | Inr (_, f') \<Rightarrow> Inr f'"
  have "fds_kept ?g"
    by (auto simp: fds_kept_def readFromQueue_def store_at_def split: option.splits sum.splits if_splits)
  moreover have "try_update_file i ?g s = Inr ((), s\<lparr>s_files := (s_files s)(i \<mapsto> f')\<rparr>)"
    using f by (simp add: try_update_file_def file_at_def set_file_def monad_simps)
  ultimately show "I t" using try_update keepsMD I t tables_only by metis
qed

lemma stat_keeps: "keepsM I (reply_file_stat tid i)" 
  unfolding reply_file_stat_def by (intro common_keeps)

lemma reply_stat_keeps: "keepsM I (wait_for_file_completion E tid p)" "keepsM I (reply_stat E tid p)"
  unfolding wait_for_file_completion_def reply_stat_def by (intro common_keeps stat_keeps)+

lemma seek_keeps:
  "keepsM I (handle_lseek tid fd off)" "keepsM I (handle_seek_data tid fd off)"
  "keepsM I (handle_seek_end E tid fd)" "keepsM I (handle_seek_hole tid fd off)"
  unfolding handle_lseek_def handle_seek_data_def handle_seek_end_def handle_seek_hole_def
  by (intro common_keeps reply_stat_keeps)+

lemma request_getdents_keeps: "keepsM I (request_remote_getdents E tid fd n)"
  unfolding request_remote_getdents_def by (intro common_keeps read_keeps)

lemma handle_getdents_keeps: "keepsM I (handle_getdents E tid fd n)"
  unfolding handle_getdents_def by (intro common_keeps request_getdents_keeps)

lemma wait_getdents_keeps: "keepsM I (wait_for_getdents E p tid fd n)"
  unfolding wait_for_getdents_def by (intro common_keeps handle_getdents_keeps request_getdents_keeps)

lemma local_copy_keeps: "keepsM I (handle_local_copy_file_range E c b)"
  unfolding handle_local_copy_file_range_def by (intro common_keeps)

lemma copy_keeps: "keepsM I (handle_copy_file_range E c b)"
  unfolding handle_copy_file_range_def by (intro common_keeps local_copy_keeps remote_copy_keeps)

lemma exit_file_keeps: "keepsM I (exit_file E p)"
  unfolding exit_file_def by (intro common_keeps)

lemma exit_keeps: "keepsM I (handle_exit_group E tid)"
  unfolding handle_exit_group_def by (intro common_keeps exit_file_keeps close_keeps)

lemmas handler_keeps = common_keeps open_keeps' close_keeps handle_read_keeps read_from_queue_keeps
  reply_stat_keeps seek_keeps handle_getdents_keeps copy_keeps exit_keeps

lemma file_handlers_keep:
  "keepsM I (create_handler E str)" "keepsM I (create_exclusive_handler E str)" "keepsM I (open_handler E str)"
  "keepsM I (close_handler E str)" "keepsM I (read_handler E str)" "keepsM I (write_handler E str)"
  unfolding create_handler_def create_exclusive_handler_def open_handler_def close_handler_def
    read_handler_def write_handler_def
  by (intro keeps_scan handler_keeps)+

lemma query_handlers_keep:
  "keepsM I (fstat_handler E str)" "keepsM I (stat_handler E str)" "keepsM I (lseek_handler str)"
  "keepsM I (seek_data_handler str)" "keepsM I (seek_end_handler E str)" "keepsM I (seek_hole_handler str)"
  "keepsM I (getdents_handler E str)" "keepsM I (access_handler E str)"
  unfolding fstat_handler_def stat_handler_def lseek_handler_def seek_data_handler_def seek_end_handler_def
    seek_hole_handler_def getdents_handler_def access_handler_def
  by (intro keeps_scan handler_keeps)+

lemma name_handlers_keep:
  "keepsM I (mkdir_handler E str)" "keepsM I (rmdir_handler E str)" "keepsM I (unlink_handler E str)"
  unfolding mkdir_handler_def rmdir_handler_def unlink_handler_def Let_def
  by (intro keeps_scan handler_keeps remove; simp add: All_less_Suc)+

lemma client_handlers_keep:
  "keepsM I (clone_handler str)" "keepsM I (dup_handler str)" "keepsM I (exit_group_handler E str)"
  "keepsM I (handshake_anonymous_handler E str)" "keepsM I (handshake_named_handler E str)"
  "keepsM I (copy_file_range_handler E str)"
  unfolding clone_handler_def dup_handler_def exit_group_handler_def handshake_anonymous_handler_def
    handshake_named_handler_def copy_file_range_handler_def
  by (intro keeps_scan handler_keeps)+

lemmas request_keeps = file_handlers_keep query_handlers_keep name_handlers_keep client_handlers_keep

lemma handle_rename_keeps:
  assumes "I s" and "storage_find old s \<noteq> None \<Longrightarrow> storage_find new s = None \<or> new = old"
    and "handle_rename E tid old new s = Inr (x, t)"
  shows "I t"
proof (cases "storage_find old s")
  case None
  then have "replyToClient tid 1 s = Inr (x, t)"
    using assms(3) by (simp add: handle_rename_def tryGet_def bindM_def getsM_def)
  then show ?thesis using client_keeps(2) keepsMD assms(1) by metis
next
  case (Some i)
  let ?rest = "bindM (delete_from_files_location E old) (\<lambda>_.
         bindM (get_file_location_opt new) (\<lambda>l.
         thenM (whenM (l = None) (write_file_location E new))
        (thenM (rename_file_location old new) (replyToClient tid 0))))"
  have rest: "keepsM I ?rest" by (intro common_keeps)
  have "handle_rename E tid old new s = thenM (rename_path old new) ?rest s"
    using Some unfolding handle_rename_def tryGet_def
    by (simp add: bindM_def [of "getsM (storage_find old)"] getsM_def)
  then have "bindM (rename_path old new) (\<lambda>_. ?rest) s = Inr (x, t)"
    using assms(3) by (simp only: thenM_def [of "rename_path old new"])
  from iffD1 [OF bindM_Inr_iff this]
  obtain v u where u: "rename_path old new s = Inr (v, u)" "?rest u = Inr (x, t)" by (elim exE conjE)
  have "I u"
  proof (rule rename [OF assms(1)])
    show "storage_find new s = None \<or> new = old" using assms(2) Some by simp
    show "rename_path old new s = Inr ((), u)" using u(1) by simp
  qed
  then show ?thesis by (rule keepsMD [OF rest _ u(2)])
qed

lemma request_list_keeps:
  assumes "n < length (request_handlers E)" and "n \<noteq> CAPIO_REQUEST_RENAME"
  shows "keepsM I ((request_handlers E ! n) str)"
  using assms by (auto simp: request_handlers_def CAPIO_REQUEST_RENAME_def less_Suc_eq request_keeps)

lemma server_keeps:
  assumes "I s" and "\<not> overwriting req s" and "capio_server E req s = Inr (x, t)"
  shows "I t"
proof -
  obtain code str where c: "readNextRequest req = Inr (code, str)" "0 \<le> code"
    "nat code < length (request_handlers E)" "(request_handlers E ! nat code) str s = Inr (x, t)"
    using assms(3) by (auto simp: capio_server_def monad_simps split: sum.splits if_splits)
  show ?thesis
  proof (cases "nat code = CAPIO_REQUEST_RENAME")
    case False
    then show ?thesis using request_list_keeps [OF c(3)] keepsMD c(4) assms(1) by metis
  next
    case True
    let ?a = "sscanf str [Conv_s, Conv_s, Conv_d]"
    have "rename_handler E str s = Inr (x, t)"
      using c(4) True by (simp add: request_handlers_def CAPIO_REQUEST_RENAME_def)
    then have r: "length ?a = 3" "handle_rename E (int_arg ?a 2) (str_arg ?a 0) (str_arg ?a 1) s = Inr (x, t)"
      using sscanf_length [of str "[Conv_s, Conv_s, Conv_d]"]
      by (auto simp: rename_handler_def scan_def bindM_def failM_def returnM_def Let_def split: if_splits)
    have "code = int CAPIO_REQUEST_RENAME" using True c(2) by simp
    then have "storage_find (str_arg ?a 0) s \<noteq> None \<Longrightarrow>
        storage_find (str_arg ?a 1) s = None \<or> str_arg ?a 1 = str_arg ?a 0"
      using assms(2) c(1) r(1) by (auto simp: overwriting_def Let_def)
    then show ?thesis using handle_rename_keeps [OF assms(1) _ r(2)] by blast
  qed
qed

lemma waiter_keeps: "keepsM I (run_waiter E w)"
  unfolding run_waiter_def after_wait_def after_load_def wait_for_dirent_data_def
  by (cases w; simp; intro handler_keeps local_read_keeps wait_getdents_keeps remote_read_keeps
      remote_read_keeps' remote_stat_keeps remote_copy_keeps)

lemma step_keeps:
  assumes "server_step E s ev t" and "regular ev s" and "I s"
  shows "I t"
  using assms(1)
proof cases
  case (startup pid)
  have "keepsM I (capio_server_start E pid)" unfolding capio_server_start_def by (intro handler_keeps)
  then show ?thesis using startup assms(3) keepsMD by metis
next
  case (request req)
  then show ?thesis using assms(2,3) server_keeps by auto
next
  case (remote_message r received)
  then show ?thesis using listener_keeps keepsMD assms(3) by metis
next
  case (waiting_thread w)
  have "I (s\<lparr>s_waiting := remove1 w (s_waiting s)\<rparr>)"
    by (rule tables_only [OF _ assms(3)]) (simp add: same_tables_def)
  then show ?thesis using waiter_keeps keepsMD waiting_thread(4) by metis
next
  case other_process
  then have "same_tables s t" unfolding around_def same_tables_def
    by (metis (no_types, lifting) server.ext_inject server.surjective server.update_convs(1,2,14))
  then show ?thesis by (rule tables_only [OF _ assms(3)])
qed

lemma reachable_keeps:
  assumes "\<And>texts. I (server_init\<lparr>s_texts := texts\<rparr>)" and "reachable E s"
  shows "I s"
  using assms(2) by induction (auto intro: assms(1) step_keeps)

end

end
