(* ===== verification/Server_Tables.thy ===== *)
theory Server_Tables
  imports Server_Invariant
begin

text \<open>
  \<open>tables_wf\<close>: paths, files, descriptors and offsets of a server fit together. Every open
  descriptor points to the file that its path names, that file is alive and lists the
  descriptor, and its offset exists. The operations of the storage manager keep it, so every
  reachable state has it, as long as no request renames a file to the path of another one;
  such a request destroys the renamed file.
\<close>

section \<open>The invariant\<close>

definition fd_wf :: "server \<Rightarrow> int \<times> int \<Rightarrow> thread_fd \<Rightarrow> bool" where
  "fd_wf s k e \<longleftrightarrow>
     (t_pointer e = None \<and> t_offset e = None) \<or>
     (\<exists>i f oi. t_pointer e = Some i \<and> t_offset e = Some oi \<and> s_offsets s oi \<noteq> None \<and>
        storage_find (t_path e) s = Some i \<and> s_files s i = Some f \<and> k \<in> set (f_threads_fd f))"

definition storage_wf :: "server \<Rightarrow> bool" where
  "storage_wf s \<longleftrightarrow>
     distinct (map fst (s_storage s)) \<and> distinct (map snd (s_storage s)) \<and>
     dom (s_files s) = snd ` set (s_storage s) \<and> (\<forall>i \<in> dom (s_files s). i < s_next_file s) \<and>
     (\<forall>oi \<in> dom (s_offsets s). oi < s_next_offset s)"

definition tables_wf :: "server \<Rightarrow> bool" where
  "tables_wf s \<longleftrightarrow>
     storage_wf s \<and> distinct (map fst (s_fds s)) \<and> (\<forall>k e. map_of (s_fds s) k = Some e \<longrightarrow> fd_wf s k e)"

lemma tables_wfD:
  assumes "tables_wf s"
  shows "storage_wf s" "distinct (map fst (s_fds s))" "map_of (s_fds s) k = Some e \<Longrightarrow> fd_wf s k e"
  using assms unfolding tables_wf_def by blast+

lemma storage_find_file:
  assumes "storage_wf s" and "storage_find p s = Some i"
  obtains f where "s_files s i = Some f"
proof -
  have "(p, i) \<in> set (s_storage s)" using assms(2) unfolding storage_find_def by (rule map_of_SomeD)
  then have "i \<in> snd ` set (s_storage s)" by (rule image_eqI [rotated]) simp
  then have "i \<in> dom (s_files s)" using assms(1) by (simp add: storage_wf_def)
  then show ?thesis using that by auto
qed

lemma storage_find_inj:
  assumes "storage_wf s" and "storage_find p s = Some i" and "storage_find q s = Some i"
  shows "p = q"
proof -
  have "(p, i) \<in> set (s_storage s)" "(q, i) \<in> set (s_storage s)"
    using assms(2,3) by (auto simp: storage_find_def dest: map_of_SomeD)
  moreover have "inj_on snd (set (s_storage s))" using assms(1) by (simp add: storage_wf_def distinct_map)
  ultimately have "(p, i) = (q, i)" using inj_onD [of snd "set (s_storage s)" "(p, i)" "(q, i)"] by simp
  then show ?thesis by simp
qed

text \<open>Changes that leave a well formed descriptor so.\<close>

definition tables_le :: "server \<Rightarrow> server \<Rightarrow> bool" where
  "tables_le s t \<longleftrightarrow>
     (\<forall>oi. s_offsets s oi \<noteq> None \<longrightarrow> s_offsets t oi \<noteq> None) \<and>
     (\<forall>p i. storage_find p s = Some i \<longrightarrow> storage_find p t = Some i) \<and>
     (\<forall>i f. s_files s i = Some f \<longrightarrow> (\<exists>f'. s_files t i = Some f' \<and> set (f_threads_fd f) \<subseteq> set (f_threads_fd f')))"

lemma fd_wf_mono:
  assumes "tables_le s t" and "fd_wf s k e"
  shows "fd_wf t k e"
proof -
  from assms(2) consider "t_pointer e = None \<and> t_offset e = None"
    | i f oi where "t_pointer e = Some i" "t_offset e = Some oi" "s_offsets s oi \<noteq> None"
      "storage_find (t_path e) s = Some i" "s_files s i = Some f" "k \<in> set (f_threads_fd f)"
    unfolding fd_wf_def by blast
  then show ?thesis
  proof cases
    case (2 i f oi)
    then obtain f' where "s_files t i = Some f'" "k \<in> set (f_threads_fd f')"
      using assms(1) unfolding tables_le_def by blast
    moreover have "s_offsets t oi \<noteq> None" "storage_find (t_path e) t = Some i"
      using 2 assms(1) unfolding tables_le_def by blast+
    ultimately show ?thesis using 2(1,2) unfolding fd_wf_def by blast
  qed (simp add: fd_wf_def)
qed

lemma tables_wf_mono:
  assumes "tables_wf s" and "tables_le s t" and "storage_wf t" and "s_fds t = s_fds s"
  shows "tables_wf t"
  using assms fd_wf_mono unfolding tables_wf_def by metis

lemma tables_wf_set_fd:
  assumes "tables_wf s" and "fd_wf s k e"
  shows "tables_wf (s\<lparr>s_fds := AList.update k e (s_fds s)\<rparr>)"
proof -
  let ?t = "s\<lparr>s_fds := AList.update k e (s_fds s)\<rparr>"
  have "fd_wf ?t k' e'" if "fd_wf s k' e'" for k' e'
    using fd_wf_mono [of s ?t] that by (simp add: tables_le_def storage_find_def)
  then show ?thesis
    using assms by (auto simp: tables_wf_def storage_wf_def update_conv' distinct_update split: if_splits)
qed

section \<open>Operations\<close>

lemma wf_same_tables: "same_tables s t \<Longrightarrow> tables_wf s \<Longrightarrow> tables_wf t"
  by (rule tables_wf_mono [of s])
    (auto simp: same_tables_def tables_le_def storage_find_def storage_wf_def tables_wf_def)

lemma fd_entry_wf:
  assumes "tables_wf s" and "fd_entry tid fd s = Inr (e, t)"
  shows "tables_wf t \<and> map_of (s_fds t) (tid, fd) = Some e \<and> fd_wf t (tid, fd) e \<and> tables_le s t"
proof (cases "fd_find tid fd s")
  case None
  then have t: "t = s\<lparr>s_fds := AList.update (tid, fd) thread_fd_default (s_fds s)\<rparr>" "e = thread_fd_default"
    using assms(2) by (simp_all add: fd_entry_def set_fd_def monad_simps)
  moreover have "fd_wf u k thread_fd_default" for u k by (simp add: fd_wf_def thread_fd_default_def)
  ultimately show ?thesis
    using tables_wf_set_fd [OF assms(1)] by (simp add: tables_le_def storage_find_def update_conv')
next
  case (Some d)
  then have "t = s" "e = d" using assms(2) by (simp_all add: fd_entry_def monad_simps)
  then show ?thesis
    using assms(1) Some by (auto simp: fd_find_def tables_le_def tables_wf_def)
qed

lemma new_file_wf:
  assumes "tables_wf s" and "storage_find p s = None" and "new_file p f s = Inr (i, t)"
  shows "tables_wf t \<and> storage_find p t = Some i \<and> s_files t i = Some f \<and> tables_le s t"
proof -
  have t: "i = s_next_file s"
    "t = s\<lparr>s_files := (s_files s)(i \<mapsto> f), s_next_file := Suc i, s_storage := s_storage s @ [(p, i)]\<rparr>"
    using assms(3) by (auto simp: new_file_def monad_simps)
  have sw: "storage_wf s" by (rule tables_wfD(1) [OF assms(1)])
  have p: "p \<notin> fst ` set (s_storage s)"
    using assms(2) unfolding storage_find_def by (simp add: map_of_eq_None_iff)
  have i: "i \<notin> snd ` set (s_storage s)" "s_files s i = None"
    using sw t(1) by (auto simp: storage_wf_def)
  have "storage_wf t" using sw p i t by (auto simp: storage_wf_def less_Suc_eq dest: bspec)
  moreover have find: "storage_find q t = (if q = p then Some i else storage_find q s)" for q
    using t(2) assms(2) unfolding storage_find_def by (cases "map_of (s_storage s) q") (auto simp: map_add_def)
  moreover have "tables_le s t"
    using t(2) i find assms(2) by (auto simp: tables_le_def)
  ultimately show ?thesis using tables_wf_mono [OF assms(1)] t by simp
qed

lemma storage_index_wf:
  assumes "tables_wf s" and "storage_index p s = Inr (i, t)"
  shows "tables_wf t \<and> storage_find p t = Some i \<and> tables_le s t \<and> (storage_find p s \<noteq> None \<longrightarrow> t = s)"
proof (cases "storage_find p s")
  case None
  then have "new_file p CapioFile_default s = Inr (i, t)"
    using assms(2) by (simp add: storage_index_def tryGet_def bindM_def [of "getsM _"] getsM_def)
  then show ?thesis using new_file_wf [OF assms(1) None] None by blast
next
  case (Some j)
  then have "t = s" "i = j" using assms(2) by (simp_all add: storage_index_def tryGet_def monad_simps)
  then show ?thesis using assms(1) Some by (simp add: tables_le_def)
qed

lemma try_update_wf:
  assumes "tables_wf s" and "\<And>f f'. g f = Inr f' \<Longrightarrow> set (f_threads_fd f) \<subseteq> set (f_threads_fd f')"
    and "try_update_file i g s = Inr (x, t)"
  shows "tables_wf t \<and> tables_le s t \<and> s_storage t = s_storage s \<and>
    (\<exists>f f'. s_files s i = Some f \<and> g f = Inr f' \<and> s_files t i = Some f')"
proof -
  obtain f f' where f: "s_files s i = Some f" "g f = Inr f'" "t = s\<lparr>s_files := (s_files s)(i \<mapsto> f')\<rparr>"
    using assms(3)
    by (auto simp: try_update_file_def file_at_def set_file_def monad_simps split: option.splits sum.splits)
  then have "tables_le s t" using assms(2) by (auto simp: tables_le_def storage_find_def)
  moreover have "storage_wf t" using f tables_wfD(1) [OF assms(1)] by (auto simp: storage_wf_def)
  ultimately show ?thesis using tables_wf_mono [OF assms(1)] f by auto
qed

lemma update_wf:
  assumes "tables_wf s" and "\<And>f. set (f_threads_fd f) \<subseteq> set (f_threads_fd (g f))"
    and "update_file i g s = Inr (x, t)"
  shows "tables_wf t \<and> tables_le s t \<and> s_storage t = s_storage s \<and>
    (\<exists>f. s_files s i = Some f \<and> s_files t i = Some (g f))"
  using try_update_wf [of s "\<lambda>f. Inr (g f)" i x t] assms by (auto simp: update_as_try)

lemma addFd_fds: "set (f_threads_fd (addFd tid fd f)) = insert (tid, fd) (set (f_threads_fd f))"
  by (auto simp: addFd_def)

lemma file_open_fds: "f_threads_fd (file_open f) = f_threads_fd f"
  by (simp add: file_open_def)

text \<open>The descriptor is listed by the file of the path.\<close>

definition listed :: "server \<Rightarrow> nat \<Rightarrow> int \<times> int \<Rightarrow> bool" where
  "listed s i k \<longleftrightarrow> (\<exists>f. s_files s i = Some f \<and> k \<in> set (f_threads_fd f))"

lemma update_addFd_wf:
  assumes "tables_wf s" and "update_file i (addFd tid fd) s = Inr (x, t)"
  shows "tables_wf t \<and> tables_le s t \<and> s_storage t = s_storage s \<and> listed t i (tid, fd)"
proof -
  have "set (f_threads_fd f) \<subseteq> set (f_threads_fd (addFd tid fd f))" for f by (auto simp: addFd_fds)
  from update_wf [OF assms(1) this assms(2)] show ?thesis by (auto simp: addFd_fds listed_def)
qed

lemma update_open_wf:
  assumes "tables_wf s" and "whenM b (update_file i file_open) s = Inr (x, t)"
  shows "tables_wf t \<and> tables_le s t \<and> s_storage t = s_storage s"
proof (cases b)
  case True
  have "set (f_threads_fd f) \<subseteq> set (f_threads_fd (file_open f))" for f by (simp add: file_open_fds)
  from update_wf [OF assms(1) this, of i x t] True assms(2) show ?thesis by (simp add: whenM_def)
qed (use assms in \<open>auto simp: whenM_def returnM_def tables_le_def\<close>)

lemma addNewFdToStorage_wf:
  assumes "tables_wf s" and "addNewFdToStorage tid fd p b s = Inr (x, t)"
  shows "tables_wf t \<and> (\<exists>i. storage_find p t = Some i \<and> listed t i (tid, fd))"
proof -
  obtain i s1 s2 y where i: "storage_index p s = Inr (i, s1)" "whenM b (update_file i file_open) s1 = Inr (y, s2)"
    "update_file i (addFd tid fd) s2 = Inr (x, t)"
    using assms(2) unfolding addNewFdToStorage_def thenM_def bindM_Inr_iff by blast
  have 1: "tables_wf s1" "storage_find p s1 = Some i" using storage_index_wf [OF assms(1) i(1)] by auto
  have 2: "tables_wf s2" "storage_find p s2 = Some i"
    using update_open_wf [OF 1(1) i(2)] 1(2) by (auto simp: storage_find_def)
  show ?thesis using update_addFd_wf [OF 2(1) i(3)] 2(2) by (auto simp: storage_find_def)
qed

lemma addNewFdToMap_wf:
  assumes "tables_wf s" and "storage_find p s = Some i" and "listed s i (tid, fd)"
    and "addNewFdToMap tid fd p off s = Inr (x, t)"
  shows "tables_wf t"
proof -
  let ?oi = "s_next_offset s"
  let ?e = "\<lparr>t_pointer = Some i, t_offset = Some ?oi, t_path = p\<rparr>"
  let ?u = "s\<lparr>s_offsets := (s_offsets s)(?oi \<mapsto> off), s_next_offset := Suc ?oi\<rparr>"
  have t: "t = ?u\<lparr>s_fds := AList.update (tid, fd) ?e (s_fds ?u)\<rparr>"
    using assms(2,4) by (simp add: addNewFdToMap_def storage_index_def tryGet_def set_fd_def monad_simps)
  have le: "tables_le s ?u" by (auto simp: tables_le_def storage_find_def)
  have "storage_wf ?u" using tables_wfD(1) [OF assms(1)] by (auto simp: storage_wf_def less_Suc_eq)
  then have "tables_wf ?u" using tables_wf_mono [OF assms(1) le] by simp
  moreover have "fd_wf ?u (tid, fd) ?e"
    using assms(2,3) by (auto simp: fd_wf_def listed_def storage_find_def)
  ultimately show ?thesis unfolding t by (rule tables_wf_set_fd)
qed

lemma add_descriptor_keeps:
  "keepsM tables_wf (thenM (addNewFdToStorage tid fd p b) (addNewFdToMap tid fd p off))"
proof (rule keepsMI)
  fix s x t assume s: "tables_wf s"
    and "thenM (addNewFdToStorage tid fd p b) (addNewFdToMap tid fd p off) s = Inr (x, t)"
  then obtain y u where u: "addNewFdToStorage tid fd p b s = Inr (y, u)" "addNewFdToMap tid fd p off u = Inr (x, t)"
    unfolding thenM_def bindM_Inr_iff by blast
  then show "tables_wf t" using addNewFdToStorage_wf [OF s u(1)] addNewFdToMap_wf by blast
qed

lemma fd_entry_keeps: "keepsM tables_wf (fd_entry tid fd)"
  by (rule keepsMI) (use fd_entry_wf in blast)

lemma clone_keeps_wf: "keepsM tables_wf (clone_fds a b)"
  unfolding clone_fds_def getFileDescriptors_def getPath_def getFileOffset_def
  by (intro keeps_intros(1-5) keeps_bind keeps_forM fd_entry_keeps add_descriptor_keeps)

lemma setFileOffset_keeps: "keepsM tables_wf (setFileOffset tid fd off)"
proof (rule keepsMI)
  fix s x t assume s: "tables_wf s" and "setFileOffset tid fd off s = Inr (x, t)"
  then obtain e u oi where u: "fd_entry tid fd s = Inr (e, u)" "t_offset e = Some oi"
    "t = u\<lparr>s_offsets := (s_offsets u)(oi \<mapsto> off)\<rparr>"
    by (auto simp: setFileOffset_def monad_simps split: sum.splits option.splits)
  have wf: "tables_wf u" "fd_wf u (tid, fd) e" using fd_entry_wf [OF s u(1)] by auto
  then have "oi < s_next_offset u"
    using u(2) tables_wfD(1) [OF wf(1)] by (auto simp: fd_wf_def storage_wf_def)
  then have "storage_wf t" using tables_wfD(1) [OF wf(1)] u(3) by (auto simp: storage_wf_def)
  moreover have "tables_le u t" using u(3) by (auto simp: tables_le_def storage_find_def)
  ultimately show "tables_wf t" using tables_wf_mono [OF wf(1)] u(3) by simp
qed

lemma add_file_keeps: "keepsM tables_wf (add_file E p d n)"
proof (rule keepsMI)
  fix s x t assume s: "tables_wf s" and a: "add_file E p d n s = Inr (x, t)"
  show "tables_wf t"
  proof (cases "storage_find p s")
    case None
    then have "new_file p (CapioFile_dir d (word_of_int (cl_getDirectoryFileCount E p)) (cl_isPermanent E p)
        (if 1 < cl_getDirectoryFileCount E p then CAPIO_DEFAULT_DIR_INITIAL_SIZE else n)
        (cl_getCommitCloseCount E p)) s = Inr (x, t)"
      using a by (simp add: add_file_def tryGet_def bindM_def [of "getsM _"] getsM_def Let_def)
    then show ?thesis using new_file_wf [OF s None] by blast
  next
    case (Some i)
    then have "t = s" using a by (simp add: add_file_def tryGet_def monad_simps Let_def)
    then show ?thesis using s by simp
  qed
qed

lemma dup_keeps_wf: "keepsM tables_wf (dup_fd tid a b)"
proof (rule keepsMI)
  fix s x t assume s: "tables_wf s" and "dup_fd tid a b s = Inr (x, t)"
  then obtain e0 s1 e s2 i s3 where u: "fd_entry tid b s = Inr (e0, s1)" "fd_entry tid a s1 = Inr (e, s2)"
    "t_pointer e = Some i"
    "update_file i file_open (s2\<lparr>s_fds := AList.update (tid, b) e (s_fds s2)\<rparr>) = Inr ((), s3)"
    "update_file i (addFd tid b) s3 = Inr (x, t)"
    unfolding dup_fd_def thenM_def bindM_Inr_iff set_fd_def modifyM_def optM_def
    by (auto simp: failM_def returnM_def split: option.splits)
  have wf: "tables_wf s2" "fd_wf s2 (tid, a) e"
    using fd_entry_wf [OF _ u(2)] fd_entry_wf [OF s u(1)] by auto
  let ?s' = "s2\<lparr>s_files := s_files t\<rparr>"
  have t: "t = ?s'\<lparr>s_fds := AList.update (tid, b) e (s_fds s2)\<rparr>"
    "\<exists>f. s_files s2 i = Some f \<and> s_files t = (s_files s2)(i \<mapsto> addFd tid b (file_open f))"
    using u(4,5) by (auto simp: update_file_def file_at_def set_file_def monad_simps split: option.splits)
  have le: "tables_le s2 ?s'" using t(2) by (auto simp: tables_le_def storage_find_def addFd_fds file_open_fds)
  have "dom (s_files t) = dom (s_files s2)" using t(2) by (auto split: if_splits)
  then have "storage_wf ?s'" using tables_wfD(1) [OF wf(1)] by (simp add: storage_wf_def)
  then have wf': "tables_wf ?s'" using tables_wf_mono [OF wf(1) le] by simp
  have "fd_wf ?s' (tid, b) e"
    using fd_wf_mono [OF le wf(2)] u(3) t(2) by (auto simp: fd_wf_def addFd_fds)
  then have "tables_wf (?s'\<lparr>s_fds := AList.update (tid, b) e (s_fds ?s')\<rparr>)" by (rule tables_wf_set_fd [OF wf'])
  then show "tables_wf t" using t(1) by simp
qed

lemma removeFromTid1_wf:
  assumes "tables_wf s" and "removeFromTid1 tid fd s = Inr (erased, t)"
  shows "tables_wf t"
proof -
  obtain e u where u: "fd_entry tid fd s = Inr (e, u)"
    and rest: "(if t_path e = [] then returnM False
       else bindM (optM NullDeref (t_pointer e)) (\<lambda>i.
         thenM (update_file i (removeFd tid fd))
           (thenM (modifyM (\<lambda>s. s\<lparr>s_fds := AList.delete (tid, fd) (s_fds s)\<rparr>)) (returnM True)))) u = Inr (erased, t)"
    using assms(2) unfolding removeFromTid1_def bindM_Inr_iff by blast
  have wf: "tables_wf u" using fd_entry_wf [OF assms(1) u] by blast
  show ?thesis
  proof (cases "t_path e = []")
    case True
    then show ?thesis using rest wf by (simp add: returnM_def)
  next
    case False
    then obtain i f where f: "s_files u i = Some f"
      and t: "t = u\<lparr>s_files := (s_files u)(i \<mapsto> removeFd tid fd f), s_fds := AList.delete (tid, fd) (s_fds u)\<rparr>"
      using rest by (auto simp: update_file_def file_at_def set_file_def monad_simps split: option.splits)
    have "dom (s_files t) = dom (s_files u)" using f t by (auto split: if_splits)
    then have "storage_wf t" using tables_wfD(1) [OF wf] t by (simp add: storage_wf_def)
    moreover have "fd_wf t k e'" if "map_of (s_fds t) k = Some e'" for k e'
    proof -
      have k: "k \<noteq> (tid, fd)" "map_of (s_fds u) k = Some e'"
        using that t by (auto simp: delete_conv' split: if_splits)
      have "fd_wf u k e'" by (rule tables_wfD(3) [OF wf k(2)])
      then show ?thesis using k(1) f t unfolding fd_wf_def
        by (auto simp: storage_find_def removeFd_def in_set_remove1)
    qed
    moreover have "distinct (map fst (s_fds t))"
      using tables_wfD(2) [OF wf] t by (simp add: distinct_delete)
    ultimately show ?thesis unfolding tables_wf_def by blast
  qed
qed

lemma fd_entry_shape:
  assumes "fd_entry tid fd s = Inr (e, u)"
  shows "s_storage u = s_storage s \<and> s_files u = s_files s \<and> map_of (s_fds u) (tid, fd) = Some e \<and>
    (\<forall>k d. map_of (s_fds s) k = Some d \<longrightarrow> map_of (s_fds u) k = Some d)"
  using assms by (auto simp: fd_entry_def set_fd_def fd_find_def update_conv' monad_simps split: option.splits)

lemma remove_fds_shape:
  "remove_fds ks s = Inr (x, u) \<Longrightarrow> tables_wf s \<Longrightarrow>
   tables_wf u \<and> s_storage u = s_storage s \<and> s_files u = s_files s \<and>
   (\<forall>k d. map_of (s_fds s) k = Some d \<longrightarrow> map_of (s_fds u) k = Some d) \<and>
   (\<forall>k \<in> set ks. \<exists>e. map_of (s_fds u) k = Some e \<and> t_path e = [])"
proof (induction ks arbitrary: s)
  case Nil
  then show ?case by (simp add: returnM_def)
next
  case (Cons k ks)
  obtain tid fd where k: "k = (tid, fd)" by (cases k)
  obtain erased v where v: "removeFromTid1 tid fd s = Inr (erased, v)" "\<not> erased" "remove_fds ks v = Inr (x, u)"
    using Cons.prems(1) unfolding k by (auto simp: bindM_Inr_iff failM_def split: if_splits)
  obtain e where e: "fd_entry tid fd s = Inr (e, v)" "t_path e = []"
    using v(1,2) by (auto simp: removeFromTid1_def bindM_Inr_iff returnM_def thenM_def split: if_splits)
  have "tables_wf v" by (rule removeFromTid1_wf [OF Cons.prems(2) v(1)])
  from Cons.IH [OF v(3) this] fd_entry_shape [OF e(1)] e(2) show ?case by (auto simp: k)
qed

lemma storage_delete:
  assumes "storage_wf s" and "storage_find p s = Some i"
  shows "distinct (map fst (AList.delete p (s_storage s)))" "distinct (map snd (AList.delete p (s_storage s)))"
    "snd ` set (AList.delete p (s_storage s)) = snd ` set (s_storage s) - {i}"
proof -
  let ?st = "s_storage s"
  have inj: "inj_on fst (set ?st)" "inj_on snd (set ?st)" and pi: "(p, i) \<in> set ?st"
    using assms by (auto simp: storage_wf_def storage_find_def distinct_map dest: map_of_SomeD)
  have mem: "(q, j) \<in> set (AList.delete p ?st) \<longleftrightarrow> (q, j) \<in> set ?st \<and> j \<noteq> i" for q j
    using inj_onD [OF inj(1) _ _ pi, of "(q, j)"] inj_onD [OF inj(2) _ _ pi, of "(q, j)"]
    by (auto simp: AList.delete_eq)
  then show "snd ` set (AList.delete p ?st) = snd ` set ?st - {i}" by force
  show "distinct (map fst (AList.delete p ?st))" "distinct (map snd (AList.delete p ?st))"
    using assms(1) by (simp_all add: storage_wf_def AList.delete_eq distinct_map_filter)
qed

lemma remove_path_keeps:
  assumes "p \<noteq> []"
  shows "keepsM tables_wf (remove_path p)"
proof (rule keepsMI)
  fix s x t assume s: "tables_wf s" and "remove_path p s = Inr (x, t)"
  then obtain i f u where i: "storage_find p s = Some i" "s_files s i = Some f"
    and u: "remove_fds (getFds f) s = Inr ((), u)"
    and t: "t = u\<lparr>s_storage := AList.delete p (s_storage u), s_files := (s_files u)(i := None)\<rparr>"
    by (auto simp: remove_path_def get_file_def tryGet_def file_at_def monad_simps split: option.splits sum.splits)
  have wf: "tables_wf u" and same: "s_storage u = s_storage s" "s_files u = s_files s"
    and gone: "\<And>k. k \<in> set (getFds f) \<Longrightarrow> \<exists>e. map_of (s_fds u) k = Some e \<and> t_path e = []"
    using remove_fds_shape [OF u s] by auto
  have sw: "storage_wf u" by (rule tables_wfD(1) [OF wf])
  have find: "storage_find p u = Some i" using i(1) same(1) by (simp add: storage_find_def)
  have other: "t_path e \<noteq> p" if "map_of (s_fds u) k = Some e" "t_pointer e \<noteq> None" for k e
  proof
    assume p: "t_path e = p"
    have "fd_wf u k e" by (rule tables_wfD(3) [OF wf that(1)])
    then have "k \<in> set (getFds f)" using p that(2) find i(2) same(2) by (auto simp: fd_wf_def getFds_def)
    then show False using gone that(1) p assms by fastforce
  qed
  have "storage_wf t" using storage_delete [OF sw find] sw t by (auto simp: storage_wf_def)
  moreover have "fd_wf t k e" if "map_of (s_fds t) k = Some e" for k e
  proof -
    have k: "map_of (s_fds u) k = Some e" using that t by simp
    show ?thesis
    proof (cases "t_pointer e")
      case None
      then show ?thesis using tables_wfD(3) [OF wf k] by (auto simp: fd_wf_def)
    next
      case (Some j)
      then have q: "t_path e \<noteq> p" "storage_find (t_path e) u = Some j"
        using other [OF k] tables_wfD(3) [OF wf k] by (auto simp: fd_wf_def)
      then have "j \<noteq> i" using storage_find_inj [OF sw] find by blast
      then show ?thesis
        using tables_wfD(3) [OF wf k] Some q t by (auto simp: fd_wf_def storage_find_def delete_conv')
    qed
  qed
  moreover have "distinct (map fst (s_fds t))" using tables_wfD(2) [OF wf] t by simp
  ultimately show "tables_wf t" unfolding tables_wf_def by blast
qed

lemma storage_find_renamed:
  assumes "storage_wf s" and "storage_find old s = Some i" and "storage_find new s = None \<or> new = old"
  shows "map_of (AList.delete old (s_storage s)) new = None"
    "map_of (AList.delete old (s_storage s) @ [(new, i)]) q =
       (if q = new then Some i else if q = old then None else storage_find q s)"
proof -
  show 1: "map_of (AList.delete old (s_storage s)) new = None"
    using assms(3) by (cases "new = old") (simp_all add: storage_find_def delete_conv')
  have 2: "map_of (AList.delete old (s_storage s)) q = (if q = old then None else storage_find q s)"
    by (simp add: storage_find_def delete_conv')
  show "map_of (AList.delete old (s_storage s) @ [(new, i)]) q =
       (if q = new then Some i else if q = old then None else storage_find q s)"
    using 1 2 by (cases "q = new"; cases "storage_find q s") (simp_all add: map_add_def)
qed

lemma rename_path_wf:
  assumes "tables_wf s" and "storage_find new s = None \<or> new = old" and "rename_path old new s = Inr ((), t)"
  shows "tables_wf t"
proof -
  let ?g = "\<lambda>e. if t_path e = old then e\<lparr>t_path := new\<rparr> else e"
  obtain i where i: "storage_find old s = Some i"
    using assms(3) by (auto simp: rename_path_def tryGet_def storage_find_def monad_simps split: option.splits)
  have sw: "storage_wf s" by (rule tables_wfD(1) [OF assms(1)])
  note find = storage_find_renamed [OF sw i assms(2)]
  have t: "t = s\<lparr>s_fds := map (\<lambda>(k, e). (k, ?g e)) (s_fds s),
      s_storage := AList.delete old (s_storage s) @ [(new, i)]\<rparr>"
    using assms(3) i find(1)
    by (auto simp: rename_path_def tryGet_def storage_find_def monad_simps Let_def split: option.splits)
  have "i \<in> snd ` set (s_storage s)" using map_of_SomeD [OF i [unfolded storage_find_def]] by force
  then have "storage_wf t"
    using storage_delete [OF sw i] sw t find(1) by (auto simp: storage_wf_def map_of_eq_None_iff)
  moreover have "distinct (map fst (s_fds t))"
    using tables_wfD(2) [OF assms(1)] t by (simp add: case_prod_beta' comp_def)
  moreover have "fd_wf t k e'" if "map_of (s_fds t) k = Some e'" for k e'
  proof -
    have "map_of (s_fds t) k = map_option ?g (map_of (s_fds s) k)"
      using t fun_cong [OF map_of_map [of ?g "s_fds s"], of k] by simp
    from trans [OF sym [OF this] that]
    obtain e where e: "map_of (s_fds s) k = Some e" "e' = ?g e" unfolding map_option_eq_Some by blast
    have "fd_wf s k e" by (rule tables_wfD(3) [OF assms(1) e(1)])
    then show ?thesis
      using e(2) t i find(2) assms(2) unfolding fd_wf_def by (auto simp: storage_find_def)
  qed
  ultimately show ?thesis unfolding tables_wf_def by blast
qed

section \<open>Every reachable state\<close>

interpretation server_tables: table_invariant tables_wf E for E
proof unfold_locales
  fix s t :: server
  show "same_tables s t \<Longrightarrow> tables_wf s \<Longrightarrow> tables_wf t" by (rule wf_same_tables)
next
  fix tid fd show "keepsM tables_wf (fd_entry tid fd)" by (rule fd_entry_keeps)
next
  fix tid fd off show "keepsM tables_wf (setFileOffset tid fd off)" by (rule setFileOffset_keeps)
next
  fix tid fd p off show "keepsM tables_wf (addFileToTid tid fd p off)"
    unfolding addFileToTid_def by (rule add_descriptor_keeps)
next
  fix tid fd show "keepsM tables_wf (removeFromTid1 tid fd)"
    by (rule keepsMI) (rule removeFromTid1_wf)
next
  fix tid fd fd' show "keepsM tables_wf (dup_fd tid fd fd')" by (rule dup_keeps_wf)
next
  fix a b show "keepsM tables_wf (clone_fds a b)" by (rule clone_keeps_wf)
next
  fix p d n show "keepsM tables_wf (add_file E p d n)" by (rule add_file_keeps)
next
  fix p :: path assume "p \<noteq> []" then show "keepsM tables_wf (remove_path p)" by (rule remove_path_keeps)
next
  fix g i assume g: "fds_kept g"
  show "keepsM tables_wf (try_update_file i g)"
  proof (rule keepsMI)
    fix s x t assume "tables_wf s" and "try_update_file i g s = Inr (x, t)"
    then show "tables_wf t" using try_update_wf [of s g i x t] g by (auto simp: fds_kept_def)
  qed
next
  fix s new old t assume "tables_wf s" and "storage_find new s = None \<or> new = old"
    and "rename_path old new s = Inr ((), t)"
  then show "tables_wf t" by (rule rename_path_wf)
qed

lemma tables_wf_init: "tables_wf (server_init\<lparr>s_texts := texts\<rparr>)"
  by (simp add: tables_wf_def storage_wf_def server_init_def)

text \<open>
  C6: In every state a server reaches without a request that renames a file to the path of
  another one, a descriptor that \<open>get(tid, fd)\<close> accepts refers to a file that is alive and
  lists the descriptor, \<open>get(getPath(tid, fd))\<close> gives the same file, and the descriptor has an
  offset.
\<close>

theorem reachable_descriptors_agree:
  assumes "reachable E s" and "get_fd tid fd s = Inr (i, t)"
  shows "tables_wf s \<and> (\<exists>f. file_at i s = Inr (f, s) \<and> (tid, fd) \<in> set (getFds f)) \<and>
    bindM (getPath tid fd) get_file s = Inr (i, s) \<and> (\<exists>off. getFileOffset tid fd s = Inr (off, s))"
proof -
  have wf: "tables_wf s" by (rule server_tables.reachable_keeps [OF tables_wf_init assms(1)])
  obtain e where e: "map_of (s_fds s) (tid, fd) = Some e" "t_pointer e = Some i"
    using assms(2) by (auto simp: get_fd_def fd_find_def monad_simps split: option.splits)
  have "fd_wf s (tid, fd) e" by (rule tables_wfD(3) [OF wf e(1)])
  then obtain f oi off where f: "t_offset e = Some oi" "s_offsets s oi = Some off"
    "storage_find (t_path e) s = Some i" "s_files s i = Some f" "(tid, fd) \<in> set (f_threads_fd f)"
    using e(2) unfolding fd_wf_def by auto
  have entry: "fd_entry tid fd s = Inr (e, s)"
    using e(1) unfolding fd_entry_def fd_find_def by (simp only: bindM_def getsM_def) (simp add: returnM_def)
  show ?thesis
    using wf f entry
    by (simp add: file_at_def getFds_def getPath_def get_file_def tryGet_def getFileOffset_def monad_simps)
qed

text \<open>A client that opened the file \<open>/x\<close>, published by node \<open>a\<close>, on node \<open>b\<close>.\<close>

definition published :: "string \<Rightarrow> string" where
  "published = (\<lambda>_. [])(''a'' := location_line ''/x'' ''a'')"

definition connected :: server where
  "connected = server_init\<lparr>s_texts := published, s_data_buffers := [7 \<mapsto> (sq_new 4 8, [])],
     s_app_names := [7 \<mapsto> CAPIO_DEFAULT_APP_NAME], s_by_producer := [7 \<mapsto> []],
     s_by_app := [CAPIO_DEFAULT_APP_NAME \<mapsto> []], s_responses := [7 \<mapsto> []]\<rparr>"

definition opened :: server where
  "opened = connected\<lparr>
     s_responses := [7 \<mapsto> [0]], s_locations := [''/x'' \<mapsto> (NodeCopy ''a'', 5)], s_next_file := 1,
     s_files := [0 \<mapsto> addFd 7 3 (file_open (CapioFile_dir False 0 False 16 0))],
     s_storage := [(''/x'', 0)], s_offsets := [0 \<mapsto> 0], s_next_offset := 1,
     s_fds := [((7, 3), \<lparr>t_pointer = Some 0, t_offset = Some 0, t_path = ''/x''\<rparr>)]\<rparr>"

lemma find_published: "find_on_nodes published ''/x'' [''a'', ''b''] = Some (''a'', 5)"
  by (simp add: published_def location_line_def newline_def line_path_def find_char_def upt_rec
      CAPIO_SERVER_INVALIDATE_FILE_PATH_CHAR_def)

lemma word_x: "is_word ''/x''"
  by (simp add: is_word_def is_space_def)

lemma handshake_run:
  "capio_server (env_example ''b'') (request_text CAPIO_REQUEST_HANDSHAKE_ANONYMOUS [IntA 7, IntA 7])
     (server_init\<lparr>s_texts := published\<rparr>) = Inr ((), connected)"
proof -
  have "scan (tl (show_args [IntA 7, IntA 7])) [Conv_d, Conv_d] = (returnM [IntA 7, IntA 7] :: arg list srv)"
    by (rule scan_tl_show_args) (simp add: in_range_def)
  then show ?thesis
    by (simp add: capio_server_request request_codes request_handlers_def handshake_anonymous_handler_def
        registerClient_def int_arg_def map_emplace_def env_example_def connected_def server_init_def monad_simps)
qed

lemmas open_defs = open_handler_def handle_open_def file_location_exists_def load_file_location_def
  get_file_location_opt_def add_file_location_def update_file_metadata_def add_file_def addFileToTid_def
  addNewFdToStorage_def addNewFdToMap_def storage_index_def tryGet_def storage_find_def new_file_def
  update_file_def file_at_def set_file_def set_fd_def replyToClient_def CAPIO_REQ_BUFF_CNT_def
  int_arg_def str_arg_def map_emplace_def

lemma open_run:
  "capio_server (env_example ''b'') (request_text CAPIO_REQUEST_OPEN [IntA 7, IntA 3, StrA ''/x'']) connected =
   Inr ((), opened)"
proof -
  have "scan (tl (show_args [IntA 7, IntA 3, StrA ''/x''])) [Conv_d, Conv_d, Conv_s] =
      (returnM [IntA 7, IntA 3, StrA ''/x''] :: arg list srv)"
    by (rule scan_tl_show_args) (simp add: in_range_def word_x)
  then have "capio_server (env_example ''b'') (request_text CAPIO_REQUEST_OPEN [IntA 7, IntA 3, StrA ''/x'']) connected =
      Inr ((), opened\<lparr>s_locations := [''/x'' \<mapsto> (NodeCopy ''a'', int (length (published ''a'')))]\<rparr>)"
    by (simp add: capio_server_request request_codes request_handlers_def open_defs find_published
        env_example_def connected_def server_init_def opened_def monad_simps Let_def del: find_on_nodes.simps)
  then show ?thesis by (simp add: published_def location_line_def opened_def)
qed

lemma opened_reachable: "reachable (env_example ''b'') opened"
proof -
  have "reachable (env_example ''b'') connected"
    by (rule reachable.step [OF reachable.init server_step.request [OF handshake_run]])
      (simp add: overwriting_def readNextRequest_request_text request_codes)
  then show ?thesis
    by (rule reachable.step [OF _ server_step.request [OF open_run]])
      (simp add: overwriting_def readNextRequest_request_text request_codes)
qed

theorem reachable_descriptors_agree_witness:
  "reachable (env_example ''b'') opened \<and> get_fd 7 3 opened = Inr (0, opened) \<and>
   bindM (getPath 7 3) get_file opened = Inr (0, opened)"
proof -
  have g: "get_fd 7 3 opened = Inr (0, opened)"
    by (simp add: opened_def get_fd_def fd_find_def monad_simps)
  show ?thesis using opened_reachable g reachable_descriptors_agree [OF opened_reachable g] by simp
qed

section \<open>Renaming over an existing file\<close>

text \<open>
  C35: A rename to the path of another file destroys the renamed file instead of replacing the
  other one: afterwards the old path is gone, the new path still names the old content, and an
  open descriptor of the renamed file points to a file that no longer exists.
\<close>

theorem rename_over_file_destroys_source:
  assumes "tables_wf s" and "storage_find old s = Some i" and "storage_find new s = Some j" and "old \<noteq> new"
  shows "\<exists>t. rename_path old new s = Inr ((), t) \<and> storage_find old t = None \<and>
    storage_find new t = Some j \<and> s_files t i = None \<and> s_files t j = s_files s j \<and>
    (\<forall>k e. map_of (s_fds s) k = Some e \<and> t_pointer e = Some i \<longrightarrow>
       (\<exists>e'. map_of (s_fds t) k = Some e' \<and> t_pointer e' = Some i \<and> t_path e' = new))"
proof -
  let ?g = "\<lambda>e. if t_path e = old then e\<lparr>t_path := new\<rparr> else e"
  let ?t = "s\<lparr>s_fds := map (\<lambda>(k, e). (k, ?g e)) (s_fds s), s_storage := AList.delete old (s_storage s),
      s_files := (s_files s)(i := None)\<rparr>"
  have sw: "storage_wf s" by (rule tables_wfD(1) [OF assms(1)])
  have ij: "i \<noteq> j" using storage_find_inj [OF sw assms(2)] assms(3,4) by blast
  have "rename_path old new s = Inr ((), ?t)"
    using assms(2,3,4)
    by (simp add: rename_path_def tryGet_def storage_find_def monad_simps Let_def delete_conv')
  moreover have "storage_find old ?t = None" "storage_find new ?t = Some j"
    using assms(3,4) by (simp_all add: storage_find_def delete_conv')
  moreover have "\<exists>e'. map_of (s_fds ?t) k = Some e' \<and> t_pointer e' = Some i \<and> t_path e' = new"
    if "map_of (s_fds s) k = Some e" "t_pointer e = Some i" for k e
  proof -
    have "storage_find (t_path e) s = Some i"
      using tables_wfD(3) [OF assms(1) that(1)] that(2) by (auto simp: fd_wf_def)
    then have "t_path e = old" by (rule storage_find_inj [OF sw _ assms(2)])
    then show ?thesis
      using fun_cong [OF map_of_map [of ?g "s_fds s"], of k] that by simp
  qed
  ultimately show ?thesis using ij by (intro exI [of _ ?t]) (simp del: map_of_eq_Some_iff)
qed

theorem rename_over_file_destroys_source_witness:
  "\<exists>t. rename_path ''/x'' ''/y''
       (opened\<lparr>s_storage := [(''/x'', 0), (''/y'', 1)], s_next_file := 2,
          s_files := (s_files opened)(1 \<mapsto> CapioFile_default)\<rparr>) = Inr ((), t) \<and>
     storage_find ''/x'' t = None \<and> s_files t 0 = None \<and>
     (\<exists>e. map_of (s_fds t) (7, 3) = Some e \<and> t_pointer e = Some 0)"
proof -
  let ?s = "opened\<lparr>s_storage := [(''/x'', 0), (''/y'', 1)], s_next_file := 2,
      s_files := (s_files opened)(1 \<mapsto> CapioFile_default)\<rparr>"
  have "tables_wf ?s"
    by (auto simp: tables_wf_def storage_wf_def fd_wf_def storage_find_def opened_def connected_def server_init_def
        addFd_def split: if_splits)
  moreover have "storage_find ''/x'' ?s = Some 0" "storage_find ''/y'' ?s = Some 1"
    by (simp_all add: storage_find_def)
  moreover have "map_of (s_fds ?s) (7, 3) = Some \<lparr>t_pointer = Some 0, t_offset = Some 0, t_path = ''/x''\<rparr>"
    by (simp add: opened_def)
  ultimately show ?thesis using rename_over_file_destroys_source [of ?s "''/x''" 0 "''/y''" 1] by fastforce
qed

section \<open>Cloned descriptors\<close>


end
