(* ===== verification/Server_Data.thy ===== *)
theory Server_Data
  imports Server_Tables
begin

text \<open>
  What clients read is what clients wrote: the data path of the server, from the request texts
  of \<open>write\<close>, \<open>lseek\<close> and \<open>read\<close> to the bytes in the queues.

  \<open>fd_at\<close> describes an open descriptor; its lemmas give the results of the lookups that every
  handler starts with. \<open>frame\<close> is what the update of a directory leaves alone.
\<close>

section \<open>An open descriptor\<close>

definition fd_at :: "server \<Rightarrow> int \<Rightarrow> int \<Rightarrow> path \<Rightarrow> nat \<Rightarrow> capio_file \<Rightarrow> off64 \<Rightarrow> bool" where
  "fd_at s tid fd p i f off \<longleftrightarrow>
     (\<exists>oi. map_of (s_fds s) (tid, fd) = Some \<lparr>t_pointer = Some i, t_offset = Some oi, t_path = p\<rparr> \<and>
        s_offsets s oi = Some off) \<and>
     storage_find p s = Some i \<and> s_files s i = Some f"

lemma fd_at_entry:
  assumes "fd_at s tid fd p i f off"
  obtains oi where "fd_entry tid fd s = Inr (\<lparr>t_pointer = Some i, t_offset = Some oi, t_path = p\<rparr>, s)"
    and "s_offsets s oi = Some off"
proof -
  obtain oi where e: "map_of (s_fds s) (tid, fd) = Some \<lparr>t_pointer = Some i, t_offset = Some oi, t_path = p\<rparr>"
    and o: "s_offsets s oi = Some off" using assms unfolding fd_at_def by blast
  have "fd_entry tid fd s = Inr (\<lparr>t_pointer = Some i, t_offset = Some oi, t_path = p\<rparr>, s)"
    unfolding fd_entry_def fd_find_def bindM_def getsM_def e by (simp add: returnM_def)
  then show ?thesis using o by (rule that)
qed

lemma fd_at_lookups:
  assumes "fd_at s tid fd p i f off"
  shows "getPath tid fd s = Inr (p, s)" and "getFileOffset tid fd s = Inr (off, s)"
    and "get_file p s = Inr (i, s)" and "file_at i s = Inr (f, s)" and "get_fd tid fd s = Inr (i, s)"
proof -
  obtain oi where e: "fd_entry tid fd s = Inr (\<lparr>t_pointer = Some i, t_offset = Some oi, t_path = p\<rparr>, s)"
    "s_offsets s oi = Some off" by (rule fd_at_entry [OF assms])
  then show "getPath tid fd s = Inr (p, s)" "getFileOffset tid fd s = Inr (off, s)"
    by (simp_all add: getPath_def getFileOffset_def monad_simps)
  show "get_file p s = Inr (i, s)" "file_at i s = Inr (f, s)"
    using assms by (simp_all add: fd_at_def get_file_def tryGet_def file_at_def monad_simps)
  obtain oi' where "map_of (s_fds s) (tid, fd) = Some \<lparr>t_pointer = Some i, t_offset = Some oi', t_path = p\<rparr>"
    using assms unfolding fd_at_def by blast
  then show "get_fd tid fd s = Inr (i, s)"
    unfolding get_fd_def fd_find_def bindM_def getsM_def by (simp add: monad_simps)
qed

text \<open>The lookups at a descriptor look only at the tables of the storage manager.\<close>

lemma fd_at_cong:
  assumes "fd_at s tid fd p i f off" and "s_fds t = s_fds s" and "s_offsets t = s_offsets s"
    and "s_storage t = s_storage s" and "s_files t i = Some g"
  shows "fd_at t tid fd p i g off"
  using assms unfolding fd_at_def storage_find_def by metis

lemma setFileOffset_run:
  assumes "fd_at s tid fd p i f off"
  obtains os where "setFileOffset tid fd n s = Inr (n, s\<lparr>s_offsets := os\<rparr>)"
    and "fd_at (s\<lparr>s_offsets := os\<rparr>) tid fd p i f n"
proof -
  obtain oi where m: "map_of (s_fds s) (tid, fd) = Some \<lparr>t_pointer = Some i, t_offset = Some oi, t_path = p\<rparr>"
    using assms unfolding fd_at_def by blast
  obtain oi' where e: "fd_entry tid fd s = Inr (\<lparr>t_pointer = Some i, t_offset = Some oi', t_path = p\<rparr>, s)"
    by (rule fd_at_entry [OF assms])
  have "oi' = oi" using e m unfolding fd_entry_def fd_find_def bindM_def getsM_def by (simp add: returnM_def)
  then have "setFileOffset tid fd n s = Inr (n, s\<lparr>s_offsets := (s_offsets s)(oi \<mapsto> n)\<rparr>)"
    using e by (simp add: setFileOffset_def monad_simps)
  moreover have "fd_at (s\<lparr>s_offsets := (s_offsets s)(oi \<mapsto> n)\<rparr>) tid fd p i f n"
    using assms m unfolding fd_at_def storage_find_def by fastforce
  ultimately show ?thesis by (rule that)
qed

section \<open>Replies\<close>

definition can_reply :: "server \<Rightarrow> int \<Rightarrow> off64 list \<Rightarrow> slot_queue \<Rightarrow> cell list list \<Rightarrow> bool" where
  "can_reply s tid rs q ds \<longleftrightarrow>
     s_responses s tid = Some rs \<and> length rs < CAPIO_REQ_BUFF_CNT \<and> s_data_buffers s tid = Some (q, ds)"

lemma replyToClient_run:
  "s_responses s tid = Some rs \<Longrightarrow> length rs < CAPIO_REQ_BUFF_CNT \<Longrightarrow>
   replyToClient tid v s = Inr ((), s\<lparr>s_responses := (s_responses s)(tid \<mapsto> rs @ [v])\<rparr>)"
  by (simp add: replyToClient_def monad_simps)

lemma replyToClient_data_run:
  assumes "can_reply s tid rs q ds" and "buf off n = Inr xs"
  shows "replyToClient_data tid off buf n s =
    Inr ((), s\<lparr>s_responses := (s_responses s)(tid \<mapsto> rs @ [off + n]),
               s_data_buffers := (s_data_buffers s)(tid \<mapsto> (q, ds @ [xs]))\<rparr>)"
  using assms
  by (simp add: can_reply_def replyToClient_data_def replyToClient_run bindM_def thenM_def getsM_def liftM_def modifyM_def)

section \<open>Reading the bytes of a file\<close>

text \<open>The bytes \<open>ys\<close> are those of the file from \<open>off\<close> on.\<close>

definition reads :: "capio_file \<Rightarrow> off64 \<Rightarrow> cell list \<Rightarrow> bool" where
  "reads f off ys \<longleftrightarrow> (\<forall>k < length ys. byte_at f (off + int k) = Some (ys ! k))"

lemma load_covered:
  assumes "file_wf f" and "0 \<le> off" and "0 \<le> n" and "{off..<off + n} \<subseteq> covered (f_sectors f)"
  obtains ys where "load_at off n f = Inr ys" and "int (length ys) = n" and "reads f off ys"
proof (cases "n = 0")
  case True
  then show ?thesis by (intro that [of "[]"]) (simp_all add: load_at_def reads_def)
next
  case False
  then have "off \<in> covered (f_sectors f)" "off + n - 1 \<in> covered (f_sectors f)" using assms(3,4) by auto
  then have ne: "\<not> buf_empty (f_buffer f)" and top: "off + n - 1 < buf_size (f_buffer f)"
    using assms(1) covered_within [of "f_sectors f" "buf_size (f_buffer f)"]
    by (auto simp: file_wf_def split: if_splits)
  then obtain d where d: "buf_data (f_buffer f) = Some d" "int (length d) = buf_size (f_buffer f)"
    using assms(1) by (auto simp: file_wf_def buf_wf_def buf_empty_def)
  have le: "nat off + nat n \<le> length d" using d(2) top assms(2,3) by linarith
  have l: "load_at off n f = Inr (seg (nat off) (nat n) d)"
    using False d top assms(2,3) by (simp add: load_at_def getBuffer_def)
  moreover have len: "length (seg (nat off) (nat n) d) = nat n" using le by (rule length_seg)
  moreover have "reads f off (seg (nat off) (nat n) d)"
    unfolding reads_def
  proof (intro allI impI)
    fix k assume "k < length (seg (nat off) (nat n) d)"
    then have k: "k < nat n" using len by simp
    then have "off + int k \<in> covered (f_sectors f)" using assms(3,4) by auto
    moreover have "nat (off + int k) = nat off + k" using assms(2) by simp
    ultimately show "byte_at f (off + int k) = Some (seg (nat off) (nat n) d ! k)"
      using k le d(1) assms(2) by (simp add: byte_at_def cell_at_def nth_seg)
  qed
  ultimately show ?thesis using assms(3) that by simp
qed

lemma sector_end_run:
  assumes "file_wf f" and "getSectorEnd off f \<noteq> CAPIO_SECTOR_NOT_FOUND"
  shows "off \<le> getSectorEnd off f" and "{off..<getSectorEnd off f} \<subseteq> covered (f_sectors f)"
    and "\<not> buf_empty (f_buffer f)"
proof -
  have wf: "wf_sectors (f_sectors f)" using assms(1) by (simp add: file_wf_def)
  note x = ss_getSectorEnd_extent [OF wf, of off]
  show "off \<le> getSectorEnd off f" "{off..<getSectorEnd off f} \<subseteq> covered (f_sectors f)"
    using x assms(2) by (simp_all add: getSectorEnd_def CAPIO_SECTOR_NOT_FOUND_def)
  have "f_sectors f \<noteq> []"
    using assms(2) by (auto simp: getSectorEnd_def ss_getSectorEnd_def CAPIO_SECTOR_NOT_FOUND_def)
  then show "\<not> buf_empty (f_buffer f)" using assms(1) by (auto simp: file_wf_def)
qed

text \<open>A reply with bytes of a file that has its buffer.\<close>

lemma serve_run:
  assumes "fd_at s tid fd p i f off" and "can_reply s tid rs q ds" and "\<not> buf_empty (f_buffer f)"
    and "load_at off n f = Inr ys"
  obtains os where "thenM (try_update_file i (createBuffer (env_sys E) (env_quota E) p False))
      (reply_bytes tid fd i off n) s =
      Inr ((), s\<lparr>s_responses := (s_responses s)(tid \<mapsto> rs @ [off + n]),
        s_data_buffers := (s_data_buffers s)(tid \<mapsto> (q, ds @ [ys])), s_offsets := os\<rparr>)"
    and "fd_at (s\<lparr>s_responses := (s_responses s)(tid \<mapsto> rs @ [off + n]),
        s_data_buffers := (s_data_buffers s)(tid \<mapsto> (q, ds @ [ys])), s_offsets := os\<rparr>) tid fd p i f (off + n)"
proof -
  let ?t = "s\<lparr>s_responses := (s_responses s)(tid \<mapsto> rs @ [off + n]),
      s_data_buffers := (s_data_buffers s)(tid \<mapsto> (q, ds @ [ys]))\<rparr>"
  have fi: "s_files s i = Some f" using assms(1) by (simp add: fd_at_def)
  have c: "createBuffer (env_sys E) (env_quota E) p False f = Inr f" using assms(3) by (simp add: createBuffer_def)
  have u: "try_update_file i (createBuffer (env_sys E) (env_quota E) p False) s = Inr ((), s)"
    using fi c by (simp add: try_update_file_def file_at_def set_file_def monad_simps fun_upd_idem)
  have "fd_at ?t tid fd p i f off" by (rule fd_at_cong [OF assms(1)]) (simp_all add: fi)
  then obtain os where os: "setFileOffset tid fd (off + n) ?t = Inr (off + n, ?t\<lparr>s_offsets := os\<rparr>)"
    "fd_at (?t\<lparr>s_offsets := os\<rparr>) tid fd p i f (off + n)" by (rule setFileOffset_run)
  have "reply_bytes tid fd i off n s = Inr ((), ?t\<lparr>s_offsets := os\<rparr>)"
    unfolding reply_bytes_def
    using fd_at_lookups(4) [OF assms(1)] replyToClient_data_run [where buf = "\<lambda>off k. load_at off k f", OF assms(2) assms(4)] os(1)
    by (simp add: bindM_def thenM_def returnM_def)
  then have "thenM (try_update_file i (createBuffer (env_sys E) (env_quota E) p False))
      (reply_bytes tid fd i off n) s = Inr ((), ?t\<lparr>s_offsets := os\<rparr>)"
    using u by (simp add: thenM_def bindM_def)
  then show ?thesis using os(2) by (rule that)
qed

lemma local_read_served:
  assumes "fd_at s tid fd p i f off" and "can_reply s tid rs q ds" and "file_wf f" and "0 \<le> off" and "0 \<le> count"
    and "getSectorEnd off f \<noteq> CAPIO_SECTOR_NOT_FOUND"
    and "isCommitted f \<or> is_prod \<or> cl_isFirable E p \<and> off + count \<le> getSectorEnd off f"
  obtains ys os where "handle_local_read E tid fd count is_prod s =
      Inr ((), s\<lparr>s_responses := (s_responses s)(tid \<mapsto> rs @ [off + int (length ys)]),
        s_data_buffers := (s_data_buffers s)(tid \<mapsto> (q, ds @ [ys])), s_offsets := os\<rparr>)"
    and "int (length ys) = min count (getSectorEnd off f - off)" and "reads f off ys"
    and "fd_at (s\<lparr>s_responses := (s_responses s)(tid \<mapsto> rs @ [off + int (length ys)]),
        s_data_buffers := (s_data_buffers s)(tid \<mapsto> (q, ds @ [ys])), s_offsets := os\<rparr>) tid fd p i f
        (off + int (length ys))"
proof -
  let ?n = "min count (getSectorEnd off f - off)"
  note run = sector_end_run [OF assms(3,6)]
  have "{off..<off + ?n} \<subseteq> {off..<getSectorEnd off f}" by auto
  then have "{off..<off + ?n} \<subseteq> covered (f_sectors f)" using run(2) by (rule subset_trans)
  moreover have "0 \<le> ?n" using run(1) assms(5) by simp
  ultimately obtain ys where ys: "load_at off ?n f = Inr ys" "int (length ys) = ?n" "reads f off ys"
    using load_covered [OF assms(3,4)] by blast
  obtain os where os: "thenM (try_update_file i (createBuffer (env_sys E) (env_quota E) p False))
      (reply_bytes tid fd i off ?n) s =
      Inr ((), s\<lparr>s_responses := (s_responses s)(tid \<mapsto> rs @ [off + ?n]),
        s_data_buffers := (s_data_buffers s)(tid \<mapsto> (q, ds @ [ys])), s_offsets := os\<rparr>)"
    "fd_at (s\<lparr>s_responses := (s_responses s)(tid \<mapsto> rs @ [off + ?n]),
        s_data_buffers := (s_data_buffers s)(tid \<mapsto> (q, ds @ [ys])), s_offsets := os\<rparr>) tid fd p i f (off + ?n)"
    using serve_run [OF assms(1,2) run(3) ys(1)] by blast
  have "handle_local_read E tid fd count is_prod s =
      thenM (try_update_file i (createBuffer (env_sys E) (env_quota E) p False)) (reply_bytes tid fd i off ?n) s"
    using assms(6,7) unfolding handle_local_read_def
    by (auto simp: bindM_def fd_at_lookups [OF assms(1)] Let_def)
  then show ?thesis using that [OF _ ys(2,3)] os ys(2) by simp
qed

section \<open>Preparing a write\<close>

lemma prepare_run:
  assumes "s_files s i = Some f"
  shows "thenM (try_update_file i (createBuffer S quota p home))
      (bindM (file_at i) (\<lambda>f. thenM (whenM (getBufSize f < n) (try_update_file i (expandBuffer S quota n))) k)) s =
    (case prepare_buffer home S quota p n f of
       Inl e \<Rightarrow> Inl e
     | Inr f1 \<Rightarrow> k (s\<lparr>s_files := (s_files s)(i \<mapsto> f1)\<rparr>))"
  using assms
  by (simp add: prepare_buffer_def try_update_file_def file_at_def set_file_def monad_simps split: sum.split)

definition same_flags :: "capio_file \<Rightarrow> capio_file \<Rightarrow> bool" where
  "same_flags f g \<longleftrightarrow>
     f_first_write g = f_first_write f \<and> f_requested_size g = f_requested_size f \<and> f_permanent g = f_permanent f"

lemma same_flags_kept:
  "createBuffer S quota p home f = Inr f' \<Longrightarrow> same_flags f f'"
  "expandBuffer S quota n f = Inr f' \<Longrightarrow> same_flags f f'"
  "store_at off xs f = Inr f' \<Longrightarrow> same_flags f f'"
  unfolding same_flags_def
  by (auto simp: createBuffer_def expandBuffer_def store_at_def Let_def
      split: if_splits sum.splits prod.splits option.splits)

lemma prepare_same_flags:
  "prepare_buffer home S quota p n f = Inr f' \<Longrightarrow> same_flags f f'"
  by (auto simp: prepare_buffer_def same_flags_def dest!: same_flags_kept split: sum.splits if_splits)

lemma registerProducedFile_run:
  obtains bp ba where "registerProducedFile tid p s = Inr ((), s\<lparr>s_by_producer := bp, s_by_app := ba\<rparr>)"
proof -
  have "\<exists>bp ba. registerProducedFile tid p s = Inr ((), s\<lparr>s_by_producer := bp, s_by_app := ba\<rparr>)"
  proof (cases "s_by_producer s tid")
    case None
    then have "registerProducedFile tid p s =
        Inr ((), s\<lparr>s_by_producer := s_by_producer s, s_by_app := s_by_app s\<rparr>)"
      by (simp add: registerProducedFile_def monad_simps)
    then show ?thesis by blast
  next
    case (Some ps)
    let ?bp = "(s_by_producer s)(tid \<mapsto> List.insert p ps)"
    let ?app = "case s_app_names s tid of Some n \<Rightarrow> n | None \<Rightarrow> CAPIO_DEFAULT_APP_NAME"
    have "registerProducedFile tid p s = Inr ((), s\<lparr>s_by_producer := ?bp, s_by_app :=
        (case s_by_app s ?app of None \<Rightarrow> s_by_app s | Some qs \<Rightarrow> (s_by_app s)(?app \<mapsto> List.insert p qs))\<rparr>)"
      using Some by (simp add: registerProducedFile_def getAppName_def monad_simps split: option.split)
    then show ?thesis by blast
  qed
  then show ?thesis using that by blast
qed

section \<open>What a directory update leaves alone\<close>

definition frame :: "nat \<Rightarrow> server \<Rightarrow> server \<Rightarrow> bool" where
  "frame i r s \<longleftrightarrow>
     s_files s i = s_files r i \<and> s_fds s = s_fds r \<and> s_offsets s = s_offsets r \<and> s_storage s = s_storage r \<and>
     s_data_buffers s = s_data_buffers r \<and> s_responses s = s_responses r"

lemma frame_refl [simp]: "frame i s s"
  by (simp add: frame_def)

lemma frame_registerProducedFile: "keepsM (frame i r) (registerProducedFile tid p)"
proof (rule keepsMI)
  fix s x t assume s: "frame i r s" and r: "registerProducedFile tid p s = Inr (x, t)"
  obtain bp ba where "registerProducedFile tid p s = Inr ((), s\<lparr>s_by_producer := bp, s_by_app := ba\<rparr>)"
    by (rule registerProducedFile_run)
  then show "frame i r t" using s r by (auto simp: frame_def)
qed

lemma frame_keeps:
  "keepsM (frame i r) (write_file_location E p)" "keepsM (frame i r) (file_at j)"
  "j \<noteq> i \<Longrightarrow> keepsM (frame i r) (update_file j g)" "j \<noteq> i \<Longrightarrow> keepsM (frame i r) (try_update_file j h)"
  by (rule keepsMI, auto simp: frame_def write_file_location_def add_file_location_def file_at_def
       update_file_def try_update_file_def set_file_def monad_simps split: option.splits sum.splits)+

lemma frame_get_file:
  assumes "\<And>j. storage_find p r = Some j \<Longrightarrow> keepsM (frame i r) (k j)"
  shows "keepsM (frame i r) (bindM (get_file p) k)"
proof (rule keepsMI)
  fix s x t assume s: "frame i r s" and b: "bindM (get_file p) k s = Inr (x, t)"
  then obtain j where j: "storage_find p s = Some j" "k j s = Inr (x, t)"
    by (auto simp: get_file_def tryGet_def monad_simps split: option.splits)
  have "storage_find p r = Some j" using j(1) s by (simp add: frame_def storage_find_def)
  then show "frame i r t" using assms j(2) s keepsMD by metis
qed

lemma addDirectoryEntry_frame:
  assumes "storage_find dir r \<noteq> Some i"
  shows "keepsM (frame i r) (addDirectoryEntry E tid p dir ty)"
  unfolding addDirectoryEntry_def
  by (intro keeps_let frame_get_file keeps_intros frame_keeps frame_registerProducedFile; use assms in force)

lemma updateDirectory_frame:
  assumes "storage_find (get_parent_dir_path p) r \<noteq> Some i"
  shows "keepsM (frame i r) (updateDirectory E tid p)"
  unfolding updateDirectory_def Let_def
  by (intro frame_get_file keeps_intros frame_keeps addDirectoryEntry_frame; use assms in force)

section \<open>Writing\<close>

text \<open>The part of \<open>register_written_data\<close> after the sector was inserted.\<close>

lemma register_written_run:
  assumes "s_files s i = Some f" and "storage_find (get_parent_dir_path p) s \<noteq> Some i"
  shows "case register_written_data E tid p i a b s of
      Inl e \<Rightarrow> f_first_write f
    | Inr (_, t) \<Rightarrow> \<exists>g. same_storage (insertSector a b f) g \<and> \<not> f_first_write g \<and> f_requested_size g = f_requested_size f \<and>
        f_permanent g = f_permanent f \<and> frame i (s\<lparr>s_files := (s_files s)(i \<mapsto> g)\<rparr>) t"
proof -
  let ?g = "insertSector a b f"
  obtain bp ba where r: "registerProducedFile tid p s = Inr ((), s\<lparr>s_by_producer := bp, s_by_app := ba\<rparr>)"
    by (rule registerProducedFile_run)
  let ?s = "s\<lparr>s_by_producer := bp, s_by_app := ba, s_files := (s_files s)(i \<mapsto> ?g)\<rparr>"
  let ?h = "registerFirstWrite ?g"
  let ?t = "?s\<lparr>s_files := (s_files s)(i \<mapsto> ?h)\<rparr>"
  let ?rest = "thenM (write_file_location E p) (updateDirectory E tid p)"
  have run: "register_written_data E tid p i a b s =
      (if f_first_write f then ?rest ?t else Inr ((), ?s))"
    using assms(1) r
    by (simp add: register_written_data_def update_file_def file_at_def set_file_def isFirstWrite_def
        insertSector_def registerFirstWrite_def bindM_def thenM_def whenM_def modifyM_def
        returnM_def)
  show ?thesis
  proof (cases "f_first_write f")
    case False
    then have "\<not> f_first_write ?g" "f_requested_size ?g = f_requested_size f" "f_permanent ?g = f_permanent f"
      by (simp_all add: insertSector_def)
    then show ?thesis using False unfolding run by (auto simp: frame_def same_storage_def)
  next
    case True
    have "storage_find (get_parent_dir_path p) ?t \<noteq> Some i" using assms(2) by (simp add: storage_find_def)
    then have k: "keepsM (frame i ?t) ?rest" by (intro keeps_intros frame_keeps updateDirectory_frame)
    show ?thesis
    proof (cases "?rest ?t")
      case (Inr xu)
      then obtain x u where u: "?rest ?t = Inr (x, u)" by (cases xu) simp
      have "frame i ?t u" by (rule keepsMD [OF k frame_refl u])
      then have "frame i (s\<lparr>s_files := (s_files s)(i \<mapsto> ?h)\<rparr>) u" by (simp add: frame_def)
      moreover have "same_storage ?g ?h" "\<not> f_first_write ?h" "f_requested_size ?h = f_requested_size f"
        "f_permanent ?h = f_permanent f"
        by (simp_all add: same_storage_def registerFirstWrite_def insertSector_def)
      ultimately show ?thesis unfolding run u using True by auto
    qed (simp add: run True)
  qed
qed

text \<open>The client is registered as a producer of the path.\<close>

definition produces :: "int \<Rightarrow> path \<Rightarrow> server \<Rightarrow> bool" where
  "produces tid p s \<longleftrightarrow> (\<exists>ps. s_by_producer s tid = Some ps \<and> p \<in> set ps)"

lemma produces_registered:
  assumes "s_by_producer s tid = Some ps" and "registerProducedFile tid p s = Inr (x, t)"
  shows "produces tid p t"
  using assms
  by (auto simp: produces_def registerProducedFile_def getAppName_def monad_simps split: option.splits)

lemma produces_basic:
  "keepsM (produces tid p) (registerProducedFile tid' q)" "keepsM (produces tid p) (write_file_location E q)"
  "keepsM (produces tid p) (file_at j)" "keepsM (produces tid p) (update_file j g)"
  "keepsM (produces tid p) (try_update_file j h)" "keepsM (produces tid p) (get_file q)"
  "keepsM (produces tid p) (setFileOffset tid' fd off)"
  by (rule keepsMI, auto simp: produces_def registerProducedFile_def getAppName_def write_file_location_def
       add_file_location_def file_at_def update_file_def try_update_file_def set_file_def get_file_def tryGet_def
       setFileOffset_def fd_entry_def set_fd_def monad_simps split: option.splits sum.splits)+

lemma produces_directory:
  "keepsM (produces tid p) (addDirectoryEntry E tid' q dir ty)" "keepsM (produces tid p) (updateDirectory E tid' q)"
  unfolding updateDirectory_def addDirectoryEntry_def by (intro keeps_intros produces_basic)+

lemma produces_register_written:
  assumes "s_by_producer s tid = Some ps" and "register_written_data E tid p i a b s = Inr (x, t)"
  shows "produces tid p t"
proof -
  let ?rest = "thenM (update_file i (insertSector a b))
      (bindM (file_at i) (\<lambda>f. whenM (isFirstWrite f) (thenM (update_file i registerFirstWrite)
        (thenM (write_file_location E p) (updateDirectory E tid p)))))"
  obtain y u where u: "registerProducedFile tid p s = Inr (y, u)" "?rest u = Inr (x, t)"
    using iffD1 [OF bindM_Inr_iff assms(2) [unfolded register_written_data_def thenM_def [of "registerProducedFile tid p"]]]
    by (elim exE conjE)
  have k: "keepsM (produces tid p) ?rest" by (intro keeps_intros produces_basic produces_directory)
  show ?thesis by (rule keepsMD [OF k produces_registered [OF assms(1) u(1)] u(2)])
qed

lemma read_from_queue_run:
  assumes "s_files s i = Some f" and "s_data_buffers s tid = Some (q, ds)"
    and "queue_read sq_read1 (sq_elem_size q) (nat count) q = Some (xs, q')" and "store_at off xs f = Inr g"
  shows "read_from_queue tid i off count s =
    Inr ((), s\<lparr>s_data_buffers := (s_data_buffers s)(tid \<mapsto> (q', ds)), s_files := (s_files s)(i \<mapsto> g)\<rparr>)"
  using assms
  by (simp add: read_from_queue_def getClientToServerDataBuffers_def readFromQueue_def file_at_def
      set_ClientToServer_def set_file_def monad_simps)

text \<open>What a write finds: an open descriptor, a well formed file and the bytes in the queue.\<close>

definition write_ready ::
    "env \<Rightarrow> server \<Rightarrow> int \<Rightarrow> int \<Rightarrow> path \<Rightarrow> nat \<Rightarrow> capio_file \<Rightarrow> off64 \<Rightarrow> cell list \<Rightarrow> slot_queue \<Rightarrow> cell list list \<Rightarrow> bool" where
  "write_ready E s tid fd p i f off xs q' ds \<longleftrightarrow>
     fd_at s tid fd p i f off \<and> 0 \<le> off \<and> file_wf f \<and> valid_request f \<and> nonneg_quota (env_quota E) \<and>
     storage_find (get_parent_dir_path p) s \<noteq> Some i \<and>
     (\<exists>q. s_data_buffers s tid = Some (q, ds) \<and>
        queue_read sq_read1 (sq_elem_size q) (length xs) q = Some (xs, q'))"

text \<open>A file whose data is on the heap, and a system that grants all memory.\<close>

definition in_heap :: "capio_file \<Rightarrow> bool" where
  "in_heap f \<longleftrightarrow> \<not> f_permanent f \<and> buf_storage (f_buffer f) = HeapStorageInterface"

definition grants :: "sys \<Rightarrow> bool" where
  "grants S \<longleftrightarrow> (\<forall>n. sys_new S n)"

lemma copy_sectors_no_exit: "copy_sectors d ss nb = Inl e \<Longrightarrow> e \<noteq> ErrExit \<and> (\<forall>c. e \<noteq> Throws c)"
  by (induction ss arbitrary: nb) (auto simp: copy_sector_def Let_def split: if_splits option.splits sum.splits)

lemma prepare_buffer_granted:
  assumes "grants S" and "in_heap f" and "file_wf f" and "nonneg_quota quota" and "valid_request f"
  shows "\<exists>f1. prepare_buffer home S quota path n f = Inr f1 \<and> in_heap f1"
proof -
  have q: "0 \<le> quota (f_requested_size f)" using assms(4,5) unfolding nonneg_quota_def valid_request_def by metis
  have "\<exists>f1. createBuffer S quota path home f = Inr f1 \<and> in_heap f1"
    using assms(1,2) q
    by (simp add: createBuffer_def in_heap_def grants_def buf_allocate_def heap_allocate_def new_char_def HeapBuffer_def
        buf_empty_def Let_def)
  then obtain f1 where f1: "createBuffer S quota path home f = Inr f1" "in_heap f1" by blast
  show ?thesis
  proof (cases "getBufSize f1 < n")
    case False
    then show ?thesis using f1 by (simp add: prepare_buffer_def)
  next
    case True
    have "prepare_buffer home S quota path n f = expandBuffer S quota n f1" using f1 True by (simp add: prepare_buffer_def)
    moreover have "prepare_buffer home S quota path n f \<noteq> Inl e" for e
    proof
      assume "prepare_buffer home S quota path n f = Inl e"
      then have e: "expandBuffer S quota n f1 = Inl e" "e = ErrExit \<or> (\<exists>c. e = Throws c)"
        using prepare_buffer_ok [OF assms(3,4,5), where home = home and S = S and path = path and n = n] calculation by auto
      let ?n = "max n (quota (buf_size (f_buffer f1) * 2))"
      have "file_wf f1 \<and> \<not> buf_empty (f_buffer f1)" using createBuffer_ok [OF f1(1) assms(3,4,5)] by blast
      then have "0 \<le> getBufSize f1" by (auto simp: file_wf_def buf_wf_def getBufSize_def buf_empty_def)
      then have "0 \<le> n" using True by simp
      then have "new_char S ?n = Inr (replicate (nat ?n) None)" using assms(1) by (simp add: new_char_def grants_def)
      then have "copy_sectors (buf_data (f_buffer f1)) (f_sectors f1) (replicate (nat ?n) None) = Inl e"
        using e(1) f1(2)
        by (auto simp: expandBuffer_def buf_grow_def heap_grow_def in_heap_def Let_def split: sum.splits)
      then show False using copy_sectors_no_exit e(2) by blast
    qed
    moreover have "in_heap f2" if "expandBuffer S quota n f1 = Inr f2" for f2
      using that f1(2) by (auto simp: expandBuffer_def buf_grow_def heap_grow_def in_heap_def Let_def split: sum.splits)
    ultimately show ?thesis by (metis sum.exhaust)
  qed
qed

lemmas prepare_write_granted = prepare_buffer_granted [where home = True]

text \<open>A write up to the point where it takes its bytes from the queue.\<close>

lemma write_handler_prepared:
  assumes fd: "fd_at s tid fd p i f off" and q: "s_data_buffers s tid = Some (q, ds)"
    and range: "in_range 32 tid" "in_range 32 fd" "in_range 64 n"
  shows "write_handler E (tl (show_args [IntA tid, IntA fd, IntA n])) s =
    (case prepare_write (env_sys E) (env_quota E) p (off + n) f of
       Inl e \<Rightarrow> Inl e
     | Inr f1 \<Rightarrow> thenM (read_from_queue tid i off n) (thenM (register_written_data E tid p i off (off + n))
         (bindM (setFileOffset tid fd (off + n)) (\<lambda>_. returnM ()))) (s\<lparr>s_files := (s_files s)(i \<mapsto> f1)\<rparr>))"
proof -
  have sc: "scan (tl (show_args [IntA tid, IntA fd, IntA n])) [Conv_d, Conv_d, Conv_ld] =
      (returnM [IntA tid, IntA fd, IntA n] :: arg list srv)"
    by (rule scan_tl_show_args) (simp add: range)
  have c2s: "getClientToServerDataBuffers tid s = Inr (q, s)"
    using q by (simp add: getClientToServerDataBuffers_def monad_simps)
  have fi: "s_files s i = Some f" using fd by (simp add: fd_at_def)
  have "write_handler E (tl (show_args [IntA tid, IntA fd, IntA n])) s =
      thenM (try_update_file i (createBuffer (env_sys E) (env_quota E) p True))
        (bindM (file_at i) (\<lambda>f. thenM (whenM (getBufSize f < off + n)
           (try_update_file i (expandBuffer (env_sys E) (env_quota E) (off + n))))
           (thenM (read_from_queue tid i off n) (thenM (register_written_data E tid p i off (off + n))
             (bindM (setFileOffset tid fd (off + n)) (\<lambda>_. returnM ())))))) s"
    unfolding write_handler_def sc
    by (simp add: bindM_def [of "getFileOffset tid fd"] bindM_def [of "getPath tid fd"] bindM_def [of "get_file p"]
        bindM_def [of "getClientToServerDataBuffers tid"] fd_at_lookups [OF fd] c2s int_arg_def Let_def)
  also have "\<dots> = (case prepare_write (env_sys E) (env_quota E) p (off + n) f of
       Inl e \<Rightarrow> Inl e
     | Inr f1 \<Rightarrow> thenM (read_from_queue tid i off n) (thenM (register_written_data E tid p i off (off + n))
         (bindM (setFileOffset tid fd (off + n)) (\<lambda>_. returnM ()))) (s\<lparr>s_files := (s_files s)(i \<mapsto> f1)\<rparr>))"
    by (rule prepare_run [OF fi])
  finally show ?thesis .
qed

text \<open>\<open>g\<close> is \<open>f\<close> after the bytes \<open>xs\<close> have been stored at \<open>off\<close> and registered.\<close>

definition wrote :: "env \<Rightarrow> capio_file \<Rightarrow> off64 \<Rightarrow> cell list \<Rightarrow> capio_file \<Rightarrow> bool" where
  "wrote E f off xs g \<longleftrightarrow> file_wf g \<and> written f off xs g \<and> valid_request g \<and> \<not> isFirstWrite g \<and>
     (grants (env_sys E) \<and> in_heap f \<longrightarrow> in_heap g) \<and> (xs \<noteq> [] \<longrightarrow> off + int (length xs) \<le> getSectorEnd off g)"

text \<open>Bytes stored in a prepared file and registered: what the write and the copy of a client have in common.\<close>

lemma stored_and_registered:
  assumes f: "file_wf f" "valid_request f" and quota: "nonneg_quota (env_quota E)" and off: "0 \<le> off"
    and prepared: "prepare_write (env_sys E) (env_quota E) p (off + int (length xs)) f = Inr f1"
  defines "n \<equiv> int (length xs)"
  obtains f2 where "store_at off xs f1 = Inr f2"
    and "\<And>s. s_files s i = Some f2 \<Longrightarrow> storage_find (get_parent_dir_path p) s \<noteq> Some i \<Longrightarrow>
      case register_written_data E tid p i off (off + n) s of
        Inl e \<Rightarrow> isFirstWrite f
      | Inr (_, t) \<Rightarrow> \<exists>g. frame i (s\<lparr>s_files := (s_files s)(i \<mapsto> g)\<rparr>) t \<and> wrote E f off xs g"
proof -
  note prep = prepare_write_ok [OF f(1) quota f(2), where S = "env_sys E" and path = p and n = "off + n"]
  have f1: "file_wf f1" "\<not> buf_empty (f_buffer f1)" "off + n \<le> getBufSize f1" "f_sectors f1 = f_sectors f"
    "byte_at f1 = byte_at f" using prep prepared by (simp_all add: n_def)
  obtain f2 where f2: "store_at off xs f1 = Inr f2" "file_wf (insertSector off (off + n) f2)"
    "f_sectors f2 = f_sectors f1" "written f1 off xs (insertSector off (off + n) f2)"
    using store_insert_ok [OF f1(1,2) off f1(3) [unfolded n_def]] unfolding n_def by blast
  have first: "f_first_write f2 = isFirstWrite f" and size2: "f_requested_size f2 = f_requested_size f"
    using prepare_same_flags [OF prepared] same_flags_kept(3) [OF f2(1)] by (simp_all add: isFirstWrite_def same_flags_def)
  have heap: "grants (env_sys E) \<and> in_heap f \<longrightarrow> in_heap f2"
    using prepare_write_granted [OF _ _ f(1) quota f(2), of "env_sys E" p "off + n"] prepared same_flags_kept(3) [OF f2(1)] f2(1)
    by (auto simp: in_heap_def store_at_def n_def split: if_splits option.splits)
  have kept: "wrote E f off xs g"
    if g: "same_storage (insertSector off (off + n) f2) g" "\<not> f_first_write g" "f_requested_size g = f_requested_size f2"
      "f_permanent g = f_permanent f2" for g
    unfolding wrote_def
  proof (intro conjI)
    show "file_wf g" "written f off xs g"
      using f2(2,4) g(1) f1(4,5) by (auto simp: same_storage_def file_wf_def written_def byte_at_def)
    show "valid_request g" "\<not> isFirstWrite g" using f(2) g(2,3) size2 by (simp_all add: valid_request_def isFirstWrite_def)
    show "grants (env_sys E) \<and> in_heap f \<longrightarrow> in_heap g"
      using heap g(1,4) by (simp add: in_heap_def same_storage_def insertSector_def)
    show "xs \<noteq> [] \<longrightarrow> off + int (length xs) \<le> getSectorEnd off g"
      using ss_index.inserted_run [of "f_sectors f2" off "off + n"] f1(1) f2(3) off g(1)
      by (simp add: getSectorEnd_def insertSector_def file_wf_def n_def same_storage_def)
  qed
  show thesis
  proof (rule that [OF f2(1)])
    fix s assume "s_files s i = Some f2" and "storage_find (get_parent_dir_path p) s \<noteq> Some i"
    note reg = register_written_run [OF this, where E = E and tid = tid and a = off and b = "off + n"]
    show "case register_written_data E tid p i off (off + n) s of
        Inl e \<Rightarrow> isFirstWrite f
      | Inr (_, t) \<Rightarrow> \<exists>g. frame i (s\<lparr>s_files := (s_files s)(i \<mapsto> g)\<rparr>) t \<and> wrote E f off xs g"
    proof (cases "register_written_data E tid p i off (off + n) s")
      case (Inl e)
      then show ?thesis using reg first by simp
    next
      case (Inr xt)
      then show ?thesis using reg kept by (cases xt) auto
    qed
  qed
qed

lemma write_handler_run:
  assumes ready: "write_ready E s tid fd p i f off xs q' ds"
    and range: "in_range 32 tid" "in_range 32 fd" "in_range 64 (int (length xs))"
  defines "n \<equiv> int (length xs)"
  shows "case write_handler E (tl (show_args [IntA tid, IntA fd, IntA n])) s of
      Inl e \<Rightarrow> isFirstWrite f \<or> prepare_write (env_sys E) (env_quota E) p (off + n) f = Inl e
    | Inr (_, t) \<Rightarrow> \<exists>g. fd_at t tid fd p i g (off + n) \<and> file_wf g \<and> written f off xs g \<and>
        valid_request g \<and> \<not> isFirstWrite g \<and> (grants (env_sys E) \<and> in_heap f \<longrightarrow> in_heap g) \<and>
        (xs \<noteq> [] \<longrightarrow> off + n \<le> getSectorEnd off g) \<and> s_data_buffers t tid = Some (q', ds) \<and> s_storage t = s_storage s \<and>
        s_responses t = s_responses s \<and> (s_by_producer s tid \<noteq> None \<longrightarrow> produces tid p t)"
proof -
  have fd: "fd_at s tid fd p i f off" and off: "0 \<le> off" and f: "file_wf f" "valid_request f"
    and quota: "nonneg_quota (env_quota E)" and dir: "storage_find (get_parent_dir_path p) s \<noteq> Some i"
    using ready by (simp_all add: write_ready_def)
  obtain q where q: "s_data_buffers s tid = Some (q, ds)"
    "queue_read sq_read1 (sq_elem_size q) (length xs) q = Some (xs, q')"
    using ready by (auto simp: write_ready_def)
  note w = write_handler_prepared [OF fd q(1) range [folded n_def], of E]
  show ?thesis
  proof (cases "prepare_write (env_sys E) (env_quota E) p (off + n) f")
    case (Inl e)
    then show ?thesis using w by simp
  next
    case (Inr f1)
    obtain f2 where f2: "store_at off xs f1 = Inr f2"
      and reg: "\<And>s. s_files s i = Some f2 \<Longrightarrow> storage_find (get_parent_dir_path p) s \<noteq> Some i \<Longrightarrow>
        case register_written_data E tid p i off (off + n) s of
          Inl e \<Rightarrow> isFirstWrite f
        | Inr (_, t) \<Rightarrow> \<exists>g. frame i (s\<lparr>s_files := (s_files s)(i \<mapsto> g)\<rparr>) t \<and> wrote E f off xs g"
      using stored_and_registered [OF f quota off Inr [unfolded n_def], where i = i and tid = tid, folded n_def] by blast
    let ?s2 = "s\<lparr>s_files := (s_files s)(i \<mapsto> f2), s_data_buffers := (s_data_buffers s)(tid \<mapsto> (q', ds))\<rparr>"
    have r: "read_from_queue tid i off n (s\<lparr>s_files := (s_files s)(i \<mapsto> f1)\<rparr>) = Inr ((), ?s2)"
      using read_from_queue_run [where s = "s\<lparr>s_files := (s_files s)(i \<mapsto> f1)\<rparr>" and count = n and f = f1,
          OF _ _ _ f2] q by (simp add: n_def)
    have reg2: "case register_written_data E tid p i off (off + n) ?s2 of
          Inl e \<Rightarrow> isFirstWrite f
        | Inr (_, t) \<Rightarrow> \<exists>g. frame i (?s2\<lparr>s_files := (s_files ?s2)(i \<mapsto> g)\<rparr>) t \<and> wrote E f off xs g"
      by (rule reg) (use dir in \<open>simp_all add: storage_find_def\<close>)
    show ?thesis
    proof (cases "register_written_data E tid p i off (off + n) ?s2")
      case Inl': (Inl e)
      then show ?thesis using w Inr r reg2 by (simp add: thenM_def bindM_def)
    next
      case Inr': (Inr xt)
      then obtain x t where t: "register_written_data E tid p i off (off + n) ?s2 = Inr (x, t)" by (cases xt) simp
      then obtain g where g: "frame i (?s2\<lparr>s_files := (s_files ?s2)(i \<mapsto> g)\<rparr>) t" "wrote E f off xs g" using reg2 by auto
      have "fd_at t tid fd p i g off" by (rule fd_at_cong [OF fd]) (use g(1) in \<open>simp_all add: frame_def\<close>)
      then obtain os where os: "setFileOffset tid fd (off + n) t = Inr (off + n, t\<lparr>s_offsets := os\<rparr>)"
        "fd_at (t\<lparr>s_offsets := os\<rparr>) tid fd p i g (off + n)" by (rule setFileOffset_run)
      have "write_handler E (tl (show_args [IntA tid, IntA fd, IntA n])) s = Inr ((), t\<lparr>s_offsets := os\<rparr>)"
        using w Inr r t os(1) by (simp add: thenM_def bindM_def returnM_def)
      moreover have "s_by_producer s tid \<noteq> None \<longrightarrow> produces tid p (t\<lparr>s_offsets := os\<rparr>)"
        using produces_register_written [OF _ t] by (auto simp: produces_def)
      ultimately show ?thesis using os(2) g by (auto simp: frame_def wrote_def n_def)
    qed
  qed
qed

text \<open>A write whose bytes are not there yet waits, with nothing changed, unless the memory is refused.\<close>

lemma write_handler_waits:
  assumes "fd_at s tid fd p i f off" and "s_data_buffers s tid = Some (q, ds)" and "sq_slots q = []" and "0 < sq_elem_size q"
    and "in_range 32 tid" "in_range 32 fd" "in_range 64 n" and "0 < n"
  shows "\<exists>e. write_handler E (tl (show_args [IntA tid, IntA fd, IntA n])) s = Inl e \<and>
    (e = Blocked \<or> prepare_write (env_sys E) (env_quota E) p (off + n) f = Inl e)"
proof (cases "prepare_write (env_sys E) (env_quota E) p (off + n) f")
  case (Inl e)
  then show ?thesis using write_handler_prepared [OF assms(1,2,5-7)] by auto
next
  case (Inr f1)
  have none: "queue_read sq_read1 (sq_elem_size q) (nat n) q = None"
  proof (cases "nat n div sq_elem_size q")
    case 0
    then have "nat n < sq_elem_size q" using assms(4) by (simp add: div_eq_0_iff)
    then show ?thesis using 0 assms(3,8) by (simp add: queue_read_def sq_read1_def)
  qed (use assms(3) in \<open>simp add: queue_read_def sq_read1_def\<close>)
  then have "read_from_queue tid i off n (s\<lparr>s_files := (s_files s)(i \<mapsto> f1)\<rparr>) = Inl Blocked"
    using assms(2) by (simp add: read_from_queue_def getClientToServerDataBuffers_def readFromQueue_def file_at_def monad_simps)
  then show ?thesis using write_handler_prepared [OF assms(1,2,5-7)] Inr by (simp add: thenM_def bindM_def)
qed

section \<open>Properties\<close>

lemma read_handler_producer:
  assumes "fd_at s tid fd p i f off" and "produces tid p s" and "in_range 32 tid" "in_range 32 fd" "in_range 64 n"
  shows "capio_server E (request_text CAPIO_REQUEST_READ [IntA tid, IntA fd, IntA n]) s =
    handle_local_read E tid fd n True s"
proof -
  have "scan (tl (show_args [IntA tid, IntA fd, IntA n])) [Conv_d, Conv_d, Conv_ld] =
      (returnM [IntA tid, IntA fd, IntA n] :: arg list srv)"
    by (rule scan_tl_show_args) (simp add: assms)
  then have "capio_server E (request_text CAPIO_REQUEST_READ [IntA tid, IntA fd, IntA n]) = handle_read E tid fd n"
    by (simp add: capio_server_request request_codes request_handlers_def read_handler_def int_arg_def)
  moreover obtain app where app: "getAppName tid s = Inr (app, s)" by (simp add: getAppName_def getsM_def)
  moreover have "isProducer tid p s = Inr (True, s)"
    using assms(2) app by (auto simp: isProducer_def produces_def monad_simps)
  moreover obtain l where "get_file_location_opt p s = Inr (l, s)" by (simp add: get_file_location_opt_def getsM_def)
  ultimately show ?thesis
    by (simp add: handle_read_def bindM_def fd_at_lookups [OF assms(1)] returnM_def)
qed

lemma lseek_run:
  assumes "fd_at s tid fd p i f off" and "can_reply s tid rs q ds"
    and "in_range 32 tid" "in_range 32 fd" "in_range 64 n"
  obtains os where "capio_server E (request_text CAPIO_REQUEST_SEEK [IntA tid, IntA fd, IntA n]) s =
      Inr ((), s\<lparr>s_offsets := os, s_responses := (s_responses s)(tid \<mapsto> rs @ [n])\<rparr>)"
    and "fd_at (s\<lparr>s_offsets := os, s_responses := (s_responses s)(tid \<mapsto> rs @ [n])\<rparr>) tid fd p i f n"
proof -
  have "scan (tl (show_args [IntA tid, IntA fd, IntA n])) [Conv_d, Conv_d, Conv_ld] =
      (returnM [IntA tid, IntA fd, IntA n] :: arg list srv)"
    by (rule scan_tl_show_args) (simp add: assms)
  then have "capio_server E (request_text CAPIO_REQUEST_SEEK [IntA tid, IntA fd, IntA n]) = handle_lseek tid fd n"
    by (simp add: capio_server_request request_codes request_handlers_def lseek_handler_def int_arg_def)
  moreover obtain os where os: "setFileOffset tid fd n s = Inr (n, s\<lparr>s_offsets := os\<rparr>)"
    "fd_at (s\<lparr>s_offsets := os\<rparr>) tid fd p i f n" by (rule setFileOffset_run [OF assms(1)])
  moreover have "fd_at (s\<lparr>s_offsets := os, s_responses := (s_responses s)(tid \<mapsto> rs @ [n])\<rparr>) tid fd p i f n"
    by (rule fd_at_cong [OF os(2)]) (use assms(1) in \<open>simp_all add: fd_at_def\<close>)
  ultimately show ?thesis
    using assms(2) by (intro that [of os]) (simp_all add: handle_lseek_def bindM_def replyToClient_def can_reply_def monad_simps)
qed

lemma reads_unique:
  assumes "reads g off ys" and "written f off xs g" and "length ys = length xs"
  shows "ys = xs"
proof (rule nth_equalityI [OF assms(3)])
  fix k assume k: "k < length ys"
  then have "byte_at g (off + int k) = Some (xs ! nat (off + int k - off))"
    using assms(2,3) unfolding written_def by simp
  then show "ys ! k = xs ! k" using assms(1) k by (simp add: reads_def)
qed

text \<open>
  C5: A write request on an open file stores the bytes the client put into its queue: it ends
  the server or throws only when the memory is refused or the directory cannot be updated, and
  otherwise the file is well formed, holds the bytes at the offset of the descriptor and all
  other bytes unchanged, the bytes are taken from the queue, the offset moves behind them, and the
  client is a producer of the file.
\<close>

theorem write_request_stores_bytes:
  assumes "write_ready E s tid fd p i f off xs q' ds"
    and "in_range 32 tid" and "in_range 32 fd" and "in_range 64 (int (length xs))"
  shows "case capio_server E (request_text CAPIO_REQUEST_WRITE [IntA tid, IntA fd, IntA (int (length xs))]) s of
      Inl e \<Rightarrow> isFirstWrite f \<or> e = ErrExit \<or> (\<exists>c. e = Throws c)
    | Inr (_, t) \<Rightarrow> \<exists>g. fd_at t tid fd p i g (off + int (length xs)) \<and> file_wf g \<and> written f off xs g \<and>
        s_data_buffers t tid = Some (q', ds) \<and> (s_by_producer s tid \<noteq> None \<longrightarrow> produces tid p t)"
proof -
  have "capio_server E (request_text CAPIO_REQUEST_WRITE [IntA tid, IntA fd, IntA (int (length xs))]) =
      write_handler E (tl (show_args [IntA tid, IntA fd, IntA (int (length xs))]))"
    by (simp add: capio_server_request request_codes request_handlers_def)
  moreover have "e = ErrExit \<or> (\<exists>c. e = Throws c)"
    if "prepare_write (env_sys E) (env_quota E) p (off + int (length xs)) f = Inl e" for e
    using prepare_write_ok [where f = f and S = "env_sys E" and quota = "env_quota E" and path = p and n = "off + int (length xs)"]
      assms(1) that by (simp add: write_ready_def)
  ultimately show ?thesis using write_handler_run [OF assms] by (auto split: sum.splits)
qed

text \<open>
  C3: A client reads what it wrote: after a successful write request, a seek back to the offset
  of the write and a read request of the same length deliver exactly the written bytes.
\<close>

theorem read_your_writes:
  assumes "write_ready E s tid fd p i f off xs q' ds" and "xs \<noteq> []"
    and "in_range 32 tid" and "in_range 32 fd" and "in_range 64 (int (length xs))" and "in_range 64 off"
    and "s_responses s tid = Some rs" and "length rs + 1 < CAPIO_REQ_BUFF_CNT" and "s_by_producer s tid \<noteq> None"
    and "capio_server E (request_text CAPIO_REQUEST_WRITE [IntA tid, IntA fd, IntA (int (length xs))]) s = Inr (x, t)"
  shows "\<exists>u v. capio_server E (request_text CAPIO_REQUEST_SEEK [IntA tid, IntA fd, IntA off]) t = Inr ((), u) \<and>
    capio_server E (request_text CAPIO_REQUEST_READ [IntA tid, IntA fd, IntA (int (length xs))]) u = Inr ((), v) \<and>
    s_data_buffers v tid = Some (q', ds @ [xs]) \<and>
    s_responses v tid = Some (rs @ [off, off + int (length xs)])"
proof -
  let ?n = "int (length xs)"
  have "write_handler E (tl (show_args [IntA tid, IntA fd, IntA ?n])) s = Inr (x, t)"
    using assms(10) by (simp add: capio_server_request request_codes request_handlers_def)
  then obtain g where g: "fd_at t tid fd p i g (off + ?n)" "file_wf g" "written f off xs g"
    "off + ?n \<le> getSectorEnd off g" "s_data_buffers t tid = Some (q', ds)" "s_responses t = s_responses s"
    "produces tid p t"
    using write_handler_run [OF assms(1,3,4,5)] assms(2,9) by auto
  have off: "0 \<le> off" using assms(1) by (simp add: write_ready_def)
  have "can_reply t tid rs q' ds" using g(5,6) assms(7,8) by (simp add: can_reply_def)
  then obtain os where u: "capio_server E (request_text CAPIO_REQUEST_SEEK [IntA tid, IntA fd, IntA off]) t =
      Inr ((), t\<lparr>s_offsets := os, s_responses := (s_responses t)(tid \<mapsto> rs @ [off])\<rparr>)"
    "fd_at (t\<lparr>s_offsets := os, s_responses := (s_responses t)(tid \<mapsto> rs @ [off])\<rparr>) tid fd p i g off"
    using lseek_run [OF g(1) _ assms(3,4,6)] by blast
  let ?u = "t\<lparr>s_offsets := os, s_responses := (s_responses t)(tid \<mapsto> rs @ [off])\<rparr>"
  have cr: "can_reply ?u tid (rs @ [off]) q' ds" using g(5) assms(8) by (simp add: can_reply_def)
  have nf: "getSectorEnd off g \<noteq> CAPIO_SECTOR_NOT_FOUND" using g(4) off by (simp add: CAPIO_SECTOR_NOT_FOUND_def)
  have n0: "0 \<le> ?n" and complete: "isCommitted g \<or> True \<or> cl_isFirable E p \<and> off + ?n \<le> getSectorEnd off g"
    by simp_all
  obtain ys os' where ys: "handle_local_read E tid fd ?n True ?u =
      Inr ((), ?u\<lparr>s_responses := (s_responses ?u)(tid \<mapsto> (rs @ [off]) @ [off + int (length ys)]),
        s_data_buffers := (s_data_buffers ?u)(tid \<mapsto> (q', ds @ [ys])), s_offsets := os'\<rparr>)"
    "int (length ys) = min ?n (getSectorEnd off g - off)" "reads g off ys"
    using local_read_served [OF u(2) cr g(2) off n0 nf complete] by blast
  have "ys = xs" by (rule reads_unique [OF ys(3) g(3)]) (use ys(2) g(4) in simp)
  moreover have "produces tid p ?u" using g(7) by (simp add: produces_def)
  ultimately show ?thesis
    using u(1) ys(1) read_handler_producer [OF u(2) _ assms(3,4,5), of E] by simp
qed

text \<open>A client about to write two bytes.\<close>

definition two_bytes :: slot_queue where
  "two_bytes = \<lparr>sq_slots = [[Some 1, Some 2, None, None, None, None, None, None]], sq_cap = 4, sq_elem_size = 8\<rparr>"

definition small_file :: capio_file where
  "small_file = registerFirstWrite (addFd 7 3 (file_open (CapioFile_dir False 0 False 16 0)))"

definition writing :: server where
  "writing = opened\<lparr>s_responses := [7 \<mapsto> []], s_files := [0 \<mapsto> small_file], s_data_buffers := [7 \<mapsto> (two_bytes, [])]\<rparr>"

lemmas writing_defs = writing_def opened_def connected_def server_init_def

lemma writing_ready:
  "write_ready (env_example ''b'') writing 7 3 ''/x'' 0 small_file 0 [Some 1, Some 2] (two_bytes\<lparr>sq_slots := []\<rparr>) []"
proof -
  have "get_parent_dir_path ''/x'' = []" by (simp add: get_parent_dir_path_def rfind_char_def upt_rec)
  then show ?thesis
  by (simp add: write_ready_def fd_at_def storage_find_def writing_defs small_file_def valid_request_def CapioFile_dir_def
      CapioFile_default_def registerFirstWrite_def addFd_def file_open_def nonneg_quota_def env_example_def two_bytes_def
      queue_read_def sq_read1_def file_wf_default [unfolded CapioFile_default_def, THEN file_wf_same_storage [rotated]] same_storage_def)
qed

lemma writing_run:
  "\<exists>t. capio_server (env_example ''b'') (request_text CAPIO_REQUEST_WRITE [IntA 7, IntA 3, IntA 2]) writing = Inr ((), t)"
proof -
  have "scan (tl (show_args [IntA 7, IntA 3, IntA 2])) [Conv_d, Conv_d, Conv_ld] =
      (returnM [IntA 7, IntA 3, IntA 2] :: arg list srv)"
    by (rule scan_tl_show_args) (simp add: in_range_def)
  then show ?thesis
    by (simp add: capio_server_request request_codes request_handlers_def write_handler_def getFileOffset_def getPath_def
       fd_entry_def fd_find_def get_file_def getClientToServerDataBuffers_def try_update_file_def createBuffer_def
       small_file_def CapioFile_dir_def CapioFile_default_def registerFirstWrite_def HeapBuffer_def buf_empty_def
       buf_allocate_def heap_allocate_def new_char_def sys_ok_def getBufSize_def read_from_queue_def readFromQueue_def
       queue_read_def sq_read1_def two_bytes_def store_at_def getBuffer_def register_written_data_def registerProducedFile_def
       getAppName_def insertSector_def isFirstWrite_def setFileOffset_def set_ClientToServer_def
       addFd_def file_open_def writing_defs env_example_def open_defs monad_simps Let_def)
qed

theorem write_request_stores_bytes_witness:
  "\<exists>t g. capio_server (env_example ''b'') (request_text CAPIO_REQUEST_WRITE [IntA 7, IntA 3, IntA 2]) writing = Inr ((), t) \<and>
     fd_at t 7 3 ''/x'' 0 g 2 \<and> file_wf g \<and> written small_file 0 [Some 1, Some 2] g"
proof -
  obtain t where t: "capio_server (env_example ''b'') (request_text CAPIO_REQUEST_WRITE [IntA 7, IntA 3, IntA 2]) writing = Inr ((), t)"
    using writing_run by blast
  then show ?thesis
    using write_request_stores_bytes [OF writing_ready] by (auto simp: in_range_def)
qed

theorem read_your_writes_witness:
  "\<exists>t u v. capio_server (env_example ''b'') (request_text CAPIO_REQUEST_WRITE [IntA 7, IntA 3, IntA 2]) writing = Inr ((), t) \<and>
     capio_server (env_example ''b'') (request_text CAPIO_REQUEST_SEEK [IntA 7, IntA 3, IntA 0]) t = Inr ((), u) \<and>
     capio_server (env_example ''b'') (request_text CAPIO_REQUEST_READ [IntA 7, IntA 3, IntA 2]) u = Inr ((), v) \<and>
     s_data_buffers v 7 = Some (two_bytes\<lparr>sq_slots := []\<rparr>, [[Some 1, Some 2]])"
proof -
  obtain t where t: "capio_server (env_example ''b'') (request_text CAPIO_REQUEST_WRITE [IntA 7, IntA 3, IntA 2]) writing = Inr ((), t)"
    using writing_run by blast
  have "s_responses writing 7 = Some []" "s_by_producer writing 7 \<noteq> None" by (simp_all add: writing_defs)
  then show ?thesis
    using t read_your_writes [OF writing_ready, of "[]" "()" t] by (auto simp: in_range_def CAPIO_REQ_BUFF_CNT_def)
qed

end
