(* ===== verification/Machine.thy ===== *)
theory Machine
  imports Session Posix_Tables Server_Data
begin

text \<open>
  The library and the server together: a node on which one application thread runs against the
  server, with the queues between them.

  \<open>machine\<close> is the world of the library. A request is put behind those that wait and the server
  takes requests as long as it can go on; a handler that waits for data leaves its request where
  it is and starts again when the data is there. While the thread waits for an answer the threads of
  the server that can proceed do so. The data queue from the client is the one the server
  holds; the messages to the client are seen as slots of a line each. The rest of the host is a kernel
  that knows of descriptors only.
\<close>

section \<open>Descriptors of the kernel\<close>

text \<open>The lowest descriptor from \<open>lo\<close> on that is not in use.\<close>

definition free_fd :: "int \<Rightarrow> int list \<Rightarrow> int" where
  "free_fd lo fds = the (find (\<lambda>n. n \<notin> set fds) (map (\<lambda>k. lo + int k) [0..<Suc (length fds)]))"

lemma free_fd: "lo \<le> free_fd lo fds" "free_fd lo fds \<notin> set fds"
proof -
  let ?c = "map (\<lambda>k. lo + int k) [0..<Suc (length fds)]"
  have "distinct ?c" by (auto simp: distinct_map inj_on_def)
  then have "card (set ?c) = Suc (length fds)" by (simp only: distinct_card) simp
  moreover have "card (set fds) \<le> length fds" by (rule card_length)
  ultimately have "\<not> set ?c \<subseteq> set fds" using card_mono [of "set fds" "set ?c"] by auto
  then have "find (\<lambda>n. n \<notin> set fds) ?c \<noteq> None" unfolding find_None_iff by blast
  then obtain n where n: "find (\<lambda>n. n \<notin> set fds) ?c = Some n" by blast
  then have "n \<notin> set fds \<and> n \<in> set ?c" unfolding find_Some_iff using nth_mem by blast
  then show "lo \<le> free_fd lo fds" "free_fd lo fds \<notin> set fds" unfolding free_fd_def n by auto
qed

section \<open>The machine\<close>

record machine =
  m_server :: server
  m_pending :: "string list"
  m_fds :: "int list"

text \<open>The main loop of the server, up to a request that has to wait.\<close>

fun pump :: "env \<Rightarrow> string list \<Rightarrow> server \<Rightarrow> fault + string list \<times> server" where
  "pump E [] s = Inr ([], s)"
| "pump E (req # reqs) s =
     (case capio_server E req s of
        Inl e \<Rightarrow> if e = Blocked then Inr (req # reqs, s) else Inl e
      | Inr (_, t) \<Rightarrow> pump E reqs t)"

definition serve_requests :: "env \<Rightarrow> string list \<Rightarrow> machine \<Rightarrow> fault + machine" where
  "serve_requests E reqs m =
     (case pump E reqs (m_server m) of
        Inl e \<Rightarrow> Inl e
      | Inr (rest, s) \<Rightarrow> Inr (m\<lparr>m_server := s, m_pending := rest\<rparr>))"

definition put_request :: "env \<Rightarrow> string \<Rightarrow> machine \<Rightarrow> fault + machine" where
  "put_request E req m = serve_requests E (m_pending m @ [req]) m"

definition wake_server :: "env \<Rightarrow> machine \<Rightarrow> fault + machine" where
  "wake_server E m = serve_requests E (m_pending m) m"

fun run_ready :: "env \<Rightarrow> waiter list \<Rightarrow> unit srv" where
  "run_ready E [] = returnM ()"
| "run_ready E (w # ws) =
     bindM (getsM (waiter_ready E w)) (\<lambda>b.
       thenM (whenM b (thenM (modifyM (\<lambda>s. s\<lparr>s_waiting := remove1 w (s_waiting s)\<rparr>)) (run_waiter E w)))
         (run_ready E ws))"

definition pop_response :: "int \<Rightarrow> server \<Rightarrow> (off64 \<times> server) option" where
  "pop_response tid s =
     (case s_responses s tid of
        Some (v # vs) \<Rightarrow> Some (v, s\<lparr>s_responses := (s_responses s)(tid \<mapsto> vs)\<rparr>)
      | _ \<Rightarrow> None)"

definition take_response :: "env \<Rightarrow> int \<Rightarrow> machine \<Rightarrow> fault + off64 \<times> machine" where
  "take_response E tid m =
     (case pop_response tid (m_server m) of
        Some (v, s) \<Rightarrow> Inr (v, m\<lparr>m_server := s\<rparr>)
      | None \<Rightarrow>
          (case run_ready E (s_waiting (m_server m)) (m_server m) of
             Inl e \<Rightarrow> Inl e
           | Inr (_, s) \<Rightarrow>
               (case pop_response tid s of
                  Some (v, t) \<Rightarrow> Inr (v, m\<lparr>m_server := t\<rparr>)
                | None \<Rightarrow> Inl Blocked)))"

section \<open>The data queues\<close>

definition c2s :: "int \<Rightarrow> machine \<Rightarrow> slot_queue" where
  "c2s tid m = (case s_data_buffers (m_server m) tid of None \<Rightarrow> sq_new 0 0 | Some (q, _) \<Rightarrow> q)"

definition s2c :: "int \<Rightarrow> machine \<Rightarrow> cell list list" where
  "s2c tid m = (case s_data_buffers (m_server m) tid of None \<Rightarrow> [] | Some (_, ds) \<Rightarrow> ds)"

definition set_queues :: "int \<Rightarrow> slot_queue \<Rightarrow> cell list list \<Rightarrow> machine \<Rightarrow> machine" where
  "set_queues tid q ds m =
     m\<lparr>m_server := (m_server m)\<lparr>s_data_buffers := (s_data_buffers (m_server m))(tid \<mapsto> (q, ds))\<rparr>\<rparr>"

lemma set_queues_simps [simp]:
  "c2s tid (set_queues tid q ds m) = q" "s2c tid (set_queues tid q ds m) = ds"
  "set_queues tid q ds (set_queues tid q' ds' m) = set_queues tid q ds m"
  by (simp_all add: c2s_def s2c_def set_queues_def)

definition put_slot :: "int \<Rightarrow> cell list \<Rightarrow> machine \<Rightarrow> machine option" where
  "put_slot tid d m = map_option (\<lambda>q. set_queues tid q (s2c tid m) m) (sq_write1 d (c2s tid m))"

definition take_slot :: "int \<Rightarrow> nat \<Rightarrow> machine \<Rightarrow> (cell list \<times> machine) option" where
  "take_slot tid n m = map_option (\<lambda>(xs, q). (xs, set_queues tid q (s2c tid m) m)) (sq_read1 n (c2s tid m))"

text \<open>The slot was reserved before, so that there is room for it.\<close>

definition commit_slot :: "int \<Rightarrow> cell list \<Rightarrow> machine \<Rightarrow> fault + machine" where
  "commit_slot tid xs m = (case put_slot tid xs m of None \<Rightarrow> Inl NullDeref | Some m' \<Rightarrow> Inr m')"

definition room_for_slot :: "int \<Rightarrow> machine \<Rightarrow> machine option" where
  "room_for_slot tid m = (if length (sq_slots (c2s tid m)) < sq_cap (c2s tid m) then Some m else None)"

fun next_slot :: "nat \<Rightarrow> nat \<Rightarrow> cell list list \<Rightarrow> (cell list \<times> cell list list) option" where
  "next_slot es n [] = None"
| "next_slot es n (d # ds) =
     (if d = [] then next_slot es n ds
      else Some (take n (take es d @ replicate (es - length d) None), drop es d # ds))"

definition fetch_slot :: "int \<Rightarrow> nat \<Rightarrow> machine \<Rightarrow> (cell list \<times> machine) option" where
  "fetch_slot tid n m =
     map_option (\<lambda>(xs, ds). (xs, set_queues tid (c2s tid m) ds m)) (next_slot (sq_elem_size (c2s tid m)) n (s2c tid m))"

text \<open>The write queue of a thread, with all else fixed, is a queue of slots.\<close>

lemma take_slot_run:
  assumes "sq_wf es cap q" and "sq_slots q = e # r" and "n \<le> es"
  shows "\<exists>q'. take_slot tid n (set_queues tid q ds m0) = Some (take n e, set_queues tid q' ds m0) \<and> sq_wf es cap q' \<and> sq_slots q' = r"
  using slotq.rd_slot [OF assms] by (auto simp: take_slot_def)

lemma put_slot_run:
  assumes "sq_wf es cap q" and "length (sq_slots q) < cap" and "length d \<le> es"
  shows "\<exists>q' e. put_slot tid d (set_queues tid q ds m0) = Some (set_queues tid q' ds m0) \<and> sq_wf es cap q' \<and>
    sq_slots q' = sq_slots q @ [e] \<and> take (length d) e = d"
  using slotq.wr_slot [OF assms] by (auto simp: put_slot_def)

interpretation clientq: elem_queue es cap "\<lambda>m. \<exists>q. sq_wf es cap q \<and> m = set_queues tid q ds m0" "\<lambda>m. sq_slots (c2s tid m)"
    "take_slot tid" "put_slot tid" for es cap tid ds m0
proof unfold_locales
  fix m e r n assume "\<exists>q. sq_wf es cap q \<and> m = set_queues tid q ds m0" and "sq_slots (c2s tid m) = e # r" and "n \<le> es"
  then show "\<exists>m'. take_slot tid n m = Some (take n e, m') \<and> (\<exists>q. sq_wf es cap q \<and> m' = set_queues tid q ds m0) \<and> sq_slots (c2s tid m') = r"
    using take_slot_run [of es cap _ e r n tid ds m0] by fastforce
next
  fix m and d :: "cell list" assume "\<exists>q. sq_wf es cap q \<and> m = set_queues tid q ds m0" and "length (sq_slots (c2s tid m)) < cap" and "length d \<le> es"
  then show "\<exists>m' e. put_slot tid d m = Some m' \<and> (\<exists>q. sq_wf es cap q \<and> m' = set_queues tid q ds m0) \<and>
      sq_slots (c2s tid m') = sq_slots (c2s tid m) @ [e] \<and> take (length d) e = d"
    using put_slot_run [of es cap _ d tid ds m0] by fastforce
qed (auto simp: sq_wf_def take_slot_def put_slot_def sq_read1_def sq_write1_def)

section \<open>Slots of a message\<close>

lemma next_slot_empty: "concat ds = [] \<Longrightarrow> next_slot es n (ds @ [ys]) =
    (if ys = [] then None else Some (take n (take es ys @ replicate (es - length ys) None), [drop es ys]))"
  by (induction ds) auto

definition pending :: "cell list list \<Rightarrow> cell list \<Rightarrow> bool" where
  "pending ds ys \<longleftrightarrow> (\<exists>es. ds = es @ [ys] \<and> concat es = [])"

lemma fetch_slot_pending:
  assumes "pending ds ys" and "ys \<noteq> []" and "sq_elem_size q = es"
  shows "fetch_slot tid n (set_queues tid q ds m) =
    Some (take n (take es ys @ replicate (es - length ys) None), set_queues tid q [drop es ys] m)"
  using assms by (auto simp: pending_def fetch_slot_def next_slot_empty)

lemma read_slots_pending:
  assumes "pending ds ys" and "k * es \<le> length ys" and "0 < es" and "sq_elem_size q = es"
  shows "\<exists>ds'. read_slots (fetch_slot tid) k es (set_queues tid q ds m) = Some (take (k * es) ys, set_queues tid q ds' m) \<and>
    pending ds' (drop (k * es) ys)"
  using assms(1,2)
proof (induction k arbitrary: ds ys)
  case (Suc k)
  have le: "es \<le> length ys" "k * es \<le> length (drop es ys)" using Suc.prems(2) by simp_all
  then have ne: "ys \<noteq> []" using assms(3) by auto
  have "pending [drop es ys] (drop es ys)" by (auto simp: pending_def)
  then obtain ds' where "read_slots (fetch_slot tid) k es (set_queues tid q [drop es ys] m) =
      Some (take (k * es) (drop es ys), set_queues tid q ds' m)" "pending ds' (drop (k * es) (drop es ys))"
    using Suc.IH le(2) by blast
  then show ?case using fetch_slot_pending [OF Suc.prems(1) ne assms(4), of tid es m] le(1)
    by (intro exI [of _ ds']) (simp add: take_add add.commute)
qed auto

lemma queue_read_pending:
  assumes "pending ds ys" and "0 < es" and "sq_elem_size q = es"
  shows "\<exists>ds'. queue_read (fetch_slot tid) es (length ys) (set_queues tid q ds m) = Some (ys, set_queues tid q ds' m) \<and> concat ds' = []"
proof -
  let ?k = "length ys div es" and ?r = "length ys mod es"
  have le: "?k * es \<le> length ys" by simp
  obtain ds' where r: "read_slots (fetch_slot tid) ?k es (set_queues tid q ds m) = Some (take (?k * es) ys, set_queues tid q ds' m)"
    "pending ds' (drop (?k * es) ys)" using read_slots_pending [OF assms(1) le assms(2,3)] by blast
  have len: "length (drop (?k * es) ys) = ?r" by (simp add: minus_div_mult_eq_mod)
  show ?thesis
  proof (cases "?r = 0")
    case True
    then have "drop (?k * es) ys = []" "take (?k * es) ys = ys" using len by simp_all
    moreover from this have "concat ds' = []" using r(2) by (auto simp: pending_def)
    ultimately show ?thesis using r(1) True by (intro exI [of _ ds']) (simp add: queue_read_def)
  next
    case False
    then have ne: "drop (?k * es) ys \<noteq> []" using len by auto
    have "?r < es" using assms(2) by simp
    then have "take ?r (take es (drop (?k * es) ys) @ replicate (es - length (drop (?k * es) ys)) None) = drop (?k * es) ys"
      "drop es (drop (?k * es) ys) = []" using len by simp_all
    then show ?thesis using fetch_slot_pending [OF r(2) ne assms(3), of tid ?r m] r(1) False
      by (intro exI [of _ "[drop es (drop (?k * es) ys)]"]) (simp add: queue_read_def)
  qed
qed

section \<open>The host\<close>

definition machine_host :: "env \<Rightarrow> machine host" where
  "machine_host E =
     \<lparr>h_capio_dir = rc_capio_dir E, h_app_name = None, h_cache_lines = rc_cache_lines E,
      h_cache_line_size = rc_cache_line_size E, h_page_size = 4096, h_hash = (\<lambda>_. 0), h_uid = 0, h_gid = 0, h_pid = 1,
      h_getcwd = (\<lambda>_. rc_capio_dir E), h_realpath = (\<lambda>_ _. Inl ENOENT), h_readlink = (\<lambda>_ _. None),
      h_fstat = (\<lambda>_ _. None),
      h_open_null = (\<lambda>_ m. let n = free_fd 0 (m_fds m) in (n, m\<lparr>m_fds := n # m_fds m\<rparr>)),
      h_dup2 = (\<lambda>_ fd2 m. (fd2, m\<lparr>m_fds := List.insert fd2 (m_fds m)\<rparr>)),
      h_dup3 = (\<lambda>_ fd2 _ m. (fd2, m\<lparr>m_fds := List.insert fd2 (m_fds m)\<rparr>)),
      h_fcntl = (\<lambda>_ cmd arg m.
        if (cmd = 0 \<or> cmd = 1030) \<and> 0 \<le> arg then let n = free_fd arg (m_fds m) in (n, m\<lparr>m_fds := n # m_fds m\<rparr>)
        else (- EINVAL, m)),
      h_lseek = (\<lambda>_ _ _ m. (- EBADF, m)), h_read = (\<lambda>_ _ _ m. ((- EBADF, []), m)),
      h_write = (\<lambda>_ _ _ m. (- EBADF, m)), h_mmap = (\<lambda>_ m. (- ENOMEM, m)), h_statfs = (\<lambda>_ _. - ENOENT),
      h_copy = (\<lambda>_ _ _. Inl (Throws ''std::filesystem::filesystem_error'')), h_fork = (\<lambda>m. (- EAGAIN, m)),
      h_gettid = (\<lambda>_. 1), h_connect = (\<lambda>_ m. m), h_request = put_request E, h_response = take_response E,
      h_reserve = room_for_slot,
      h_commit = commit_slot,
      h_write1 = put_slot, h_wake = wake_server E, h_read1 = fetch_slot\<rparr>"

lemma queues_fds:
  "put_request E req m = Inr m' \<Longrightarrow> m_fds m' = m_fds m" "wake_server E m = Inr m' \<Longrightarrow> m_fds m' = m_fds m"
  "take_response E tid m = Inr (v, m') \<Longrightarrow> m_fds m' = m_fds m" "put_slot tid d m = Some m' \<Longrightarrow> m_fds m' = m_fds m"
  "fetch_slot tid n m = Some (xs, m') \<Longrightarrow> m_fds m' = m_fds m" "room_for_slot tid m = Some m' \<Longrightarrow> m_fds m' = m_fds m"
  "commit_slot tid d m = Inr m' \<Longrightarrow> m_fds m' = m_fds m"
  by (auto simp: commit_slot_def put_request_def wake_server_def serve_requests_def take_response_def put_slot_def fetch_slot_def
      room_for_slot_def set_queues_def split: sum.splits option.splits if_splits)

interpretation kernel: kernel_descriptors "machine_host E" "\<lambda>m. set (m_fds m)" for E
  by unfold_locales
     (auto simp: machine_host_def Let_def free_fd queues_fds split: if_splits option.splits intro: order_trans [OF _ free_fd(1)])

text \<open>The client of the machine: a thread that starts, with the tables empty.\<close>

definition started :: "env \<Rightarrow> int \<Rightarrow> machine \<Rightarrow> machine client" where
  "started E tid m =
     \<lparr>c_tid = tid, c_descriptors = [], c_paths = [], c_files = [], c_offsets = [], c_current_dir = rc_capio_dir E,
      c_errno = 0, c_rw_hints = Map.empty, c_shm = Map.empty,
      c_read_cache = ReadCache_new (int (rc_cache_line_size E)), c_write_cache = WriteCache_new (int (rc_cache_line_size E)),
      c_world = m\<rparr>"

end
