(* ===== verification/Posix_Faults.thy ===== *)
theory Posix_Faults
  imports Machine
begin

text \<open>
  The invariant of the library's descriptor tables over whole runs: the contract of
  \<open>kernel_descriptors\<close> gives \<open>lib_ok\<close> in every reachable state, and with it the lookups of a
  known descriptor cannot fail. The example is a machine whose server answers 0 to every request.
\<close>

section \<open>The descriptors of the library\<close>


text \<open>A machine whose server answers 0 to every request.\<close>

definition agreeable_host :: "env \<Rightarrow> machine host" where
  "agreeable_host E = (machine_host E)\<lparr>h_request := \<lambda>_ m. Inr m, h_response := \<lambda>_ m. Inr (0, m)\<rparr>"

interpretation agreeable: kernel_descriptors "agreeable_host E" "\<lambda>m. set (m_fds m)" for E
  by unfold_locales
     (auto simp: agreeable_host_def machine_host_def Let_def free_fd queues_fds split: if_splits option.splits
       intro: order_trans [OF _ free_fd(1)])

lemma agreeable_fields [simp]:
  "h_capio_dir (agreeable_host (env_example n)) = ''/d''"
  "h_open_null (agreeable_host E) fl m = (let k = free_fd 0 (m_fds m) in (k, m\<lparr>m_fds := k # m_fds m\<rparr>))"
  "h_request (agreeable_host E) q m = Inr m" "h_response (agreeable_host E) tid m = Inr (0, m)"
  by (simp_all add: agreeable_host_def machine_host_def env_example_def)

lemma path_d_x:
  "path_is_absolute ''/d/x''" "\<not> is_forbidden_path ''/d/x''" "capio_normal_path ''/d/x'' = ''/d/x''" "is_capio_path ''/d'' ''/d/x''"
  by (simp_all add: path_is_absolute_def is_forbidden_path_def CAPIO_DIR_FORBIDDEN_PATHS_def capio_normal_path_def lexically_normal_def
      Let_def path_names_def ends_slash_def pop_slashes.simps is_capio_path_def is_prefix_def lexically_relative_def path_elements_def
      relative_ups_def path_append_def)

lemma open_text_fits: "length (request_text CAPIO_REQUEST_OPEN [IntA 7, IntA 1, StrA ''/d/x'']) < CAPIO_REQ_MAX_SIZE"
  by (simp add: request_text_def length_show_pad4 CAPIO_REQUEST_OPEN_def show_args_def show_arg_def show_int_def show_nat.simps
      CAPIO_REQ_MAX_SIZE_def)

lemma agreeable_open:
  "\<exists>t. hook 0 (agreeable_host (env_example ''b'')) False (Some ''/d'') (Sys_open ''/d/x'' 0)
     (started (env_example ''b'') 7 \<lparr>m_server = server_init, m_pending = [], m_fds = [0]\<rparr>) = Inr (handled 1, t) \<and>
     exists_capio_fd 1 t = Inr (True, t)"
proof -
  have "free_fd 0 [0] = 1" by (simp add: free_fd_def upt_rec)
  then show ?thesis using open_text_fits
  by (simp add: hook_def posix_open_handler_def withTid_def returnsI_def capio_openat_def path_d_x resolve_at_def
     capio_open_path_def onWorld_def started_def open_request_def write_text_def read_response_def tryWorld_def runWorld_def
     capio_open_request_def capio_register_fd_def monad_simps Let_def add_capio_fd_def add_capio_path_def path_fds_update_def um_insert_def
     um_at_def um_set_def posix_return_value_def CAPIO_POSIX_SYSCALL_SUCCESS_def CAPIO_POSIX_SYSCALL_REQUEST_SKIP_def handled_def
     exists_capio_fd_def)
qed


end
