(* ===== verification/Node.thy ===== *)
theory Node
  imports Machine
begin

text \<open>
  The server of the machine keeps the contract of \<open>file_service\<close>, so that sessions of the library
  against it see the ideal file.

  \<open>serving\<close> is the state between two calls: the descriptor is open in the server, the thread is a
  producer of the file, no request and no answer is under way.
\<close>

section \<open>Bytes that are known stay known\<close>

lemma bridged_uncovered:
  assumes "wf_sectors ss" and "x \<in> bridged s e ss"
  shows "x \<notin> covered ss"
proof
  assume "x \<in> covered ss"
  then obtain p where p: "p \<in> set ss" "fst p \<le> x" "x < snd p" by (auto simp: mem_covered_iff)
  obtain q where q: "q \<in> set ss" "fst q = x + 1" using assms(2) by (auto simp: bridged_def Let_def split: if_splits)
  obtain A B where ss: "ss = A @ q # B" using q(1) by (auto dest: split_list)
  have "\<forall>r \<in> set A. snd r < x + 1" "\<forall>r \<in> set B. snd q < fst r" "fst q \<le> snd q"
    using assms(1) q(2) unfolding ss by (auto simp: wf_append_iff wf_Cons_iff)
  moreover have "p \<in> set A \<or> p = q \<or> p \<in> set B" using p(1) ss by auto
  ultimately show False using p(2,3) q(2) by fastforce
qed

lemma written_keeps:
  assumes "written f off xs g" and "file_wf f" and "a \<subseteq>\<^sub>m byte_at f"
  shows "store a off xs \<subseteq>\<^sub>m byte_at g"
  unfolding map_le_def
proof
  fix x assume x: "x \<in> dom (store a off xs)"
  show "store a off xs x = byte_at g x"
  proof (cases "off \<le> x \<and> x < off + int (length xs)")
    case True
    then show ?thesis using assms(1) by (simp add: store_def written_def)
  next
    case False
    then have a: "x \<in> dom a" "store a off xs x = a x" using x by (auto simp: store_def)
    then have b: "byte_at f x = a x" using assms(3) by (auto simp: map_le_def)
    then have "x \<in> covered (f_sectors f)" using a(1) by (auto simp: byte_at_def split: if_splits)
    then have "x \<notin> bridged off (off + int (length xs)) (f_sectors f)"
      using bridged_uncovered assms(2) by (auto simp: file_wf_def)
    then show ?thesis using assms(1) False a(2) b by (simp add: written_def)
  qed
qed

lemma known_extent:
  assumes "a \<subseteq>\<^sub>m byte_at f" and "file_wf f" and "0 \<le> off" and "{off..<off + k} \<subseteq> dom a" and "0 < k"
  shows "getSectorEnd off f \<noteq> CAPIO_SECTOR_NOT_FOUND" and "off + k \<le> getSectorEnd off f"
proof -
  have cov: "x \<in> covered (f_sectors f)" if "x \<in> {off..<off + k}" for x
  proof -
    have "x \<in> dom a" by (rule subsetD [OF assms(4) that])
    then have "byte_at f x \<noteq> None" using assms(1) by (auto simp: map_le_def dom_def)
    then show ?thesis by (auto simp: byte_at_def split: if_splits)
  qed
  have wf: "wf_sectors (f_sectors f)" using assms(2) by (simp add: file_wf_def)
  have "off \<in> covered (f_sectors f)" using cov assms(5) by simp
  then have ne: "ss_getSectorEnd off (f_sectors f) \<noteq> - 1"
    using ss_getSectorEnd_found [OF wf, of _ off] assms(3) by (fastforce simp: mem_covered_iff)
  then show "getSectorEnd off f \<noteq> CAPIO_SECTOR_NOT_FOUND" by (simp add: getSectorEnd_def CAPIO_SECTOR_NOT_FOUND_def)
  have "off \<le> ss_getSectorEnd off (f_sectors f)" "ss_getSectorEnd off (f_sectors f) \<notin> covered (f_sectors f)"
    using ss_getSectorEnd_extent [OF wf ne] by simp_all
  then show "off + k \<le> getSectorEnd off f" using cov [of "ss_getSectorEnd off (f_sectors f)"] unfolding getSectorEnd_def by force
qed

lemma reads_agrees:
  assumes "reads f off ys" and "a \<subseteq>\<^sub>m byte_at f"
  shows "agrees a off ys"
  unfolding agrees_def
proof (intro allI impI)
  fix k b assume k: "k < length ys" and b: "a (off + int k) = Some b"
  then have "byte_at f (off + int k) = Some b" using assms(2) by (auto simp: map_le_def dom_def)
  moreover have "byte_at f (off + int k) = Some (ys ! k)" using assms(1) k by (simp add: reads_def)
  ultimately show "ys ! k = b" by simp
qed

section \<open>An open file\<close>

text \<open>
  With \<open>safe\<close> the file is on the heap and all memory is granted; without it, a write may end the
  server.
\<close>

definition server_fault :: "bool \<Rightarrow> fault \<Rightarrow> bool" where
  "server_fault safe e \<longleftrightarrow> \<not> safe \<and> (e = ErrExit \<or> (\<exists>c. e = Throws c))"

text \<open>The queues between two calls: no answer, no slot, no message.\<close>

definition quiet_queues :: "env \<Rightarrow> int \<Rightarrow> server \<Rightarrow> slot_queue \<Rightarrow> cell list list \<Rightarrow> bool" where
  "quiet_queues E tid s q ds \<longleftrightarrow>
     s_responses s tid = Some [] \<and> s_data_buffers s tid = Some (q, ds) \<and> concat ds = [] \<and>
     sq_wf (rc_cache_line_size E) (rc_cache_lines E) q \<and> sq_slots q = []"

definition file_served :: "bool \<Rightarrow> int \<Rightarrow> int \<Rightarrow> path \<Rightarrow> nat \<Rightarrow> server \<Rightarrow> capio_file \<Rightarrow> (off64 \<rightharpoonup> cell) \<Rightarrow> off64 \<Rightarrow> bool" where
  "file_served safe tid fd p i s f a off \<longleftrightarrow>
     (safe \<longrightarrow> in_heap f) \<and>
     fd_at s tid fd p i f off \<and> 0 \<le> off \<and> file_wf f \<and> valid_request f \<and> \<not> isFirstWrite f \<and> a \<subseteq>\<^sub>m byte_at f \<and>
     produces tid p s \<and> storage_find (get_parent_dir_path p) s \<noteq> Some i"

definition serving :: "bool \<Rightarrow> env \<Rightarrow> int \<Rightarrow> int \<Rightarrow> path \<Rightarrow> nat \<Rightarrow> machine \<Rightarrow> (off64 \<rightharpoonup> cell) \<Rightarrow> off64 \<Rightarrow> bool" where
  "serving safe E tid fd p i m a off \<longleftrightarrow>
     m_pending m = [] \<and> (\<exists>f q ds. file_served safe tid fd p i (m_server m) f a off \<and> quiet_queues E tid (m_server m) q ds)"

lemma servingI:
  "m_pending m = [] \<Longrightarrow> file_served safe tid fd p i (m_server m) f a off \<Longrightarrow> quiet_queues E tid (m_server m) q ds \<Longrightarrow>
   serving safe E tid fd p i m a off"
  by (auto simp: serving_def)

text \<open>A server at the same file with other queues and answers.\<close>

lemma file_served_cong:
  assumes "file_served safe tid fd p i s f a off" and "fd_at t tid fd p i f n" and "0 \<le> n"
    and "s_by_producer t = s_by_producer s" and "s_storage t = s_storage s"
  shows "file_served safe tid fd p i t f a n"
  using assms unfolding file_served_def produces_def storage_find_def by simp

lemma put_request_run:
  "m_pending m = [] \<Longrightarrow> capio_server E req (m_server m) = Inr (x, t) \<Longrightarrow> put_request E req m = Inr (m\<lparr>m_server := t\<rparr>)"
  by (simp add: put_request_def serve_requests_def)

lemma take_response_run:
  "s_responses (m_server m) tid = Some (v # vs) \<Longrightarrow> take_response E tid m =
     Inr (v, m\<lparr>m_server := (m_server m)\<lparr>s_responses := (s_responses (m_server m))(tid \<mapsto> vs)\<rparr>\<rparr>)"
  by (simp add: take_response_def pop_response_def)

section \<open>A node\<close>

locale node =
  fixes safe :: bool and E :: env and tid fd :: int and p :: path and i :: nat
  assumes granted: "safe \<Longrightarrow> grants (env_sys E)" and quota: "nonneg_quota (env_quota E)" and lines: "0 < rc_cache_lines E" and line: "0 < rc_cache_line_size E"
    and line_range: "in_range 64 (int (rc_cache_line_size E))" and ids: "in_range 32 tid" "in_range 32 fd" "0 \<le> fd"
begin

lemma seek_served:
  assumes "serving safe E tid fd p i m a off" and "0 \<le> n" and "n < SSIZE_MAX"
  shows "\<exists>m1 m2. put_request E (request_text CAPIO_REQUEST_SEEK [IntA tid, IntA fd, IntA n]) m = Inr m1 \<and>
    take_response E tid m1 = Inr (n, m2) \<and> serving safe E tid fd p i m2 a n"
proof -
  obtain f q ds where f: "file_served safe tid fd p i (m_server m) f a off" and q: "quiet_queues E tid (m_server m) q ds"
    and idle: "m_pending m = []" using assms(1) by (auto simp: serving_def)
  have n: "in_range 64 n" using assms(2,3) by (simp add: in_range_def)
  have fd: "fd_at (m_server m) tid fd p i f off" using f by (simp add: file_served_def)
  have "can_reply (m_server m) tid [] q ds" using q by (simp add: quiet_queues_def can_reply_def CAPIO_REQ_BUFF_CNT_def)
  then obtain os where r: "capio_server E (request_text CAPIO_REQUEST_SEEK [IntA tid, IntA fd, IntA n]) (m_server m) =
      Inr ((), (m_server m)\<lparr>s_offsets := os, s_responses := (s_responses (m_server m))(tid \<mapsto> [] @ [n])\<rparr>)"
    "fd_at ((m_server m)\<lparr>s_offsets := os, s_responses := (s_responses (m_server m))(tid \<mapsto> [] @ [n])\<rparr>) tid fd p i f n"
    using lseek_run [OF fd _ ids(1,2) n] by blast
  let ?s = "(m_server m)\<lparr>s_offsets := os, s_responses := (s_responses (m_server m))(tid \<mapsto> [])\<rparr>"
  have "fd_at ?s tid fd p i f n" using r(2) by (simp add: fd_at_def storage_find_def)
  then have "file_served safe tid fd p i ?s f a n" by (rule file_served_cong [OF f _ assms(2)]) simp_all
  moreover have "quiet_queues E tid ?s q ds" using q by (simp add: quiet_queues_def)
  ultimately have "serving safe E tid fd p i (m\<lparr>m_server := ?s\<rparr>) a n" by (intro servingI) (simp_all add: idle)
  then show ?thesis using put_request_run [OF idle r(1)] take_response_run by fastforce
qed

lemma read_absent:
  assumes "file_served safe tid fd p i s f a off" and "quiet_queues E tid s q ds" and "in_range 64 n"
    and "getSectorEnd off f = CAPIO_SECTOR_NOT_FOUND"
  shows "capio_server E (request_text CAPIO_REQUEST_READ [IntA tid, IntA fd, IntA n]) s =
    Inr ((), s\<lparr>s_responses := (s_responses s)(tid \<mapsto> [off])\<rparr>)"
proof -
  have fd: "fd_at s tid fd p i f off" and pr: "produces tid p s" using assms(1) by (simp_all add: file_served_def)
  have "replyToClient tid off s = Inr ((), s\<lparr>s_responses := (s_responses s)(tid \<mapsto> [] @ [off])\<rparr>)"
    by (rule replyToClient_run) (use assms(2) in \<open>simp_all add: quiet_queues_def CAPIO_REQ_BUFF_CNT_def\<close>)
  then have "handle_local_read E tid fd n True s = Inr ((), s\<lparr>s_responses := (s_responses s)(tid \<mapsto> [off])\<rparr>)"
    unfolding handle_local_read_def using assms(4) by (simp add: bindM_def fd_at_lookups [OF fd])
  then show ?thesis unfolding read_handler_producer [OF fd pr ids(1,2) assms(3)] .
qed

lemma read_present:
  assumes f: "file_served safe tid fd p i s f a off" and q: "quiet_queues E tid s q ds" and n: "in_range 64 n" "0 < n"
    and found: "getSectorEnd off f \<noteq> CAPIO_SECTOR_NOT_FOUND"
  obtains ys t where "capio_server E (request_text CAPIO_REQUEST_READ [IntA tid, IntA fd, IntA n]) s = Inr ((), t)"
    and "int (length ys) = min n (getSectorEnd off f - off)" and "reads f off ys"
    and "s_responses t tid = Some [off + int (length ys)]" and "s_data_buffers t tid = Some (q, ds @ [ys])"
    and "\<And>t' :: server. s_fds t' = s_fds t \<Longrightarrow> s_offsets t' = s_offsets t \<Longrightarrow> s_storage t' = s_storage t \<Longrightarrow> s_files t' = s_files t \<Longrightarrow>
      s_by_producer t' = s_by_producer t \<Longrightarrow> file_served safe tid fd p i t' f a (off + int (length ys))"
proof -
  have fd: "fd_at s tid fd p i f off" and pr: "produces tid p s" and wf: "file_wf f" and off: "0 \<le> off"
    using f by (simp_all add: file_served_def)
  have cr: "can_reply s tid [] q ds" using q by (simp add: quiet_queues_def can_reply_def CAPIO_REQ_BUFF_CNT_def)
  have n0: "0 \<le> n" and complete: "isCommitted f \<or> True \<or> cl_isFirable E p \<and> off + n \<le> getSectorEnd off f" using n(2) by simp_all
  obtain ys os where ys: "handle_local_read E tid fd n True s =
      Inr ((), s\<lparr>s_responses := (s_responses s)(tid \<mapsto> [] @ [off + int (length ys)]),
        s_data_buffers := (s_data_buffers s)(tid \<mapsto> (q, ds @ [ys])), s_offsets := os\<rparr>)" (is "_ = Inr ((), ?t)")
    and len: "int (length ys) = min n (getSectorEnd off f - off)" and rd: "reads f off ys"
    and at: "fd_at (s\<lparr>s_responses := (s_responses s)(tid \<mapsto> [] @ [off + int (length ys)]),
        s_data_buffers := (s_data_buffers s)(tid \<mapsto> (q, ds @ [ys])), s_offsets := os\<rparr>) tid fd p i f (off + int (length ys))"
    by (rule local_read_served [OF fd cr wf off n0 found complete])
  show ?thesis
  proof (rule that [of ?t ys])
    show "capio_server E (request_text CAPIO_REQUEST_READ [IntA tid, IntA fd, IntA n]) s = Inr ((), ?t)"
      unfolding read_handler_producer [OF fd pr ids(1,2) n(1)] by (rule ys)
    fix t' :: server assume t': "s_fds t' = s_fds ?t" "s_offsets t' = s_offsets ?t" "s_storage t' = s_storage ?t" "s_files t' = s_files ?t"
      "s_by_producer t' = s_by_producer ?t"
    have "s_files t' i = Some f" using at t'(4) by (simp add: fd_at_def)
    then have "fd_at t' tid fd p i f (off + int (length ys))" by (rule fd_at_cong [OF at t'(1-3)])
    then show "file_served safe tid fd p i t' f a (off + int (length ys))"
      by (rule file_served_cong [OF f]) (use t' off in simp_all)
  qed (simp_all add: len rd)
qed

lemma queue_read_none: "queue_read rd es 0 w = Some ([], w)"
  by (simp add: queue_read_def)

lemma set_queues_id: "s_data_buffers (m_server m) tid = Some (q, ds) \<Longrightarrow> set_queues tid q ds m = m"
  by (simp add: set_queues_def fun_upd_idem)

lemma read_served:
  assumes "serving safe E tid fd p i m a off" and "0 < n" and "in_range 64 n"
  shows "\<exists>m1 m2 m3 ys. put_request E (request_text CAPIO_REQUEST_READ [IntA tid, IntA fd, IntA n]) m = Inr m1 \<and>
    take_response E tid m1 = Inr (off + int (length ys), m2) \<and> int (length ys) \<le> n \<and> agrees a off ys \<and>
    (\<forall>k. k \<le> n \<longrightarrow> {off..<off + k} \<subseteq> dom a \<longrightarrow> k \<le> int (length ys)) \<and>
    queue_read (fetch_slot tid) (rc_cache_line_size E) (length ys) m2 = Some (ys, m3) \<and> serving safe E tid fd p i m3 a (off + int (length ys)) \<and>
    (ys \<noteq> [] \<longrightarrow> length ys \<le> rc_cache_line_size E \<longrightarrow>
      (\<exists>zs m4. fetch_slot tid (rc_cache_line_size E) m2 = Some (ys @ zs, m4) \<and> serving safe E tid fd p i m4 a (off + int (length ys))))"
proof -
  obtain f q ds where f: "file_served safe tid fd p i (m_server m) f a off" and q: "quiet_queues E tid (m_server m) q ds"
    and idle: "m_pending m = []" using assms(1) by (auto simp: serving_def)
  have known: "a \<subseteq>\<^sub>m byte_at f" and wf: "file_wf f" and off: "0 \<le> off" using f by (simp_all add: file_served_def)
  have es: "sq_elem_size q = rc_cache_line_size E" using q by (simp add: quiet_queues_def sq_wf_def)
  show ?thesis
  proof (cases "getSectorEnd off f = CAPIO_SECTOR_NOT_FOUND")
    case True
    let ?m1 = "m\<lparr>m_server := (m_server m)\<lparr>s_responses := (s_responses (m_server m))(tid \<mapsto> [off])\<rparr>\<rparr>"
    have "s_responses (m_server m) tid = Some []" using q by (simp add: quiet_queues_def)
    then have same: "(s_responses (m_server m))(tid \<mapsto> []) = s_responses (m_server m)" by (simp add: fun_upd_idem)
    have "put_request E (request_text CAPIO_REQUEST_READ [IntA tid, IntA fd, IntA n]) m = Inr ?m1"
      by (rule put_request_run [OF idle read_absent [OF f q assms(3) True]])
    moreover have "take_response E tid ?m1 = Inr (off, m)" using take_response_run [of ?m1 tid off "[]" E] by (simp add: same)
    moreover have "k \<le> 0" if "{off..<off + k} \<subseteq> dom a" for k
      using known_extent(1) [OF known wf off that] True by linarith
    ultimately show ?thesis using assms(1,2)
      by (intro exI [of _ ?m1] exI [of _ m] exI [of _ "[]"]) (simp add: queue_read_none agrees_def)
  next
    case False
    obtain ys t where t: "capio_server E (request_text CAPIO_REQUEST_READ [IntA tid, IntA fd, IntA n]) (m_server m) = Inr ((), t)"
      and ys: "int (length ys) = min n (getSectorEnd off f - off)" "reads f off ys"
      and r: "s_responses t tid = Some [off + int (length ys)]" "s_data_buffers t tid = Some (q, ds @ [ys])"
      and at: "\<And>t' :: server. s_fds t' = s_fds t \<Longrightarrow> s_offsets t' = s_offsets t \<Longrightarrow> s_storage t' = s_storage t \<Longrightarrow>
        s_files t' = s_files t \<Longrightarrow> s_by_producer t' = s_by_producer t \<Longrightarrow> file_served safe tid fd p i t' f a (off + int (length ys))"
      by (rule read_present [OF f q assms(3,2) False]) (rule that)
    let ?m1 = "m\<lparr>m_server := t\<rparr>"
    let ?m2 = "m\<lparr>m_server := t\<lparr>s_responses := (s_responses t)(tid \<mapsto> [])\<rparr>\<rparr>"
    have m2: "set_queues tid q (ds @ [ys]) ?m2 = ?m2" by (rule set_queues_id) (simp add: r(2))
    have ok: "serving safe E tid fd p i (set_queues tid q ds' ?m2) a (off + int (length ys))" if "concat ds' = []" for ds'
      by (rule servingI [where f = f and q = q and ds = ds'])
         (use q idle at that in \<open>simp_all add: set_queues_def quiet_queues_def\<close>)
    have pend: "pending (ds @ [ys]) ys" using q by (auto simp: pending_def quiet_queues_def)
    obtain ds' where ds': "queue_read (fetch_slot tid) (rc_cache_line_size E) (length ys) ?m2 = Some (ys, set_queues tid q ds' ?m2)"
      "concat ds' = []" using queue_read_pending [OF pend line es, of tid ?m2] unfolding m2 by blast
    have one: "\<exists>zs m4. fetch_slot tid (rc_cache_line_size E) ?m2 = Some (ys @ zs, m4) \<and> serving safe E tid fd p i m4 a (off + int (length ys))"
      if "ys \<noteq> []" "length ys \<le> rc_cache_line_size E"
      using fetch_slot_pending [OF pend that(1) es, of tid "rc_cache_line_size E" ?m2] that(2) ok [of "[[]]"] unfolding m2 by simp
    have cover: "k \<le> int (length ys)" if "k \<le> n" "{off..<off + k} \<subseteq> dom a" for k
      using known_extent(2) [OF known wf off that(2)] that(1) ys(1) by linarith
    note req = put_request_run [OF idle t]
    have resp: "take_response E tid ?m1 = Inr (off + int (length ys), ?m2)" using take_response_run [of ?m1] r(1) by simp
    have len: "int (length ys) \<le> n" using ys(1) by simp
    show ?thesis
      by (rule exI [of _ ?m1], rule exI [of _ ?m2], rule exI [of _ "set_queues tid q ds' ?m2"], rule exI [of _ ys])
         (intro conjI allI impI req resp len reads_agrees [OF ys(2) known] ds'(1) ok [OF ds'(2)] one cover)
  qed
qed

section \<open>Writes\<close>

lemma refused:
  assumes "file_wf f" and "valid_request f" and "safe \<longrightarrow> in_heap f" and "prepare_write (env_sys E) (env_quota E) p n f = Inl e"
  shows "server_fault safe e"
  using prepare_write_granted [OF granted _ assms(1) quota assms(2), of p n] prepare_write_ok [OF assms(1) quota assms(2), where S = "env_sys E" and path = p and n = n]
    assms(3,4) by (auto simp: server_fault_def)

lemma write_arrives:
  assumes f: "file_served safe tid fd p i s f a off" and r: "s_responses s tid = Some []"
    and q: "s_data_buffers s tid = Some (q, ds)" "concat ds = []"
    and data: "queue_read sq_read1 (sq_elem_size q) (length xs) q = Some (xs, q')"
    and q': "sq_wf (rc_cache_line_size E) (rc_cache_lines E) q'" "sq_slots q' = []" and n: "in_range 64 (int (length xs))"
  shows "case capio_server E (request_text CAPIO_REQUEST_WRITE [IntA tid, IntA fd, IntA (int (length xs))]) s of
      Inl e \<Rightarrow> server_fault safe e
    | Inr (_, t) \<Rightarrow> \<exists>g. file_served safe tid fd p i t g (store a off xs) (off + int (length xs)) \<and> quiet_queues E tid t q' ds"
proof -
  have c: "capio_server E (request_text CAPIO_REQUEST_WRITE [IntA tid, IntA fd, IntA (int (length xs))]) =
      write_handler E (tl (show_args [IntA tid, IntA fd, IntA (int (length xs))]))"
    by (simp add: capio_server_request request_codes request_handlers_def)
  have "write_ready E s tid fd p i f off xs q' ds"
    using f q(1) data quota by (auto simp: write_ready_def file_served_def)
  note run = write_handler_run [OF this ids(1,2) n]
  have f': "file_wf f" "valid_request f" "safe \<longrightarrow> in_heap f" using f by (simp_all add: file_served_def)
  show ?thesis
  proof (cases "write_handler E (tl (show_args [IntA tid, IntA fd, IntA (int (length xs))])) s")
    case (Inl e)
    then have "prepare_write (env_sys E) (env_quota E) p (off + int (length xs)) f = Inl e"
      using run f by (auto simp: file_served_def)
    then show ?thesis using Inl unfolding c by (simp add: refused [OF f'])
  next
    case (Inr xt)
    then obtain x t where t: "write_handler E (tl (show_args [IntA tid, IntA fd, IntA (int (length xs))])) s = Inr (x, t)"
      by (cases xt) simp
    have pr: "s_by_producer s tid \<noteq> None" using f by (auto simp: file_served_def produces_def)
    obtain g where g: "fd_at t tid fd p i g (off + int (length xs))" "file_wf g" "written f off xs g" "valid_request g"
      "\<not> isFirstWrite g" "s_data_buffers t tid = Some (q', ds)" "s_storage t = s_storage s" "s_responses t = s_responses s"
      "produces tid p t" "safe \<longrightarrow> in_heap g" using run pr f'(3) granted unfolding t by auto
    have "store a off xs \<subseteq>\<^sub>m byte_at g" by (rule written_keeps [OF g(3)]) (use f in \<open>simp_all add: file_served_def\<close>)
    then have "file_served safe tid fd p i t g (store a off xs) (off + int (length xs))"
      using f g by (simp add: file_served_def storage_find_def)
    moreover have "quiet_queues E tid t q' ds" using g(6,8) r q(2) q' by (simp add: quiet_queues_def)
    ultimately show ?thesis unfolding c t by auto
  qed
qed

lemma served_after:
  assumes "case capio_server E req (m_server m) of Inl e \<Rightarrow> server_fault safe e
      | Inr (_, t) \<Rightarrow> \<exists>g. file_served safe tid fd p i t g b n \<and> quiet_queues E tid t q ds"
  shows "case serve_requests E [req] m of Inl e \<Rightarrow> server_fault safe e | Inr m' \<Rightarrow> serving safe E tid fd p i m' b n"
  using assms
  by (auto simp: serve_requests_def server_fault_def split: sum.splits if_splits intro!: servingI)

lemma commit_served:
  assumes "serving safe E tid fd p i m a off" and "xs \<noteq> []" and "length xs \<le> rc_cache_line_size E"
  shows "\<exists>m1. commit_slot tid xs m = Inr m1 \<and>
    (case put_request E (request_text CAPIO_REQUEST_WRITE [IntA tid, IntA fd, IntA (int (length xs))]) m1 of
       Inl e \<Rightarrow> server_fault safe e | Inr m2 \<Rightarrow> serving safe E tid fd p i m2 (store a off xs) (off + int (length xs)))"
proof -
  obtain f q ds where f: "file_served safe tid fd p i (m_server m) f a off" and q: "quiet_queues E tid (m_server m) q ds"
    and idle: "m_pending m = []" using assms(1) by (auto simp: serving_def)
  let ?es = "rc_cache_line_size E" and ?cap = "rc_cache_lines E"
  have wf: "sq_wf ?es ?cap q" and empty: "sq_slots q = []" using q by (simp_all add: quiet_queues_def)
  have m: "set_queues tid q ds m = m" by (rule set_queues_id) (use q in \<open>simp add: quiet_queues_def\<close>)
  obtain q1 e where q1: "put_slot tid xs m = Some (set_queues tid q1 ds m)" "sq_wf ?es ?cap q1" "sq_slots q1 = [e]"
    "take (length xs) e = xs" using put_slot_run [OF wf _ assms(3), of tid ds m] lines empty unfolding m by auto
  have need: "slots_needed ?es (length xs) = 1"
    using assms(2,3) line by (cases "length xs = ?es") (auto simp: slots_needed_def)
  obtain q2 where q2: "queue_read sq_read1 ?es (length xs) q1 = Some (xs, q2)" "sq_wf ?es ?cap q2" "sq_slots q2 = []"
    using slotq.read_spec [OF q1(2), of "[e]" "[]" "length xs"] q1(3,4) need by auto
  have es: "sq_elem_size q1 = ?es" using q1(2) by (simp add: sq_wf_def)
  let ?m = "set_queues tid q1 ds m"
  have "file_served safe tid fd p i (m_server ?m) f a off"
    by (rule file_served_cong [OF f]) (use f in \<open>auto simp: file_served_def set_queues_def fd_at_def storage_find_def\<close>)
  moreover have "in_range 64 (int (length xs))" using assms(3) line_range by (simp add: in_range_def)
  ultimately have "case capio_server E (request_text CAPIO_REQUEST_WRITE [IntA tid, IntA fd, IntA (int (length xs))]) (m_server ?m) of
      Inl e \<Rightarrow> server_fault safe e
    | Inr (_, t) \<Rightarrow> \<exists>g. file_served safe tid fd p i t g (store a off xs) (off + int (length xs)) \<and> quiet_queues E tid t q2 ds"
    using q by (intro write_arrives [OF _ _ _ _ q2(1) [folded es] q2(2,3)]) (simp_all add: set_queues_def quiet_queues_def)
  then have "case serve_requests E [request_text CAPIO_REQUEST_WRITE [IntA tid, IntA fd, IntA (int (length xs))]] ?m of
      Inl e \<Rightarrow> server_fault safe e | Inr m' \<Rightarrow> serving safe E tid fd p i m' (store a off xs) (off + int (length xs))"
    by (rule served_after)
  then show ?thesis using q1(1) idle by (simp add: commit_slot_def put_request_def set_queues_def)
qed

lemma slots_fit:
  assumes "n \<le> cap * es"
  shows "slots_needed es n \<le> cap"
proof (cases "n mod es = 0")
  case True
  then show ?thesis using div_le_mono [OF assms, of es] by (cases "es = 0") (auto simp: slots_needed_def)
next
  case False
  then have "n div es < cap"
  proof -
    have "\<not> cap \<le> n div es"
    proof
      assume "cap \<le> n div es"
      then have "cap * es \<le> n div es * es" by (rule mult_le_mono1)
      then show False using assms False div_mult_mod_eq [of n es] by linarith
    qed
    then show ?thesis by simp
  qed
  then show ?thesis by (simp add: slots_needed_def)
qed

lemma direct_served:
  assumes "serving safe E tid fd p i m a off" and "rc_cache_line_size E < length xs"
    and "length xs \<le> rc_cache_lines E * rc_cache_line_size E" and "in_range 64 (int (length xs))"
  shows "case put_request E (request_text CAPIO_REQUEST_WRITE [IntA tid, IntA fd, IntA (int (length xs))]) m of
      Inl e \<Rightarrow> server_fault safe e
    | Inr m1 \<Rightarrow> \<exists>m2. queue_write (put_slot tid) (rc_cache_line_size E) xs m1 = Some m2 \<and>
        (case wake_server E m2 of Inl e \<Rightarrow> server_fault safe e
         | Inr m3 \<Rightarrow> serving safe E tid fd p i m3 (store a off xs) (off + int (length xs)))"
proof -
  obtain f q ds where f: "file_served safe tid fd p i (m_server m) f a off" and q: "quiet_queues E tid (m_server m) q ds"
    and idle: "m_pending m = []" using assms(1) by (auto simp: serving_def)
  let ?es = "rc_cache_line_size E" and ?cap = "rc_cache_lines E"
  let ?req = "request_text CAPIO_REQUEST_WRITE [IntA tid, IntA fd, IntA (int (length xs))]"
  have wf: "sq_wf ?es ?cap q" and empty: "sq_slots q = []" and db: "s_data_buffers (m_server m) tid = Some (q, ds)"
    using q by (simp_all add: quiet_queues_def)
  have c: "capio_server E ?req = write_handler E (tl (show_args [IntA tid, IntA fd, IntA (int (length xs))]))"
    by (simp add: capio_server_request request_codes request_handlers_def)
  have f': "fd_at (m_server m) tid fd p i f off" "file_wf f" "valid_request f" "safe \<longrightarrow> in_heap f" "0 < sq_elem_size q"
    "0 < int (length xs)" using f wf assms(2) by (auto simp: file_served_def sq_wf_def)
  obtain e where e: "capio_server E ?req (m_server m) = Inl e" "e = Blocked \<or> server_fault safe e"
    using write_handler_waits [OF f'(1) db empty f'(5) ids(1,2) assms(4) f'(6), of E] refused [OF f'(2-4)] unfolding c by blast
  show ?thesis
  proof (cases "e = Blocked")
    case False
    then show ?thesis using e idle by (simp add: put_request_def serve_requests_def)
  next
    case True
    let ?m1 = "m\<lparr>m_pending := [?req]\<rparr>"
    have m1: "put_request E ?req m = Inr ?m1" using e(1) True idle by (simp add: put_request_def serve_requests_def)
    have inv: "\<exists>q'. sq_wf ?es ?cap q' \<and> ?m1 = set_queues tid q' ds ?m1"
      using wf db by (auto simp: set_queues_def fun_upd_idem intro!: exI [of _ q])
    have c: "c2s tid ?m1 = q" using db by (simp add: c2s_def)
    obtain m2 ss where m2: "queue_write (put_slot tid) ?es xs ?m1 = Some m2" "\<exists>q'. sq_wf ?es ?cap q' \<and> m2 = set_queues tid q' ds ?m1"
      "sq_slots (c2s tid m2) = ss" "length ss = slots_needed ?es (length xs)" "take (length xs) (concat ss) = xs"
      using clientq.write_spec [OF inv, of xs] slots_fit [OF assms(3)] empty unfolding c by auto
    then obtain q1 where q1: "sq_wf ?es ?cap q1" "m2 = set_queues tid q1 ds ?m1" "sq_slots q1 = ss" by auto
    obtain q2 where q2: "queue_read sq_read1 ?es (length xs) q1 = Some (xs, q2)" "sq_wf ?es ?cap q2" "sq_slots q2 = []"
      using slotq.read_spec [OF q1(1), of ss "[]" "length xs"] q1(3) m2(4,5) by auto
    have es: "sq_elem_size q1 = ?es" using q1(1) by (simp add: sq_wf_def)
    have f2: "file_served safe tid fd p i (m_server m2) f a off"
      by (rule file_served_cong [OF f]) (use f q1(2) in \<open>auto simp: file_served_def set_queues_def fd_at_def storage_find_def\<close>)
    have "case capio_server E ?req (m_server m2) of Inl e \<Rightarrow> server_fault safe e
      | Inr (_, t) \<Rightarrow> \<exists>g. file_served safe tid fd p i t g (store a off xs) (off + int (length xs)) \<and> quiet_queues E tid t q2 ds"
      using q q1(2) by (intro write_arrives [OF f2 _ _ _ q2(1) [folded es] q2(2,3) assms(4)]) (simp_all add: set_queues_def quiet_queues_def)
    then have "case serve_requests E [?req] m2 of Inl e \<Rightarrow> server_fault safe e
      | Inr m' \<Rightarrow> serving safe E tid fd p i m' (store a off xs) (off + int (length xs))" by (rule served_after)
    then show ?thesis using m1 m2(1) q1(2) by (simp add: wake_server_def set_queues_def)
  qed
qed

lemma reserve_served: "serving safe E tid fd p i m a off \<Longrightarrow> \<exists>m1. room_for_slot tid m = Some m1 \<and> serving safe E tid fd p i m1 a off"
  using lines by (auto simp: serving_def quiet_queues_def room_for_slot_def c2s_def sq_wf_def)

lemma fault_exit: "server_fault safe (Throws c) \<Longrightarrow> server_fault safe ErrExit"
  by (simp add: server_fault_def)

end

lemma machine_host_fields:
  "h_cache_line_size (machine_host E) = rc_cache_line_size E" "h_request (machine_host E) = put_request E"
  "h_response (machine_host E) = take_response E" "h_read1 (machine_host E) = fetch_slot" "h_reserve (machine_host E) = room_for_slot"
  "h_write1 (machine_host E) = put_slot" "h_wake (machine_host E) = wake_server E" "h_commit (machine_host E) = commit_slot"
  by (simp_all add: machine_host_def)

sublocale node \<subseteq> served: file_service "machine_host E" tid fd "rc_cache_lines E * rc_cache_line_size E" "serving safe E tid fd p i" "server_fault safe"
  by (unfold_locales; (unfold machine_host_fields)?)
     (fact line ids line_range | erule fault_exit reserve_served | erule (2) seek_served read_served commit_served | erule (3) direct_served)+

section \<open>Sessions\<close>

text \<open>A thread of the library that has just opened the descriptor.\<close>

definition ready :: "env \<Rightarrow> int \<Rightarrow> int \<Rightarrow> off64 \<Rightarrow> machine client \<Rightarrow> bool" where
  "ready E tid fd off s \<longleftrightarrow>
     c_tid s = tid \<and> c_read_cache s = ReadCache_new (int (rc_cache_line_size E)) \<and>
     c_write_cache s = WriteCache_new (int (rc_cache_line_size E)) \<and> map_of (c_files s) (- 1) = None \<and>
     (\<exists>e. map_of (c_files s) fd = Some e \<and> fe_offset e < length (c_offsets s) \<and> c_offsets s ! fe_offset e = off)"

context node
begin

lemma ready_at_file:
  assumes "serving safe E tid fd p i (c_world s) a off" and "ready E tid fd off s" and "off < SSIZE_MAX"
  shows "served.at_file \<lparr>i_bytes = a, i_pos = off, i_fresh = True\<rparr> s"
proof -
  have wc: "WriteCache_new (int (rc_cache_line_size E)) = served.wcache (- 1) []"
    by (simp add: served.wcache_def WriteCache_new_def machine_host_fields)
  have "0 \<le> off" using assms(1) by (auto simp: serving_def file_served_def)
  then have "served.holds off a (ReadCache_new (int (rc_cache_line_size E))) (- 1) [] a off"
    using assms(3) line by (simp add: served.holds_def served.reading_def ReadCache_new_def machine_host_fields)
  moreover have "served.thread off (ReadCache_new (int (rc_cache_line_size E))) (served.wcache (- 1) [])
      (\<lambda>w. serving safe E tid fd p i w a off) s"
    using assms(1,2) by (simp add: served.thread_def ready_def wc)
  ultimately show ?thesis
    by (intro served.at_fileI [of _ "ReadCache_new (int (rc_cache_line_size E))" "- 1" "[]" a off]) simp_all
qed

lemma session_runs:
  assumes "serving safe E tid fd p i (c_world s) a off" and "ready E tid fd off s" and "off < SSIZE_MAX"
    and "ideal_session_ok fd (rc_cache_line_size E) (rc_cache_lines E * rc_cache_line_size E) cs \<lparr>i_bytes = a, i_pos = off, i_fresh = True\<rparr>"
  shows "case session (machine_host E) dir cs s of
      Inl e \<Rightarrow> server_fault safe e
    | Inr (rs, t) \<Rightarrow> rs = fst (ideal_session cs \<lparr>i_bytes = a, i_pos = off, i_fresh = True\<rparr>)"
  using runsMD [OF served.runs_session [unfolded machine_host_fields, OF assms(4)] ready_at_file [OF assms(1-3)], of dir]
  by (auto split: sum.splits)

end

interpretation example_node: node True "env_example n" 7 3 "''/x''" 0 for n
  by unfold_locales (simp_all add: env_example_def nonneg_quota_def in_range_def grants_def sys_ok_def)



text \<open>A thread with descriptor 3 on \<open>/x\<close>, which the server knows.\<close>

definition node_server :: server where
  "node_server = opened\<lparr>s_responses := [7 \<mapsto> []], s_files := [0 \<mapsto> small_file], s_by_producer := [7 \<mapsto> [''/x'']]\<rparr>"

definition node_client :: "machine client" where
  "node_client = (started (env_example ''b'') 7 \<lparr>m_server = node_server, m_pending = [], m_fds = [3]\<rparr>)
     \<lparr>c_files := [(3, \<lparr>fe_offset = 0, fe_size = 16, fe_flags = 0, fe_cloexec = False\<rparr>)], c_offsets := [0],
      c_descriptors := [(3, ''/x'')], c_paths := [(''/x'', [3])]\<rparr>"

lemma node_serving: "serving safe (env_example ''b'') 7 3 ''/x'' 0 (c_world node_client) Map.empty 0"
proof -
  have "get_parent_dir_path ''/x'' = []" by (simp add: get_parent_dir_path_def rfind_char_def upt_rec)
  moreover have "file_wf small_file" "valid_request small_file" "\<not> isFirstWrite small_file" "in_heap small_file"
    using writing_ready by (simp_all add: write_ready_def small_file_def isFirstWrite_def registerFirstWrite_def in_heap_def addFd_def
        file_open_def CapioFile_dir_def CapioFile_default_def HeapBuffer_def)
  ultimately have "file_served safe 7 3 ''/x'' 0 node_server small_file Map.empty 0"
    by (simp add: file_served_def node_server_def opened_def connected_def server_init_def fd_at_def storage_find_def produces_def)
  moreover have "quiet_queues (env_example ''b'') 7 node_server (sq_new 4 8) []"
    by (simp add: quiet_queues_def node_server_def opened_def connected_def server_init_def sq_wf_def sq_new_def env_example_def)
  ultimately show ?thesis by (intro servingI) (simp_all add: node_client_def started_def)
qed

lemma node_ready: "ready (env_example ''b'') 7 3 0 node_client"
  by (simp add: ready_def node_client_def started_def)


interpretation mapped_node: node False "env_example n" 7 3 "''/x''" 0 for n
  by unfold_locales (simp_all add: env_example_def nonneg_quota_def in_range_def)

definition mapped_calls :: "syscall list" where
  "mapped_calls =
     [Sys_write 3 [Some 1, Some 2, Some 3, Some 4, Some 5, Some 6, Some 7, Some 8, Some 9], Sys_lseek 3 (- 2) SEEK_CUR, Sys_read 3 2]"


end
