(* ===== verification/Commit.thy ===== *)
theory Commit
  imports Server_Data
begin

text \<open>
  Readers wait for the producer of a file: the part of the protocol that orders the steps of a
  workflow. A read of a file that is not complete, and that may not be read while it is written,
  leaves a thread that waits; closing the file as its last producer completes it, and the thread
  then answers the read.
\<close>

section \<open>A consumer\<close>

definition consumes :: "env \<Rightarrow> server \<Rightarrow> int \<Rightarrow> path \<Rightarrow> bool" where
  "consumes E s tid p \<longleftrightarrow>
     (\<exists>app. getAppName tid s = Inr (app, s) \<and> \<not> cl_isProducer E p app) \<and> isProducer tid p s = Inr (False, s) \<and>
     (\<exists>node loc. s_locations s p = Some (node, loc) \<and> node_str E node = be_node_name E)"

lemma read_handler_consumer:
  assumes "fd_at s tid fd p i f off" and "consumes E s tid p" and "in_range 32 tid" "in_range 32 fd" "in_range 64 n"
  shows "capio_server E (request_text CAPIO_REQUEST_READ [IntA tid, IntA fd, IntA n]) s = handle_local_read E tid fd n False s"
proof -
  have "scan (tl (show_args [IntA tid, IntA fd, IntA n])) [Conv_d, Conv_d, Conv_ld] =
      (returnM [IntA tid, IntA fd, IntA n] :: arg list srv)"
    by (rule scan_tl_show_args) (simp add: assms)
  then have "capio_server E (request_text CAPIO_REQUEST_READ [IntA tid, IntA fd, IntA n]) = handle_read E tid fd n"
    by (simp add: capio_server_request request_codes request_handlers_def read_handler_def int_arg_def)
  moreover obtain app node loc where "getAppName tid s = Inr (app, s)" "\<not> cl_isProducer E p app" "isProducer tid p s = Inr (False, s)"
    "s_locations s p = Some (node, loc)" "node_str E node = be_node_name E"
    using assms(2) unfolding consumes_def by blast
  ultimately show ?thesis
    by (simp add: handle_read_def bindM_def fd_at_lookups [OF assms(1)] get_file_location_opt_def getsM_def)
qed

section \<open>The last close\<close>

lemma map_of_delete_other: "k \<noteq> j \<Longrightarrow> map_of (AList.delete j m) k = map_of m k"
  by (simp add: delete_conv')

lemma close_commits:
  assumes "fd_at s tid fd p i g poff" and "p \<noteq> []" and "\<not> f_permanent g" and "cl_getCommitRule E p = ON_CLOSE" and "file_closed (file_close g)"
    and "in_range 32 tid" and "in_range 32 fd"
  defines "g' \<equiv> removeFd tid fd (setCommitted True (file_close g))"
  shows "capio_server E (request_text CAPIO_REQUEST_CLOSE [IntA tid, IntA fd]) s =
    Inr ((), s\<lparr>s_files := (s_files s)(i \<mapsto> g'), s_fds := AList.delete (tid, fd) (s_fds s)\<rparr>)"
proof -
  have fi: "s_files s i = Some g" using assms(1) by (simp add: fd_at_def)
  obtain oi where e: "fd_entry tid fd s = Inr (\<lparr>t_pointer = Some i, t_offset = Some oi, t_path = p\<rparr>, s)"
    using assms(1) by (rule fd_at_entry)
  have "map_of (s_fds s) (tid, fd) = Some \<lparr>t_pointer = Some i, t_offset = Some oi, t_path = p\<rparr>"
    using e assms(1) by (auto simp: fd_entry_def fd_find_def fd_at_def monad_simps)
  then have e': "fd_entry tid fd t = Inr (\<lparr>t_pointer = Some i, t_offset = Some oi, t_path = p\<rparr>, t)" if "s_fds t = s_fds s" for t
    using that by (simp add: fd_entry_def fd_find_def monad_simps)
  have d: "dump (env_sys E) (setCommitted True (file_close g)) = Inr (setCommitted True (file_close g))"
    using assms(3) by (simp add: dump_def setCommitted_def file_close_def Let_def)
  have "scan (tl (show_args [IntA tid, IntA fd])) [Conv_d, Conv_d] = (returnM [IntA tid, IntA fd] :: arg list srv)"
    by (rule scan_tl_show_args) (simp add: assms(6,7))
  then have "capio_server E (request_text CAPIO_REQUEST_CLOSE [IntA tid, IntA fd]) = handle_close E tid fd"
    by (simp add: capio_server_request request_codes request_handlers_def close_handler_def int_arg_def)
  then show ?thesis
    using assms(2,4,5) fd_at_lookups [OF assms(1)] fi d
    by (simp add: handle_close_def update_file_def try_update_file_def file_at_def set_file_def removeFromTid_def removeFromTid1_def e'
        g'_def monad_simps)
qed

text \<open>The answer of a thread that waited.\<close>

lemma pending_read_run:
  assumes "fd_at s tid fd p i g off" and "can_reply s tid rs q ds" and "file_wf g" and "0 \<le> off" and "0 \<le> count"
    and "getSectorEnd off g \<noteq> CAPIO_SECTOR_NOT_FOUND"
  obtains t ys where "handle_pending_read E tid fd off count s = Inr ((), t)" and "reads g off ys"
    and "int (length ys) = min count (getSectorEnd off g - off)" and "s_responses t tid = Some (rs @ [off + int (length ys)])"
    and "s_data_buffers t tid = Some (q, ds @ [ys])"
proof -
  note se = sector_end_run [OF assms(3,6)]
  let ?n = "min count (getSectorEnd off g - off)"
  have "{off..<off + ?n} \<subseteq> {off..<getSectorEnd off g}" by auto
  then have cov: "{off..<off + ?n} \<subseteq> covered (f_sectors g)" using se(2) by (rule subset_trans)
  have n0: "0 \<le> ?n" using se(1) assms(5) by simp
  obtain ys where ys: "load_at off ?n g = Inr ys" "int (length ys) = ?n" "reads g off ys"
    by (rule load_covered [OF assms(3,4) n0 cov])
  obtain os where os: "thenM (try_update_file i (createBuffer (env_sys E) (env_quota E) p False)) (reply_bytes tid fd i off ?n) s =
      Inr ((), s\<lparr>s_responses := (s_responses s)(tid \<mapsto> rs @ [off + ?n]),
        s_data_buffers := (s_data_buffers s)(tid \<mapsto> (q, ds @ [ys])), s_offsets := os\<rparr>)"
    by (rule serve_run [OF assms(1,2) se(3) ys(1)])
  have n: "(if off + count < getSectorEnd off g then count
      else if getSectorEnd off g = CAPIO_SECTOR_NOT_FOUND then 0 else getSectorEnd off g - off) = ?n" using assms(6) by auto
  have "handle_pending_read E tid fd off count s =
      thenM (try_update_file i (createBuffer (env_sys E) (env_quota E) p False)) (reply_bytes tid fd i off ?n) s"
    unfolding handle_pending_read_def Let_def by (simp only: bindM_def fd_at_lookups [OF assms(1)] sum.case prod.case n)
  note run = trans [OF this os]
  show thesis by (rule that [OF run ys(3,2)]) (simp_all add: ys(2))
qed

text \<open>
  C4: A read waits until the file is complete, and is then answered. Take a consumer that reads a file
  which is not complete and may not be read while it is written: it gets no answer, and a thread
  waits that is not ready. When, in any later state, the close comes that is the last one the
  commit rule of the file asks for, the server completes the file, the thread becomes ready, and
  it gives the consumer the bytes the file has at the offset of the read, as many as were asked
  for or as there are.
\<close>

theorem reader_waits_for_commit:
  assumes "fd_at s ctid cfd p i f off" and "consumes E s ctid p" and "\<not> isCommitted f" and "\<not> cl_isFirable E p"
    and "fd_at s1 ctid cfd p i g off" and "fd_at s1 ptid pfd p i g poff" and "(ctid, cfd) \<noteq> (ptid, pfd)" and "can_reply s1 ctid rs q ds"
    and "file_wf g" and "\<not> f_permanent g" and "getSectorEnd off g \<noteq> CAPIO_SECTOR_NOT_FOUND"
    and "cl_getCommitRule E p = ON_CLOSE" and "file_closed (file_close g)" and "p \<noteq> []" and "0 \<le> off" and "0 \<le> count"
    and "in_range 32 ctid" and "in_range 32 cfd" and "in_range 64 count" and "in_range 32 ptid" and "in_range 32 pfd"
  shows "let w = Wait_read_commit i ctid cfd count off
    in capio_server E (request_text CAPIO_REQUEST_READ [IntA ctid, IntA cfd, IntA count]) s =
         Inr ((), s\<lparr>s_waiting := s_waiting s @ [w]\<rparr>) \<and> \<not> waiter_ready E w s \<and>
       (\<exists>s2 s3 ys. capio_server E (request_text CAPIO_REQUEST_CLOSE [IntA ptid, IntA pfd]) s1 = Inr ((), s2) \<and> waiter_ready E w s2 \<and>
          run_waiter E w s2 = Inr ((), s3) \<and> reads g off ys \<and> int (length ys) = min count (getSectorEnd off g - off) \<and>
          s_responses s3 ctid = Some (rs @ [off + int (length ys)]) \<and> s_data_buffers s3 ctid = Some (q, ds @ [ys]))"
proof -
  let ?w = "Wait_read_commit i ctid cfd count off"
  have fi: "s_files s i = Some f" using assms(1) by (simp add: fd_at_def)
  have reading: "capio_server E (request_text CAPIO_REQUEST_READ [IntA ctid, IntA cfd, IntA count]) s = Inr ((), s\<lparr>s_waiting := s_waiting s @ [?w]\<rparr>)"
    unfolding read_handler_consumer [OF assms(1,2,17-19)] using assms(3,4)
    by (simp add: handle_local_read_def bindM_def fd_at_lookups [OF assms(1)] spawn_def modifyM_def Let_def)
  have waits: "\<not> waiter_ready E ?w s"
    using assms(3) fi by (simp add: waiter_ready_def file_cond_def waitForCommit_done_def isCommitted_def)
  define g' where "g' = removeFd ptid pfd (setCommitted True (file_close g))"
  let ?s2 = "s1\<lparr>s_files := (s_files s1)(i \<mapsto> g'), s_fds := AList.delete (ptid, pfd) (s_fds s1)\<rparr>"
  have closed: "capio_server E (request_text CAPIO_REQUEST_CLOSE [IntA ptid, IntA pfd]) s1 = Inr ((), ?s2)"
    unfolding g'_def by (rule close_commits [OF assms(6,14,10,12,13,20,21)])
  have same: "same_storage g g'" and com: "f_committed g'"
    by (simp_all add: g'_def same_storage_def removeFd_def setCommitted_def file_close_def Let_def)
  have ready: "waiter_ready E ?w ?s2" using com by (simp add: waiter_ready_def file_cond_def waitForCommit_done_def)
  have fd: "fd_at ?s2 ctid cfd p i g' off"
    using assms(5,7) by (auto simp: fd_at_def storage_find_def map_of_delete_other)
  have eos: "getSectorEnd off g' = getSectorEnd off g" and bytes: "byte_at g' = byte_at g"
    using same by (auto simp: same_storage_def getSectorEnd_def byte_at_def fun_eq_iff)
  have cr: "can_reply ?s2 ctid rs q ds" using assms(8) by (simp add: can_reply_def)
  obtain t ys where t: "handle_pending_read E ctid cfd off count ?s2 = Inr ((), t)" "reads g' off ys"
    "int (length ys) = min count (getSectorEnd off g - off)" "s_responses t ctid = Some (rs @ [off + int (length ys)])"
    "s_data_buffers t ctid = Some (q, ds @ [ys])"
    using pending_read_run [OF fd cr file_wf_same_storage [OF same assms(9)] assms(15,16)] assms(11) unfolding eos by blast
  have "run_waiter E ?w ?s2 = Inr ((), t)"
    using fd_at_lookups(4) [OF fd] t(1) by (simp add: run_waiter_def after_wait_def bindM_def)
  moreover have "reads g off ys" using t(2) bytes by (simp add: reads_def)
  ultimately show ?thesis using reading waits closed ready t(3-5) unfolding Let_def by blast
qed

text \<open>Thread 8 has written two bytes of \<open>/x\<close>, which one close completes; thread 7 reads four.\<close>

definition env_on_close :: env where
  "env_on_close = (env_example ''a'')\<lparr>cl_getCommitRule := (\<lambda>_. ON_CLOSE), cl_getCommitCloseCount := (\<lambda>_. 1)\<rparr>"

definition produced_file :: capio_file where
  "produced_file = (CapioFile_file False False 4 1)\<lparr>f_buffer := \<lparr>buf_data = Some [Some 1, Some 2, None, None], buf_size = 4, buf_storage = HeapStorageInterface\<rparr>,
     f_sectors := [(0, 2)], f_n_opens := 2, f_threads_fd := [(7, 3), (8, 4)]\<rparr>"

definition producing :: server where
  "producing = opened\<lparr>s_responses := [7 \<mapsto> [], 8 \<mapsto> []], s_files := [0 \<mapsto> produced_file], s_offsets := [0 \<mapsto> 0, 1 \<mapsto> 2], s_next_offset := 2,
     s_by_producer := [7 \<mapsto> [], 8 \<mapsto> [''/x'']],
     s_fds := [((7, 3), \<lparr>t_pointer = Some 0, t_offset = Some 0, t_path = ''/x''\<rparr>),
               ((8, 4), \<lparr>t_pointer = Some 0, t_offset = Some 1, t_path = ''/x''\<rparr>)]\<rparr>"

lemmas producing_defs = producing_def opened_def connected_def server_init_def

theorem reader_waits_for_commit_witness:
  "capio_server env_on_close (request_text CAPIO_REQUEST_READ [IntA 7, IntA 3, IntA 4]) producing =
     Inr ((), producing\<lparr>s_waiting := [Wait_read_commit 0 7 3 4 0]\<rparr>) \<and>
   (\<exists>s2 s3 ys. capio_server env_on_close (request_text CAPIO_REQUEST_CLOSE [IntA 8, IntA 4]) producing = Inr ((), s2) \<and>
      run_waiter env_on_close (Wait_read_commit 0 7 3 4 0) s2 = Inr ((), s3) \<and> reads produced_file 0 ys \<and> length ys = 2 \<and>
      s_responses s3 7 = Some [2] \<and> s_data_buffers s3 7 = Some (sq_new 4 8, [ys]))"
proof -
  have fds: "fd_at producing 7 3 ''/x'' 0 produced_file 0" "fd_at producing 8 4 ''/x'' 0 produced_file 2"
    by (simp_all add: fd_at_def storage_find_def producing_defs)
  have con: "consumes env_on_close producing 7 ''/x''"
    by (simp add: consumes_def env_on_close_def env_example_def producing_defs getAppName_def isProducer_def getsM_def bindM_def node_str_def)
  have cr: "can_reply producing 7 [] (sq_new 4 8) []" by (simp add: can_reply_def producing_defs CAPIO_REQ_BUFF_CNT_def)
  have wf: "file_wf produced_file"
    by (simp add: produced_file_def file_wf_def buf_wf_def buf_empty_def sectors_within_def)
  have eos: "getSectorEnd 0 produced_file = 2"
    by (simp add: produced_file_def getSectorEnd_def ss_getSectorEnd_def upper_bound_def compareSectors_def)
  have com: "\<not> isCommitted produced_file" "\<not> f_permanent produced_file" "file_closed (file_close produced_file)"
    by (simp_all add: produced_file_def isCommitted_def CapioFile_file_def CapioFile_default_def file_closed_def file_close_def)
  have env: "\<not> cl_isFirable env_on_close ''/x''" "cl_getCommitRule env_on_close ''/x'' = ON_CLOSE"
    by (simp_all add: env_on_close_def env_example_def)
  have "s_waiting producing = []" by (simp add: producing_defs)
  moreover have "getSectorEnd 0 produced_file \<noteq> CAPIO_SECTOR_NOT_FOUND" by (simp add: eos CAPIO_SECTOR_NOT_FOUND_def)
  from reader_waits_for_commit [OF fds(1) con com(1) env(1) fds _ cr wf com(2) this env(2) com(3), of 4] eos
  have "capio_server env_on_close (request_text CAPIO_REQUEST_READ [IntA 7, IntA 3, IntA 4]) producing =
     Inr ((), producing\<lparr>s_waiting := s_waiting producing @ [Wait_read_commit 0 7 3 4 0]\<rparr>)"
   "\<exists>s2 s3 ys. capio_server env_on_close (request_text CAPIO_REQUEST_CLOSE [IntA 8, IntA 4]) producing = Inr ((), s2) \<and>
      run_waiter env_on_close (Wait_read_commit 0 7 3 4 0) s2 = Inr ((), s3) \<and> reads produced_file 0 ys \<and> int (length ys) = 2 \<and>
      s_responses s3 7 = Some [int (length ys)] \<and> s_data_buffers s3 7 = Some (sq_new 4 8, [ys])"
    by (auto simp: in_range_def Let_def)
  ultimately show ?thesis by (auto intro: exI)
qed

end
