(* ===== verification/Copy.thy ===== *)
theory Copy
  imports Commit
begin

text \<open>
  Copies on the server: a request of \<open>copy_file_range\<close> moves bytes from one file of the node to
  another, or within one file, without the client. The lemmas follow \<open>copy_file_range_data\<close> from
  the lookup of the input to the answer; the property states what the request does.
\<close>

section \<open>The bytes that are copied\<close>

definition copy_size :: "capio_file \<Rightarrow> off64 \<Rightarrow> off64 \<Rightarrow> off64" where
  "copy_size f off count =
     (if getSectorEnd off f = CAPIO_SECTOR_NOT_FOUND then 0 else min count (getSectorEnd off f - off))"

lemma copy_size_covered:
  assumes "file_wf f" and "0 \<le> count"
  shows "0 \<le> copy_size f off count" and "copy_size f off count \<le> count"
    and "{off..<off + copy_size f off count} \<subseteq> covered (f_sectors f)"
proof -
  show "0 \<le> copy_size f off count" "copy_size f off count \<le> count"
    using sector_end_run(1) [OF assms(1), of off] assms(2) by (auto simp: copy_size_def)
  have "{off..<off + copy_size f off count} \<subseteq> {off..<getSectorEnd off f}"
    if "getSectorEnd off f \<noteq> CAPIO_SECTOR_NOT_FOUND" using that by (auto simp: copy_size_def)
  then show "{off..<off + copy_size f off count} \<subseteq> covered (f_sectors f)"
    using sector_end_run(2) [OF assms(1), of off] by (cases "getSectorEnd off f = CAPIO_SECTOR_NOT_FOUND") (auto simp: copy_size_def)
qed

text \<open>The bytes, read from the input as it is after the output got its buffer.\<close>

lemma load_copied:
  assumes "file_wf f" and "file_wf f'" and "f_sectors f' = f_sectors f" and "byte_at f' = byte_at f"
    and "0 \<le> off" and "0 \<le> count"
  obtains xs where "load_at off (copy_size f off count) f' = Inr xs" and "int (length xs) = copy_size f off count" and "reads f off xs"
proof -
  note c = copy_size_covered [OF assms(1,6), of off]
  obtain xs where "load_at off (copy_size f off count) f' = Inr xs" "int (length xs) = copy_size f off count" "reads f' off xs"
    using load_covered [OF assms(2,5) c(1)] c(3) assms(3) by metis
  then show thesis using assms(4) by (intro that) (simp_all add: reads_def)
qed

section \<open>The copy\<close>

lemma frame_register_written:
  assumes "j \<noteq> i" and "storage_find (get_parent_dir_path p) s \<noteq> Some i"
  shows "keepsM (frame i s) (register_written_data E tid p j a b)"
  unfolding register_written_data_def
  by (intro keeps_intros frame_keeps frame_registerProducedFile updateDirectory_frame assms)

definition copy_ready :: "env \<Rightarrow> server \<Rightarrow> copy_range \<Rightarrow> nat \<Rightarrow> capio_file \<Rightarrow> nat \<Rightarrow> capio_file \<Rightarrow> off64 list \<Rightarrow> bool" where
  "copy_ready E s c i f j g rs \<longleftrightarrow>
     storage_find (cp_path_in c) s = Some i \<and> s_files s i = Some f \<and> file_wf f \<and>
     storage_find (cp_path_out c) s = Some j \<and> s_files s j = Some g \<and> file_wf g \<and> valid_request g \<and>
     nonneg_quota (env_quota E) \<and> storage_find (get_parent_dir_path (cp_path_out c)) s \<notin> {Some i, Some j} \<and>
     0 \<le> cp_offset_in c \<and> 0 \<le> cp_offset_out c \<and> 0 \<le> cp_count c \<and>
     s_responses s (cp_tid c) = Some rs \<and> length rs < CAPIO_REQ_BUFF_CNT"

text \<open>What a copy of the bytes \<open>xs\<close> leaves behind.\<close>

definition copied_state :: "server \<Rightarrow> copy_range \<Rightarrow> nat \<Rightarrow> capio_file \<Rightarrow> nat \<Rightarrow> capio_file \<Rightarrow> off64 list \<Rightarrow> cell list \<Rightarrow> server \<Rightarrow> bool" where
  "copied_state s c i f j g rs xs t \<longleftrightarrow>
     (\<exists>h. s_files t j = Some h \<and> file_wf h \<and> (if xs = [] then h = g else written g (cp_offset_out c) xs h)) \<and>
     (i \<noteq> j \<longrightarrow> s_files t i = Some f) \<and> s_fds t = s_fds s \<and> s_offsets t = s_offsets s \<and> s_storage t = s_storage s \<and>
     s_data_buffers t = s_data_buffers s \<and> s_responses t = (s_responses s)(cp_tid c \<mapsto> rs @ [int (length xs)])"

lemma copy_nothing:
  assumes "storage_find (cp_path_in c) s = Some i" and "s_files s i = Some f" and "copy_size f (cp_offset_in c) (cp_count c) = 0"
    and "s_responses s (cp_tid c) = Some rs" and "length rs < CAPIO_REQ_BUFF_CNT"
  shows "copy_file_range_data E c s = Inr ((), s\<lparr>s_responses := (s_responses s)(cp_tid c \<mapsto> rs @ [0])\<rparr>)"
proof -
  have look: "get_file (cp_path_in c) s = Inr (i, s)" "file_at i s = Inr (f, s)"
    using assms(1,2) by (simp_all add: get_file_def tryGet_def file_at_def monad_simps)
  show ?thesis
    using assms(3) replyToClient_run [OF assms(4,5), of 0] unfolding copy_file_range_data_def copy_size_def
    by (simp add: bindM_def look Let_def whenM_def thenM_def returnM_def)
qed

lemma copy_prepared:
  assumes "copy_ready E s c i f j g rs" and "0 < copy_size f (cp_offset_in c) (cp_count c)"
  defines "n \<equiv> copy_size f (cp_offset_in c) (cp_count c)"
  shows "copy_file_range_data E c s =
    (case prepare_write (env_sys E) (env_quota E) (cp_path_out c) (cp_offset_out c + n) g of
       Inl e \<Rightarrow> Inl e
     | Inr g1 \<Rightarrow> thenM (bindM (file_at i) (\<lambda>src.
           thenM (try_update_file j (copyFromFile src (cp_offset_in c) (cp_offset_out c) n))
             (register_written_data E (cp_tid c) (cp_path_out c) j (cp_offset_out c) (cp_offset_out c + n))))
         (replyToClient (cp_tid c) n) (s\<lparr>s_files := (s_files s)(j \<mapsto> g1)\<rparr>))"
proof -
  have look: "get_file (cp_path_in c) s = Inr (i, s)" "file_at i s = Inr (f, s)" "get_file (cp_path_out c) s = Inr (j, s)"
    "s_files s j = Some g"
    using assms(1) by (simp_all add: copy_ready_def get_file_def tryGet_def file_at_def monad_simps)
  have sz: "(if getSectorEnd (cp_offset_in c) f = CAPIO_SECTOR_NOT_FOUND then 0
      else min (cp_count c) (getSectorEnd (cp_offset_in c) f - cp_offset_in c)) = n" and n0: "0 < n"
    using assms(2) by (simp_all add: n_def copy_size_def)
  let ?k = "bindM (file_at i) (\<lambda>src. thenM (try_update_file j (copyFromFile src (cp_offset_in c) (cp_offset_out c) n))
             (register_written_data E (cp_tid c) (cp_path_out c) j (cp_offset_out c) (cp_offset_out c + n)))"
  have "copy_file_range_data E c s =
      thenM (thenM (try_update_file j (createBuffer (env_sys E) (env_quota E) (cp_path_out c) True))
        (bindM (file_at j) (\<lambda>f. thenM (whenM (getBufSize f < cp_offset_out c + n)
           (try_update_file j (expandBuffer (env_sys E) (env_quota E) (cp_offset_out c + n)))) ?k)))
        (replyToClient (cp_tid c) n) s"
    unfolding copy_file_range_data_def Let_def
    by (simp add: bindM_def [of "get_file (cp_path_in c)"] bindM_def [of "file_at i"] look sz n0 whenM_def [of True]
        thenM_def [of _ "replyToClient _ _"] bindM_def [of _ "\<lambda>_. replyToClient _ _"] bindM_def [of "get_file (cp_path_out c)"])
  also have "\<dots> = (case (case prepare_write (env_sys E) (env_quota E) (cp_path_out c) (cp_offset_out c + n) g of
       Inl e \<Rightarrow> Inl e | Inr g1 \<Rightarrow> ?k (s\<lparr>s_files := (s_files s)(j \<mapsto> g1)\<rparr>)) of
       Inl e \<Rightarrow> Inl e | Inr (_, t) \<Rightarrow> replyToClient (cp_tid c) n t)"
    by (simp add: thenM_def [of _ "replyToClient _ _"] bindM_def [of _ "\<lambda>_. replyToClient _ _"] prepare_run [OF look(4)])
  finally show ?thesis
    by (simp add: thenM_def [of _ "replyToClient _ _"] bindM_def [of _ "\<lambda>_. replyToClient _ _"] split: sum.split)
qed

text \<open>Registering a write to one file leaves the other files alone.\<close>

lemma registered_elsewhere:
  assumes "i \<noteq> j" and "s_files s i = Some f" and "storage_find (get_parent_dir_path p) s \<noteq> Some i"
    and "register_written_data E tid p j a b s = Inr (x, t)"
  shows "s_files t i = Some f"
proof -
  have k: "keepsM (frame i s) (register_written_data E tid p j a b)"
    using assms(1,3) by (intro frame_register_written) simp_all
  have "frame i s t" by (rule keepsMD [OF k frame_refl assms(4)])
  then show ?thesis using assms(2) by (simp add: frame_def)
qed

lemma copy_something:
  assumes ready: "copy_ready E s c i f j g rs" and pos: "0 < copy_size f (cp_offset_in c) (cp_count c)"
  defines "n \<equiv> copy_size f (cp_offset_in c) (cp_count c)"
  shows "case copy_file_range_data E c s of
      Inl e \<Rightarrow> isFirstWrite g \<or> prepare_write (env_sys E) (env_quota E) (cp_path_out c) (cp_offset_out c + n) g = Inl e
    | Inr (_, t) \<Rightarrow> \<exists>xs. reads f (cp_offset_in c) xs \<and> int (length xs) = n \<and> copied_state s c i f j g rs xs t"
proof -
  have look: "s_files s i = Some f" "file_wf f" "s_files s j = Some g" "file_wf g" "valid_request g" "nonneg_quota (env_quota E)"
    "storage_find (get_parent_dir_path (cp_path_out c)) s \<noteq> Some i" "storage_find (get_parent_dir_path (cp_path_out c)) s \<noteq> Some j"
    "0 \<le> cp_offset_in c" "0 \<le> cp_offset_out c" "0 \<le> cp_count c" "s_responses s (cp_tid c) = Some rs" "length rs < CAPIO_REQ_BUFF_CNT"
    using ready by (simp_all add: copy_ready_def)
  let ?a = "cp_offset_in c" and ?b = "cp_offset_out c" and ?p = "cp_path_out c"
  let ?reg = "register_written_data E (cp_tid c) ?p j ?b (?b + n)"
  note prepared = copy_prepared [OF ready pos, folded n_def]
  note prep = prepare_write_ok [OF look(4,6,5), where S = "env_sys E" and path = ?p and n = "?b + n"]
  show ?thesis
  proof (cases "prepare_write (env_sys E) (env_quota E) ?p (?b + n) g")
    case (Inl e)
    then show ?thesis by (simp add: prepared)
  next
    case (Inr g1)
    then have g1: "file_wf g1" "\<not> buf_empty (f_buffer g1)" "?b + n \<le> getBufSize g1" "f_sectors g1 = f_sectors g" "byte_at g1 = byte_at g"
      using prep by simp_all
    define src where "src = (if i = j then g1 else f)"
    have "file_wf src" "f_sectors src = f_sectors f" "byte_at src = byte_at f" using look(1-4) g1 by (auto simp: src_def)
    then obtain xs where xs: "load_at ?a n src = Inr xs" "int (length xs) = n" "reads f ?a xs"
      using load_copied [OF look(2) _ _ _ look(9,11)] unfolding n_def by metis
    obtain g2 where g2: "store_at ?b xs g1 = Inr g2"
      and reg: "\<And>s. s_files s j = Some g2 \<Longrightarrow> storage_find (get_parent_dir_path ?p) s \<noteq> Some j \<Longrightarrow>
        case ?reg s of
          Inl e \<Rightarrow> isFirstWrite g
        | Inr (_, t) \<Rightarrow> \<exists>h. frame j (s\<lparr>s_files := (s_files s)(j \<mapsto> h)\<rparr>) t \<and> wrote E g ?b xs h"
      using stored_and_registered [OF look(4,5,6,10) Inr [folded xs(2)], where i = j and tid = "cp_tid c", unfolded xs(2)] by blast
    let ?s2 = "s\<lparr>s_files := (s_files s)(j \<mapsto> g2)\<rparr>"
    have run: "copy_file_range_data E c s = thenM ?reg (replyToClient (cp_tid c) n) ?s2"
      using look(1,3) xs(1) g2 Inr
      by (simp add: prepared file_at_def try_update_file_def copyFromFile_def set_file_def src_def monad_simps split: if_splits)
    have outcome: "case ?reg ?s2 of
        Inl e \<Rightarrow> isFirstWrite g
      | Inr (_, t) \<Rightarrow> \<exists>h. frame j (?s2\<lparr>s_files := (s_files ?s2)(j \<mapsto> h)\<rparr>) t \<and> wrote E g ?b xs h"
      by (rule reg) (use look(8) in \<open>simp_all add: storage_find_def\<close>)
    show ?thesis
    proof (cases "?reg ?s2")
      case Inl': (Inl e)
      then show ?thesis using run outcome by (simp add: thenM_def bindM_def)
    next
      case Inr': (Inr xt)
      then obtain x t where t: "?reg ?s2 = Inr (x, t)" by (cases xt) simp
      then obtain h where h: "frame j (?s2\<lparr>s_files := (s_files ?s2)(j \<mapsto> h)\<rparr>) t" "wrote E g ?b xs h" using outcome by auto
      have fin: "copy_file_range_data E c s = Inr ((), t\<lparr>s_responses := (s_responses t)(cp_tid c \<mapsto> rs @ [n])\<rparr>)"
        unfolding run using t look(12,13) h(1) by (simp add: thenM_def bindM_def frame_def replyToClient_run)
      have "i \<noteq> j \<longrightarrow> s_files t i = Some f"
        using registered_elsewhere [OF _ _ _ t, of i f] look(1,7) by (simp add: storage_find_def)
      then have "copied_state s c i f j g rs xs (t\<lparr>s_responses := (s_responses t)(cp_tid c \<mapsto> rs @ [n])\<rparr>)"
        using h xs(2) pos by (auto simp: copied_state_def frame_def wrote_def n_def)
      then show ?thesis using fin xs(2,3) by auto
    qed
  qed
qed

section \<open>The request\<close>

text \<open>The client may copy at once from an input it produced, or from a complete one that lies on the node.\<close>

definition copy_allowed :: "env \<Rightarrow> server \<Rightarrow> int \<Rightarrow> path \<Rightarrow> capio_file \<Rightarrow> bool" where
  "copy_allowed E s tid p f \<longleftrightarrow> produces tid p s \<or> consumes E s tid p \<and> isCommitted f"

lemma copy_handler_allowed:
  assumes "fd_at s tid fd_in p_in i f x" and "fd_at s tid fd_out p_out j g y" and "copy_allowed E s tid p_in f"
    and "in_range 32 tid" "in_range 32 fd_in" "in_range 32 fd_out" "in_range 64 a" "in_range 64 b" "in_range 64 n"
  shows "capio_server E (request_text CAPIO_REQUEST_COPY_FILE_RANGE [IntA tid, IntA fd_in, IntA fd_out, IntA a, IntA b, IntA n]) s =
    copy_file_range_data E \<lparr>cp_tid = tid, cp_fd_in = fd_in, cp_fd_out = fd_out, cp_offset_in = a, cp_offset_out = b, cp_count = n,
      cp_path_in = p_in, cp_path_out = p_out\<rparr> s"
proof -
  let ?as = "[IntA tid, IntA fd_in, IntA fd_out, IntA a, IntA b, IntA n]"
  let ?c = "\<lparr>cp_tid = tid, cp_fd_in = fd_in, cp_fd_out = fd_out, cp_offset_in = a, cp_offset_out = b, cp_count = n,
      cp_path_in = p_in, cp_path_out = p_out\<rparr>"
  have sc: "scan (tl (show_args ?as)) [Conv_d, Conv_d, Conv_d, Conv_ld, Conv_ld, Conv_ld] = (returnM ?as :: arg list srv)"
    by (rule scan_tl_show_args) (simp add: assms)
  have req: "capio_server E (request_text CAPIO_REQUEST_COPY_FILE_RANGE ?as) = copy_file_range_handler E (tl (show_args ?as))"
    by (simp add: capio_server_request request_codes request_handlers_def)
  obtain app where app: "getAppName tid s = Inr (app, s)" by (simp add: getAppName_def getsM_def)
  have as: "int_arg ?as 0 = tid" "int_arg ?as 1 = fd_in" "int_arg ?as 2 = fd_out" "int_arg ?as 3 = a" "int_arg ?as 4 = b" "int_arg ?as 5 = n"
    by (simp_all add: int_arg_def)
  have run: "capio_server E (request_text CAPIO_REQUEST_COPY_FILE_RANGE ?as) s =
      bindM (if cl_isProducer E p_in app then returnM True else isProducer tid p_in) (\<lambda>is_prod.
        bindM (get_file_location_opt p_in) (\<lambda>l.
          if \<not> is_prod \<and> l = None then spawn (Wait_copy_creation ?c) else handle_copy_file_range E ?c is_prod)) s"
    unfolding req copy_file_range_handler_def sc bindM_return Let_def as
    by (simp add: bindM_def [of "getPath tid fd_in"] bindM_def [of "getPath tid fd_out"] bindM_def [of "getAppName tid"]
        fd_at_lookups [OF assms(1)] fd_at_lookups [OF assms(2)] app)
  have complete: "handle_local_copy_file_range E ?c q s = copy_file_range_data E ?c s" if "q \<or> isCommitted f" for q
    using that by (auto simp: handle_local_copy_file_range_def bindM_def fd_at_lookups [OF assms(1)] Let_def)
  show ?thesis
  proof (cases "cl_isProducer E p_in app \<or> produces tid p_in s")
    case True
    then have "(if cl_isProducer E p_in app then returnM True else isProducer tid p_in) s = Inr (True, s)"
      using app by (auto simp: isProducer_def produces_def monad_simps)
    then show ?thesis
      by (simp add: run bindM_def get_file_location_opt_def getsM_def handle_copy_file_range_def complete)
  next
    case False
    then have c: "consumes E s tid p_in" "isCommitted f" using assms(3) by (auto simp: copy_allowed_def)
    then obtain node loc where "isProducer tid p_in s = Inr (False, s)" "s_locations s p_in = Some (node, loc)" "node_str E node = be_node_name E"
      unfolding consumes_def by blast
    then show ?thesis using False c(2)
      by (simp add: run bindM_def get_file_location_opt_def get_file_location_def optM_def getsM_def returnM_def handle_copy_file_range_def complete)
  qed
qed

lemma copy_request_run:
  assumes "fd_at s tid fd_in p_in i f x" and "fd_at s tid fd_out p_out j g y" and "copy_allowed E s tid p_in f"
    and "file_wf f" and "file_wf g" and "valid_request g" and "nonneg_quota (env_quota E)"
    and "storage_find (get_parent_dir_path p_out) s \<notin> {Some i, Some j}" and "0 \<le> a" and "0 \<le> b" and "0 \<le> n"
    and "s_responses s tid = Some rs" and "length rs < CAPIO_REQ_BUFF_CNT" and "in_range 32 tid" and "in_range 32 fd_in"
    and "in_range 32 fd_out" and "in_range 64 a" and "in_range 64 b" and "in_range 64 n"
  shows "case capio_server E (request_text CAPIO_REQUEST_COPY_FILE_RANGE
        [IntA tid, IntA fd_in, IntA fd_out, IntA a, IntA b, IntA n]) s of
      Inl e \<Rightarrow> isFirstWrite g \<or> \<not> (grants (env_sys E) \<and> in_heap g) \<and> (e = ErrExit \<or> (\<exists>c. e = Throws c))
    | Inr (_, t) \<Rightarrow> \<exists>xs h. reads f a xs \<and>
        int (length xs) = (if getSectorEnd a f = CAPIO_SECTOR_NOT_FOUND then 0 else min n (getSectorEnd a f - a)) \<and>
        fd_at t tid fd_out p_out j h y \<and> file_wf h \<and> written g b xs h \<and> (i \<noteq> j \<longrightarrow> fd_at t tid fd_in p_in i f x) \<and>
        s_responses t = (s_responses s)(tid \<mapsto> rs @ [int (length xs)])"
proof -
  let ?c = "\<lparr>cp_tid = tid, cp_fd_in = fd_in, cp_fd_out = fd_out, cp_offset_in = a, cp_offset_out = b, cp_count = n,
      cp_path_in = p_in, cp_path_out = p_out\<rparr>"
  have ready: "copy_ready E s ?c i f j g rs"
    using assms(1,2,4-13) by (simp add: copy_ready_def fd_at_def)
  have w: "written g b [] g" by (auto simp: written_def)
  have result: "\<exists>xs h. reads f a xs \<and> int (length xs) = copy_size f a n \<and> fd_at t tid fd_out p_out j h y \<and> file_wf h \<and>
      written g b xs h \<and> (i \<noteq> j \<longrightarrow> fd_at t tid fd_in p_in i f x) \<and> s_responses t = (s_responses s)(tid \<mapsto> rs @ [int (length xs)])"
    if r: "reads f a xs" "int (length xs) = copy_size f a n" "copied_state s ?c i f j g rs xs t" for xs t
  proof -
    obtain h where h: "s_files t j = Some h" "file_wf h" "written g b xs h"
      using r(3) w by (auto simp: copied_state_def split: if_splits)
    moreover have "fd_at t tid fd_out p_out j h y"
      using r(3) assms(2) h(1) by (simp add: fd_at_def copied_state_def storage_find_def)
    moreover have "i \<noteq> j \<longrightarrow> fd_at t tid fd_in p_in i f x"
      using r(3) assms(1) by (simp add: fd_at_def copied_state_def storage_find_def)
    moreover have "s_responses t = (s_responses s)(tid \<mapsto> rs @ [int (length xs)])"
      using r(3) by (simp add: copied_state_def)
    ultimately show ?thesis using r(1,2) by blast
  qed
  have fails: "\<not> (grants (env_sys E) \<and> in_heap g) \<and> (e = ErrExit \<or> (\<exists>c. e = Throws c))"
    if "prepare_write (env_sys E) (env_quota E) p_out k g = Inl e" for e k
    using prepare_write_granted [OF _ _ assms(5,7,6), of "env_sys E" p_out k]
      prepare_write_ok [OF assms(5,7,6), where S = "env_sys E" and path = p_out and n = k] that by auto
  have "case copy_file_range_data E ?c s of
      Inl e \<Rightarrow> isFirstWrite g \<or> \<not> (grants (env_sys E) \<and> in_heap g) \<and> (e = ErrExit \<or> (\<exists>c. e = Throws c))
    | Inr (_, t) \<Rightarrow> \<exists>xs. reads f a xs \<and> int (length xs) = copy_size f a n \<and> copied_state s ?c i f j g rs xs t"
  proof (cases "copy_size f a n = 0")
    case True
    then have "copy_file_range_data E ?c s = Inr ((), s\<lparr>s_responses := (s_responses s)(tid \<mapsto> rs @ [0])\<rparr>)"
      using copy_nothing [of ?c s i f rs E] ready by (simp add: copy_ready_def)
    then show ?thesis using ready True by (auto simp: reads_def copied_state_def copy_ready_def)
  next
    case False
    then have "0 < copy_size f a n" using copy_size_covered(1) [OF assms(4,11), of a] by simp
    then show ?thesis using copy_something [OF ready] fails by (auto split: sum.splits)
  qed
  then show ?thesis
    unfolding copy_handler_allowed [OF assms(1-3,14-19)] copy_size_def [symmetric] using result by (fastforce split: sum.splits)
qed

text \<open>
  C10: A copy request copies. When the client may read the input at once, the server stores the bytes
  of the input from the offset on, as many as were asked for or as follow without a hole, into the
  output at its offset, and answers how many; all other bytes of the output, the input and the
  offsets of the two descriptors stay as they are. Input and output may be the same file. A request
  fails only when the memory for the output is refused, or in the first write of the output, which
  also enters it into its directory.
\<close>

theorem copy_request_copies_bytes:
  assumes "fd_at s tid fd_in p_in i f x" and "fd_at s tid fd_out p_out j g y" and "copy_allowed E s tid p_in f"
    and "file_wf f" and "file_wf g" and "valid_request g" and "nonneg_quota (env_quota E)"
    and "storage_find (get_parent_dir_path p_out) s \<notin> {Some i, Some j}" and "0 \<le> a" and "0 \<le> b" and "0 \<le> n"
    and "s_responses s tid = Some rs" and "length rs < CAPIO_REQ_BUFF_CNT" and "in_range 32 tid" and "in_range 32 fd_in"
    and "in_range 32 fd_out" and "in_range 64 a" and "in_range 64 b" and "in_range 64 n"
  shows "case capio_server E (request_text CAPIO_REQUEST_COPY_FILE_RANGE
        [IntA tid, IntA fd_in, IntA fd_out, IntA a, IntA b, IntA n]) s of
      Inl e \<Rightarrow> isFirstWrite g \<or> \<not> (grants (env_sys E) \<and> in_heap g) \<and> (e = ErrExit \<or> (\<exists>c. e = Throws c))
    | Inr (_, t) \<Rightarrow> \<exists>xs h. reads f a xs \<and>
        int (length xs) = (if getSectorEnd a f = CAPIO_SECTOR_NOT_FOUND then 0 else min n (getSectorEnd a f - a)) \<and>
        fd_at t tid fd_out p_out j h y \<and> file_wf h \<and> written g b xs h \<and> (i \<noteq> j \<longrightarrow> fd_at t tid fd_in p_in i f x) \<and>
        s_responses t = (s_responses s)(tid \<mapsto> rs @ [int (length xs)])"
  by (rule copy_request_run [OF assms])

text \<open>Thread 7 copies from \<open>/x\<close>, which it has written, to \<open>/y\<close>.\<close>

definition source_file :: capio_file where
  "source_file = (CapioFile_file False False 4 0)\<lparr>f_buffer := \<lparr>buf_data = Some [Some 1, Some 2, None, None], buf_size = 4, buf_storage = HeapStorageInterface\<rparr>,
     f_sectors := [(0, 2)], f_first_write := False, f_n_opens := 1, f_threads_fd := [(7, 3)]\<rparr>"

definition target_file :: capio_file where
  "target_file = (CapioFile_file False False 4 0)\<lparr>f_first_write := False, f_n_opens := 1, f_threads_fd := [(7, 4)]\<rparr>"

definition two_open :: server where
  "two_open = connected\<lparr>s_storage := [(''/x'', 0), (''/y'', 1)], s_files := [0 \<mapsto> source_file, 1 \<mapsto> target_file],
     s_offsets := [0 \<mapsto> 0, 1 \<mapsto> 0], s_next_file := 2, s_next_offset := 2, s_by_producer := [7 \<mapsto> [''/x'', ''/y'']],
     s_fds := [((7, 3), \<lparr>t_pointer = Some 0, t_offset = Some 0, t_path = ''/x''\<rparr>),
               ((7, 4), \<lparr>t_pointer = Some 1, t_offset = Some 1, t_path = ''/y''\<rparr>)]\<rparr>"

lemma two_open_facts:
  "fd_at two_open 7 3 ''/x'' 0 source_file 0" "fd_at two_open 7 4 ''/y'' 1 target_file 0" "copy_allowed E two_open 7 ''/x'' source_file"
  "file_wf source_file" "file_wf target_file" "valid_request target_file" "in_heap target_file" "\<not> isFirstWrite target_file"
  "storage_find (get_parent_dir_path ''/y'') two_open = None" "s_responses two_open 7 = Some []" "getSectorEnd 0 source_file = 2"
  by (simp_all add: fd_at_def storage_find_def two_open_def connected_def server_init_def copy_allowed_def produces_def file_wf_def
      buf_wf_def buf_empty_def sectors_within_def source_file_def target_file_def CapioFile_file_def CapioFile_default_def HeapBuffer_def
      valid_request_def in_heap_def isFirstWrite_def get_parent_dir_path_def rfind_char_def upt_rec getSectorEnd_def ss_getSectorEnd_def
      upper_bound_def compareSectors_def)

theorem copy_request_copies_bytes_witness:
  "\<exists>t xs h. capio_server (env_example ''a'') (request_text CAPIO_REQUEST_COPY_FILE_RANGE [IntA 7, IntA 3, IntA 4, IntA 0, IntA 1, IntA 9]) two_open =
     Inr ((), t) \<and> reads source_file 0 xs \<and> length xs = 2 \<and> fd_at t 7 4 ''/y'' 1 h 0 \<and> written target_file 1 xs h \<and> s_responses t 7 = Some [2]"
proof -
  note f = two_open_facts
  have "nonneg_quota (env_quota (env_example ''a''))" "grants (env_sys (env_example ''a''))"
    by (simp_all add: env_example_def nonneg_quota_def grants_def sys_ok_def)
  then show ?thesis
    using copy_request_copies_bytes [OF f(1-3) f(4-6), of "env_example ''a''" 0 1 9 "[]"] f(7-11)
    by (auto simp: in_range_def CAPIO_REQ_BUFF_CNT_def CAPIO_SECTOR_NOT_FOUND_def split: sum.splits) (intro exI conjI, assumption+)
qed

end
