(* ===== verification/Node_Copy.thy ===== *)
theory Node_Copy
  imports Node Copy
begin

text \<open>
  A copy from the library to the server and back: the loop of \<open>capio_copy_file_range_on_server\<close> on
  the machine of one node. It ends after at most two requests, since a request copies all bytes
  up to the next hole, and nothing at a hole.
\<close>

section \<open>The permission to copy stays\<close>

lemma consumes_iff:
  "consumes E s tid p \<longleftrightarrow>
     (let app = (case s_app_names s tid of Some n \<Rightarrow> n | None \<Rightarrow> CAPIO_DEFAULT_APP_NAME)
      in \<not> cl_isProducer E p app \<and> \<not> produces tid p s \<and> (\<forall>qs. s_by_app s app = Some qs \<longrightarrow> p \<notin> set qs)) \<and>
     (\<exists>node loc. s_locations s p = Some (node, loc) \<and> node_str E node = be_node_name E)"
  by (auto simp: consumes_def getAppName_def isProducer_def produces_def getsM_def bindM_def Let_def split: option.splits)

lemma allowed_basic:
  "q \<noteq> p \<Longrightarrow> keepsM (\<lambda>s. copy_allowed E s tid p f) (registerProducedFile tid' q)"
  "keepsM (\<lambda>s. copy_allowed E s tid p f) (write_file_location E' q)"
  "keepsM (\<lambda>s. copy_allowed E s tid p f) (file_at j)" "keepsM (\<lambda>s. copy_allowed E s tid p f) (update_file j g)"
  "keepsM (\<lambda>s. copy_allowed E s tid p f) (try_update_file j h)" "keepsM (\<lambda>s. copy_allowed E s tid p f) (get_file q)"
  "keepsM (\<lambda>s. copy_allowed E s tid p f) (replyToClient tid' v)"
  by (rule keepsMI, auto simp: copy_allowed_def consumes_iff Let_def produces_def registerProducedFile_def getAppName_def write_file_location_def
       add_file_location_def map_emplace_def file_at_def update_file_def try_update_file_def set_file_def get_file_def tryGet_def
       replyToClient_def monad_simps split: option.splits sum.splits if_splits)+

lemma allowed_directory:
  assumes "get_parent_dir_path q \<noteq> p"
  shows "keepsM (\<lambda>s. copy_allowed E s tid p f) (updateDirectory E' tid' q)"
  using assms unfolding updateDirectory_def addDirectoryEntry_def Let_def by (intro keeps_intros allowed_basic)

lemma allowed_copy:
  assumes "cp_path_out c \<noteq> p" and "get_parent_dir_path (cp_path_out c) \<noteq> p"
  shows "keepsM (\<lambda>s. copy_allowed E s tid p f) (copy_file_range_data E' c)"
  unfolding copy_file_range_data_def register_written_data_def
  by (intro keeps_let keeps_intros allowed_basic allowed_directory assms)

section \<open>One request\<close>

text \<open>An offset without data ends the copy.\<close>

lemma copy_size_uncovered:
  assumes "file_wf f" and "0 \<le> n" and "x \<notin> covered (f_sectors f)"
  shows "copy_size f x n = 0"
proof (rule ccontr)
  assume "copy_size f x n \<noteq> 0"
  then have "x \<in> {x..<x + copy_size f x n}" using copy_size_covered(1) [OF assms(1,2), of x] by simp
  then show False using copy_size_covered(3) [OF assms(1,2), of x] assms(3) by (blast dest: subsetD)
qed

lemma copy_size_rest:
  assumes "file_wf f" and "0 \<le> count" and "copy_size f a count < count"
  shows "copy_size f (a + copy_size f a count) (count - copy_size f a count) = 0"
proof -
  have wf: "wf_sectors (f_sectors f)" using assms(1) by (simp add: file_wf_def)
  show ?thesis
  proof (cases "getSectorEnd a f = CAPIO_SECTOR_NOT_FOUND")
    case True
    then show ?thesis by (simp add: copy_size_def)
  next
    case False
    then have "a + copy_size f a count = getSectorEnd a f" using assms(3) by (simp add: copy_size_def)
    then have "a + copy_size f a count \<notin> covered (f_sectors f)"
      using ss_getSectorEnd_extent(3) [OF wf, of a] False by (simp add: getSectorEnd_def CAPIO_SECTOR_NOT_FOUND_def)
    then show ?thesis using copy_size_covered(2) [OF assms(1,2), of a] by (intro copy_size_uncovered assms) simp_all
  qed
qed

text \<open>The request and its answer on the machine.\<close>

lemma copy_request_answered:
  assumes "c_tid st = tid" and "m_pending (c_world st) = []"
    and "capio_server E (request_text CAPIO_REQUEST_COPY_FILE_RANGE [IntA tid, IntA fd_in, IntA fd_out, IntA a, IntA b, IntA n])
      (m_server (c_world st)) = Inr ((), t)"
    and "s_responses t tid = Some [v]"
    and "in_range 32 tid" "in_range 32 fd_in" "in_range 32 fd_out" "in_range 64 a" "in_range 64 b" "in_range 64 n"
  shows "copy_file_range_request (machine_host E) fd_in fd_out a b n tid st =
    Inr (v, st\<lparr>c_world := (c_world st)\<lparr>m_server := t\<lparr>s_responses := (s_responses t)(tid \<mapsto> [])\<rparr>\<rparr>\<rparr>)"
proof -
  have "length (request_text CAPIO_REQUEST_COPY_FILE_RANGE [IntA tid, IntA fd_in, IntA fd_out, IntA a, IntA b, IntA n]) < CAPIO_REQ_MAX_SIZE"
    using request_fits [of CAPIO_REQUEST_COPY_FILE_RANGE "[tid, fd_in, fd_out, a, b, n]"] assms(5-10) by (simp add: in_range_def request_codes)
  moreover have "take_response E tid ((c_world st)\<lparr>m_server := t\<rparr>) =
      Inr (v, (c_world st)\<lparr>m_server := t\<lparr>s_responses := (s_responses t)(tid \<mapsto> [])\<rparr>\<rparr>)"
    using take_response_run [where m = "(c_world st)\<lparr>m_server := t\<rparr>"] assms(4) by simp
  ultimately show ?thesis
    using assms(1) put_request_run [OF assms(2,3)]
    by (simp add: copy_file_range_request_def write_text_def tryWorld_def read_response_def runWorld_def machine_host_fields
        thenM_def bindM_def getsM_def)
qed

section \<open>The loop\<close>

text \<open>
  A thread with two descriptors: on an input it may read, and on an output in memory that was
  written before. No answer is under way.
\<close>

definition copy_serving ::
    "env \<Rightarrow> int \<Rightarrow> int \<Rightarrow> path \<Rightarrow> nat \<Rightarrow> capio_file \<Rightarrow> off64 \<Rightarrow> int \<Rightarrow> path \<Rightarrow> nat \<Rightarrow> capio_file \<Rightarrow> off64 \<Rightarrow> server \<Rightarrow> bool" where
  "copy_serving E tid fd_in p_in i f x fd_out p_out j g y s \<longleftrightarrow>
     fd_at s tid fd_in p_in i f x \<and> fd_at s tid fd_out p_out j g y \<and> i \<noteq> j \<and> copy_allowed E s tid p_in f \<and> file_wf f \<and>
     file_wf g \<and> valid_request g \<and> \<not> isFirstWrite g \<and> in_heap g \<and>
     storage_find (get_parent_dir_path p_out) s \<notin> {Some i, Some j} \<and> s_responses s tid = Some []"

lemma first_request:
  assumes "copy_serving E tid fd_in p_in i f x fd_out p_out j g y s" and "grants (env_sys E)" and "nonneg_quota (env_quota E)"
    and "0 \<le> a" and "0 \<le> b" and "0 \<le> n"
    and "in_range 32 tid" "in_range 32 fd_in" "in_range 32 fd_out" "in_range 64 a" "in_range 64 b" "in_range 64 n"
  obtains t xs h where "capio_server E (request_text CAPIO_REQUEST_COPY_FILE_RANGE
      [IntA tid, IntA fd_in, IntA fd_out, IntA a, IntA b, IntA n]) s = Inr ((), t)"
    and "reads f a xs" and "int (length xs) = copy_size f a n" and "fd_at t tid fd_out p_out j h y" and "written g b xs h"
    and "fd_at t tid fd_in p_in i f x" and "s_responses t tid = Some [int (length xs)]" and "copy_allowed E t tid p_in f"
proof -
  have s: "fd_at s tid fd_in p_in i f x" "fd_at s tid fd_out p_out j g y" "copy_allowed E s tid p_in f" "file_wf f" "file_wf g"
    "valid_request g" "storage_find (get_parent_dir_path p_out) s \<notin> {Some i, Some j}" "s_responses s tid = Some []"
    "\<not> isFirstWrite g" "in_heap g" "i \<noteq> j"
    using assms(1) by (simp_all add: copy_serving_def)
  let ?req = "request_text CAPIO_REQUEST_COPY_FILE_RANGE [IntA tid, IntA fd_in, IntA fd_out, IntA a, IntA b, IntA n]"
  have len: "length [] < CAPIO_REQ_BUFF_CNT" by (simp add: CAPIO_REQ_BUFF_CNT_def)
  note run = copy_request_run [OF s(1-6) assms(3) s(7) assms(4-6) s(8) len assms(7-12)]
  then obtain t where t: "capio_server E ?req s = Inr ((), t)" using s(9,10) assms(2) by (auto split: sum.splits)
  have ne: "p_out \<noteq> p_in" "get_parent_dir_path p_out \<noteq> p_in" using s(1,2,7,11) by (auto simp: fd_at_def)
  have "copy_allowed E t tid p_in f"
    using keepsMD [OF allowed_copy s(3) t [unfolded copy_handler_allowed [OF s(1-3) assms(7-12)]]] ne by simp
  then show thesis using run that t s(11) unfolding copy_size_def by auto
qed

text \<open>The second request, at the end of the run of data.\<close>

lemma last_request:
  assumes "fd_at s tid fd_in p_in i f x" and "fd_at s tid fd_out p_out j g y" and "copy_allowed E s tid p_in f"
    and "copy_size f a n = 0" and "s_responses s tid = Some []"
    and "in_range 32 tid" "in_range 32 fd_in" "in_range 32 fd_out" "in_range 64 a" "in_range 64 b" "in_range 64 n"
  shows "capio_server E (request_text CAPIO_REQUEST_COPY_FILE_RANGE [IntA tid, IntA fd_in, IntA fd_out, IntA a, IntA b, IntA n]) s =
    Inr ((), s\<lparr>s_responses := (s_responses s)(tid \<mapsto> [0])\<rparr>)"
  unfolding copy_handler_allowed [OF assms(1-3,6-11)]
  using copy_nothing [where s = s and i = i and f = f and rs = "[]"] assms(1,4,5) by (simp add: fd_at_def CAPIO_REQ_BUFF_CNT_def)

text \<open>The machine once an answer has been taken: nothing waits, and the copy may go on.\<close>

definition copy_answered ::
    "env \<Rightarrow> int \<Rightarrow> int \<Rightarrow> path \<Rightarrow> nat \<Rightarrow> capio_file \<Rightarrow> off64 \<Rightarrow> int \<Rightarrow> path \<Rightarrow> nat \<Rightarrow> capio_file \<Rightarrow> off64 \<Rightarrow>
     machine client \<Rightarrow> bool" where
  "copy_answered E tid fd_in p_in i f x fd_out p_out j h y st \<longleftrightarrow>
     c_tid st = tid \<and> m_pending (c_world st) = [] \<and> s_responses (m_server (c_world st)) tid = Some [] \<and>
     fd_at (m_server (c_world st)) tid fd_in p_in i f x \<and> fd_at (m_server (c_world st)) tid fd_out p_out j h y \<and>
     copy_allowed E (m_server (c_world st)) tid p_in f"

lemma first_answer:
  assumes "copy_serving E tid fd_in p_in i f x fd_out p_out j g y (m_server (c_world st))" and "m_pending (c_world st) = []"
    and "c_tid st = tid" and "grants (env_sys E)" and "nonneg_quota (env_quota E)" and "0 \<le> a" and "0 \<le> b" and "0 \<le> count"
    and "in_range 32 tid" "in_range 32 fd_in" "in_range 32 fd_out" and "in_range 64 a" "in_range 64 b" "in_range 64 count"
  obtains st1 xs h where "copy_file_range_request (machine_host E) fd_in fd_out a b count tid st = Inr (int (length xs), st1)"
    and "reads f a xs" and "int (length xs) = copy_size f a count" and "written g b xs h"
    and "copy_answered E tid fd_in p_in i f x fd_out p_out j h y st1"
proof -
  obtain t xs h where t: "capio_server E (request_text CAPIO_REQUEST_COPY_FILE_RANGE
      [IntA tid, IntA fd_in, IntA fd_out, IntA a, IntA b, IntA count]) (m_server (c_world st)) = Inr ((), t)"
    "reads f a xs" "int (length xs) = copy_size f a count" "fd_at t tid fd_out p_out j h y" "written g b xs h"
    "fd_at t tid fd_in p_in i f x" "s_responses t tid = Some [int (length xs)]" "copy_allowed E t tid p_in f"
    by (rule first_request [OF assms(1,4,5,6,7,8) assms(9-14)])
  define s1 where "s1 = t\<lparr>s_responses := (s_responses t)(tid \<mapsto> [])\<rparr>"
  define st1 where "st1 = st\<lparr>c_world := (c_world st)\<lparr>m_server := s1\<rparr>\<rparr>"
  have "copy_file_range_request (machine_host E) fd_in fd_out a b count tid st = Inr (int (length xs), st1)"
    unfolding st1_def s1_def by (rule copy_request_answered [OF assms(3,2) t(1,7) assms(9-14)])
  moreover have "copy_allowed E s1 tid p_in f"
    using t(8) by (simp add: s1_def copy_allowed_def consumes_iff produces_def Let_def)
  moreover have "fd_at s1 tid fd_in p_in i f x" "fd_at s1 tid fd_out p_out j h y"
    using t(4,6) by (simp_all add: s1_def fd_at_def storage_find_def)
  ultimately show thesis
    using t(2,3,5) assms(2,3) by (intro that [of xs st1 h]) (simp_all add: copy_answered_def st1_def, simp add: s1_def)
qed

lemma last_answer:
  assumes "copy_answered E tid fd_in p_in i f x fd_out p_out j h y st" and "copy_size f a count = 0"
    and "in_range 32 tid" "in_range 32 fd_in" "in_range 32 fd_out" and "in_range 64 a" "in_range 64 b" "in_range 64 count"
  obtains st2 where "copy_file_range_request (machine_host E) fd_in fd_out a b count tid st = Inr (0, st2)"
    and "fd_at (m_server (c_world st2)) tid fd_out p_out j h y" and "fd_at (m_server (c_world st2)) tid fd_in p_in i f x"
proof -
  let ?s = "m_server (c_world st)"
  have st: "c_tid st = tid" "m_pending (c_world st) = []" "s_responses ?s tid = Some []" "fd_at ?s tid fd_in p_in i f x"
    "fd_at ?s tid fd_out p_out j h y" "copy_allowed E ?s tid p_in f" using assms(1) by (simp_all add: copy_answered_def)
  note l = last_request [OF st(4,5,6) assms(2) st(3) assms(3-8)]
  let ?st = "st\<lparr>c_world := (c_world st)\<lparr>m_server := ?s\<lparr>s_responses := (s_responses ?s)(tid \<mapsto> [])\<rparr>\<rparr>\<rparr>"
  show thesis
    using copy_request_answered [OF st(1,2) l _ assms(3-8), where v = 0] st(4,5)
    by (intro that [of ?st]) (simp_all add: fd_at_def storage_find_def)
qed

lemma copy_loop_run:
  assumes "copy_serving E tid (ce_fd ci) p_in i f x (ce_fd co) p_out j g y (m_server (c_world st))" and "m_pending (c_world st) = []"
    and "c_tid st = tid" and "grants (env_sys E)" and "nonneg_quota (env_quota E)" and "0 \<le> ce_position ci" and "0 \<le> ce_position co"
    and "0 < count" and "ce_position ci + count < 2 ^ 63" and "ce_position co + count < 2 ^ 63"
    and "in_range 32 tid" "in_range 32 (ce_fd ci)" "in_range 32 (ce_fd co)" and "2 \<le> fuel"
  obtains st' xs h where "on_server_loop fuel (machine_host E) ci co 0 count tid st =
      Inr ((int (length xs), ci\<lparr>ce_position := ce_position ci + int (length xs)\<rparr>, co\<lparr>ce_position := ce_position co + int (length xs)\<rparr>), st')"
    and "reads f (ce_position ci) xs" and "int (length xs) = copy_size f (ce_position ci) count"
    and "fd_at (m_server (c_world st')) tid (ce_fd co) p_out j h y" and "written g (ce_position co) xs h"
    and "fd_at (m_server (c_world st')) tid (ce_fd ci) p_in i f x"
proof -
  let ?a = "ce_position ci" and ?b = "ce_position co" and ?H = "machine_host E"
  have r: "in_range 64 ?a" "in_range 64 ?b" "in_range 64 count" using assms(6-10) by (simp_all add: in_range_def)
  have wf: "file_wf f" using assms(1) by (simp add: copy_serving_def)
  obtain st1 xs h where q1: "copy_file_range_request ?H (ce_fd ci) (ce_fd co) ?a ?b count tid st = Inr (int (length xs), st1)"
    and t: "reads f ?a xs" "int (length xs) = copy_size f ?a count" "written g ?b xs h"
    and st1: "copy_answered E tid (ce_fd ci) p_in i f x (ce_fd co) p_out j h y st1"
    by (rule first_answer [OF assms(1-7) less_imp_le [OF assms(8)] assms(11-13) r])
  have fd1: "fd_at (m_server (c_world st1)) tid (ce_fd co) p_out j h y" "fd_at (m_server (c_world st1)) tid (ce_fd ci) p_in i f x"
    using st1 by (simp_all add: copy_answered_def)
  obtain fu where fu: "fuel = Suc (Suc fu)" using assms(14) by (metis add_2_eq_Suc le_Suc_ex)
  have le: "int (length xs) \<le> count" using t(2) copy_size_covered(2) [OF wf, of count ?a] assms(8) by simp
  let ?n = "int (length xs)"
  let ?final = "(?n, ci\<lparr>ce_position := ?a + ?n\<rparr>, co\<lparr>ce_position := ?b + ?n\<rparr>)"
  have same: "ci\<lparr>ce_position := ?a\<rparr> = ci" "co\<lparr>ce_position := ?b\<rparr> = co" by simp_all
  consider "?n = 0 \<or> ?n = count" | "0 < ?n" "?n < count" using le by linarith
  then show thesis
  proof cases
    case 1
    then have "on_server_loop fuel ?H ci co 0 count tid st = Inr (?final, st1)"
      using assms(8) q1 same by (auto simp: fu bindM_def returnM_def)
    then show ?thesis using t fd1 by (intro that [of xs st1 h]) simp_all
  next
    case 2
    have z: "copy_size f (?a + ?n) (count - ?n) = 0" using copy_size_rest [OF wf, of count ?a] 2 t(2) by simp
    have r2: "in_range 64 (?a + ?n)" "in_range 64 (?b + ?n)" "in_range 64 (count - ?n)"
      using assms(6-10) 2 by (simp_all add: in_range_def)
    obtain st2 where q2: "copy_file_range_request ?H (ce_fd ci) (ce_fd co) (?a + ?n) (?b + ?n) (count - ?n) tid st1 = Inr (0, st2)"
      and fd2: "fd_at (m_server (c_world st2)) tid (ce_fd co) p_out j h y" "fd_at (m_server (c_world st2)) tid (ce_fd ci) p_in i f x"
      by (rule last_answer [OF st1 z assms(11-13) r2])
    have "on_server_loop fuel ?H ci co 0 count tid st = Inr (?final, st2)"
      using 2 assms(8) q1 q2 by (simp add: fu bindM_def returnM_def)
    then show ?thesis using t fd2 by (intro that [of xs st2 h]) simp_all
  qed
qed

text \<open>
  C11: A copy between two CAPIO files ends and copies. The loop in the library asks the server until the
  count is reached or an answer is 0; on a node it returns after at most two answers, for every
  count, and has copied the bytes of the input from its position on, as many as were asked for or as
  follow without a hole. It returns their number and the two positions moved by it, and the output
  holds these bytes at its position, with all others unchanged. The caches of the thread are empty,
  and the files are two.
\<close>

theorem copy_on_server_ends:
  assumes "copy_serving E tid (ce_fd ci) p_in i f x (ce_fd co) p_out j g y (m_server (c_world st))" and "m_pending (c_world st) = []"
    and "c_tid st = tid" and "grants (env_sys E)" and "nonneg_quota (env_quota E)" and "0 \<le> ce_position ci" and "0 \<le> ce_position co"
    and "0 < count" and "ce_position ci + count < 2 ^ 63" and "ce_position co + count < 2 ^ 63"
    and "in_range 32 tid" and "in_range 32 (ce_fd ci)" and "in_range 32 (ce_fd co)" and "2 \<le> fuel"
    and "wc_actual_size (c_write_cache st) = 0" and "rc_cache_offset (c_read_cache st) = rc_actual_size (c_read_cache st)"
  shows "\<exists>st' xs h. capio_copy_file_range_on_server fuel (machine_host E) ci co count tid st =
      Inr ((int (length xs), ci\<lparr>ce_position := ce_position ci + int (length xs)\<rparr>, co\<lparr>ce_position := ce_position co + int (length xs)\<rparr>), st') \<and>
    reads f (ce_position ci) xs \<and>
    int (length xs) = (if getSectorEnd (ce_position ci) f = CAPIO_SECTOR_NOT_FOUND then 0
      else min count (getSectorEnd (ce_position ci) f - ce_position ci)) \<and>
    fd_at (m_server (c_world st')) tid (ce_fd co) p_out j h y \<and> written g (ce_position co) xs h \<and>
    fd_at (m_server (c_world st')) tid (ce_fd ci) p_in i f x"
proof -
  have eq: "capio_copy_file_range_on_server fuel (machine_host E) ci co count tid st = on_server_loop fuel (machine_host E) ci co 0 count tid st"
    using assms(15,16)
    by (simp add: capio_copy_file_range_on_server_def WriteCache_flush_def ReadCache_flush_def thenM_def bindM_def getsM_def whenM_def returnM_def)
  obtain st' xs h where r: "on_server_loop fuel (machine_host E) ci co 0 count tid st =
      Inr ((int (length xs), ci\<lparr>ce_position := ce_position ci + int (length xs)\<rparr>, co\<lparr>ce_position := ce_position co + int (length xs)\<rparr>), st')"
    "reads f (ce_position ci) xs" "int (length xs) = copy_size f (ce_position ci) count"
    "fd_at (m_server (c_world st')) tid (ce_fd co) p_out j h y" "written g (ce_position co) xs h"
    "fd_at (m_server (c_world st')) tid (ce_fd ci) p_in i f x"
    by (rule copy_loop_run [OF assms(1-14)])
  show ?thesis by (intro exI conjI) (rule trans [OF eq r(1)], rule r(2), rule r(3) [unfolded copy_size_def], (rule r)+)
qed

text \<open>A thread that copies all of \<open>/x\<close> to the position 1 of \<open>/y\<close>.\<close>

definition copy_end :: "int \<Rightarrow> off64 \<Rightarrow> cfr_end" where
  "copy_end fd position =
     \<lparr>ce_fd = fd, ce_offset = None, ce_is_capio = True, ce_is_open = True, ce_flags = O_RDWR, ce_is_dir = False, ce_is_regular = True,
      ce_size = 2, ce_position = position, ce_saved_fd_offset = position\<rparr>"

definition copying :: "machine client" where
  "copying = started (env_example ''a'') 7 \<lparr>m_server = two_open, m_pending = [], m_fds = [3, 4]\<rparr>"

theorem copy_on_server_ends_witness:
  "\<exists>st' xs h. capio_copy_file_range_on_server 2 (machine_host (env_example ''a'')) (copy_end 3 0) (copy_end 4 1) 9 7 copying =
      Inr ((2, copy_end 3 0\<lparr>ce_position := 2\<rparr>, copy_end 4 1\<lparr>ce_position := 3\<rparr>), st') \<and>
    reads source_file 0 xs \<and> length xs = 2 \<and> written target_file 1 xs h \<and> fd_at (m_server (c_world st')) 7 4 ''/y'' 1 h 0"
proof -
  have s: "copy_serving (env_example ''a'') 7 (ce_fd (copy_end 3 0)) ''/x'' 0 source_file 0 (ce_fd (copy_end 4 1)) ''/y'' 1 target_file 0
      (m_server (c_world copying))"
    using two_open_facts by (simp add: copy_serving_def copying_def started_def copy_end_def)
  have e: "grants (env_sys (env_example ''a''))" "nonneg_quota (env_quota (env_example ''a''))"
    by (simp_all add: env_example_def nonneg_quota_def grants_def sys_ok_def)
  have "m_pending (c_world copying) = []" "c_tid copying = 7" "wc_actual_size (c_write_cache copying) = 0"
    "rc_cache_offset (c_read_cache copying) = rc_actual_size (c_read_cache copying)"
    by (simp_all add: copying_def started_def WriteCache_new_def ReadCache_new_def)
  with copy_on_server_ends [OF s _ _ e, of 9 2] two_open_facts(11)
  obtain st' xs h where r: "capio_copy_file_range_on_server 2 (machine_host (env_example ''a'')) (copy_end 3 0) (copy_end 4 1) 9 7 copying =
      Inr ((int (length xs), copy_end 3 0\<lparr>ce_position := int (length xs)\<rparr>, copy_end 4 1\<lparr>ce_position := 1 + int (length xs)\<rparr>), st')"
    "reads source_file 0 xs" "int (length xs) = 2" "fd_at (m_server (c_world st')) 7 4 ''/y'' 1 h 0" "written target_file 1 xs h"
    by (auto simp: copy_end_def in_range_def CAPIO_SECTOR_NOT_FOUND_def)
  show ?thesis by (intro exI conjI) (use r in \<open>simp_all\<close>)
qed

end
