(* ===== verification/Mtcl_Backend.thy ===== *)
theory Mtcl_Backend
  imports Wire "HOL-Library.AList" "HOL-Library.Char_ord" "HOL-Library.List_Lexorder"
begin

text \<open>
  The backend over MTCL (\<open>server/src/mtcl_backend.cpp\<close>, \<open>remote/backend/mtcl.hpp\<close>): the frame that
  carries a request and its file between two servers, the table of connections, and the
  connections themselves with the frames that MTCL is still sending.

  The MTCL library is a parameter: the record \<open>mtcl\<close> has one operation per function of the
  library that the source calls, on a world \<open>'w\<close> with handles \<open>'h\<close> and requests \<open>'r\<close>.
  \<open>open_connections\<close> is an association list; the locks of the source make each of the
  operations below one step. The loop of \<open>read_next_request\<close> takes the number of events it may
  look at; \<open>None\<close> is a loop that is still waiting.

  The lemmas show that a frame is read back as it was written, that nothing else is accepted,
  that the keys of the table stay distinct, and that of two servers only one connects.
\<close>

unbundle bit_operations_syntax

section \<open>Constants\<close>

definition HOST_NAME_MAX :: nat where
  "HOST_NAME_MAX = 64"

definition CAPIO_SERVER_REQUEST_MAX_SIZE :: nat where
  "CAPIO_SERVER_REQUEST_MAX_SIZE = 4096 + 81920"

definition MTCL_HEADER_SIZE :: nat where
  "MTCL_HEADER_SIZE = 17"

definition MTCL_MAX_FILE_TRANSFER_SIZE :: nat where
  "MTCL_MAX_FILE_TRANSFER_SIZE = 4 * 1024 * 1024 * 1024"

definition MTCL_MAX_FRAME_SIZE :: nat where
  "MTCL_MAX_FRAME_SIZE = MTCL_HEADER_SIZE + CAPIO_SERVER_REQUEST_MAX_SIZE + MTCL_MAX_FILE_TRANSFER_SIZE"

lemmas mtcl_sizes = CAPIO_SERVER_REQUEST_MAX_SIZE_def MTCL_HEADER_SIZE_def MTCL_MAX_FILE_TRANSFER_SIZE_def MTCL_MAX_FRAME_SIZE_def

text \<open>\<open>MessageType\<close>.\<close>

definition MT_request :: byte where
  "MT_request = 1"

definition MT_request_with_file :: byte where
  "MT_request_with_file = 2"

text \<open>The bytes of a text.\<close>

definition byte_char :: "byte \<Rightarrow> char" where
  "byte_char b = char_of (unat b)"

definition char_byte :: "char \<Rightarrow> byte" where
  "char_byte c = of_nat (of_char c)"

section \<open>The library\<close>

record ('w, 'h, 'r) mtcl =
  M_init :: "string \<Rightarrow> 'w \<Rightarrow> 'w"
  M_listen :: "string \<Rightarrow> 'w \<Rightarrow> 'w"
  M_finalize :: "'w \<Rightarrow> 'w"
  M_connect :: "string \<Rightarrow> 'w \<Rightarrow> 'h option \<times> 'w"
  M_getNext :: "'w \<Rightarrow> 'h option \<times> 'w"
  M_isNewConnection :: "'h \<Rightarrow> 'w \<Rightarrow> bool"
  M_getName :: "'h \<Rightarrow> 'w \<Rightarrow> string"
  M_setName :: "'h \<Rightarrow> string \<Rightarrow> 'w \<Rightarrow> 'w"
  M_probe :: "'h \<Rightarrow> 'w \<Rightarrow> (int \<times> nat) \<times> 'w"
  M_receive :: "'h \<Rightarrow> nat \<Rightarrow> 'w \<Rightarrow> (int \<times> byte list) \<times> 'w"
  M_ireceive :: "'h \<Rightarrow> nat \<Rightarrow> 'w \<Rightarrow> (int \<times> 'r) \<times> 'w"
  M_wait :: "'r \<Rightarrow> 'w \<Rightarrow> 'w"
  M_send :: "'h \<Rightarrow> byte list \<Rightarrow> 'w \<Rightarrow> int \<times> 'w"
  M_isend :: "'h \<Rightarrow> byte list \<Rightarrow> 'w \<Rightarrow> (int \<times> 'r) \<times> 'w"
  M_test :: "'r \<Rightarrow> 'w \<Rightarrow> bool \<times> 'w"
  M_count :: "'r \<Rightarrow> 'w \<Rightarrow> int"
  M_yield :: "'h \<Rightarrow> 'w \<Rightarrow> 'w"
  M_close :: "'h \<Rightarrow> 'w \<Rightarrow> 'w"

section \<open>State\<close>

record ('h, 'r) mtcl_connection =
  mc_handle :: 'h
  mc_pending_sends :: "(byte list \<times> 'r) list"

record pending_file =
  pf_source :: string
  pf_frame :: "byte list"
  pf_offset :: nat

record ('w, 'h, 'r) mtcl_backend =
  mb_node_name :: string
  mb_thread_sleep_times :: int
  mb_continue_execution :: bool
  mb_listen_token :: string
  mb_advertisement_token :: string
  mb_own_port :: string
  mb_used_protocol :: string
  mb_open_connections :: "(string \<times> ('h, 'r) mtcl_connection) list"
  mb_pending_file :: "pending_file option"
  mb_world :: 'w

definition onMtcl :: "('w \<Rightarrow> 'a \<times> 'w) \<Rightarrow> ('a, ('w, 'h, 'r) mtcl_backend) comp" where
  "onMtcl g s = (case g (mb_world s) of (x, w) \<Rightarrow> Inr (x, s\<lparr>mb_world := w\<rparr>))"

definition doMtcl :: "('w \<Rightarrow> 'w) \<Rightarrow> (unit, ('w, 'h, 'r) mtcl_backend) comp" where
  "doMtcl g = modifyM (\<lambda>s. s\<lparr>mb_world := g (mb_world s)\<rparr>)"

section \<open>Connections\<close>

fun cleanup_pending :: "('w, 'h, 'r) mtcl \<Rightarrow> (byte list \<times> 'r) list \<Rightarrow> 'w \<Rightarrow> bool \<times> (byte list \<times> 'r) list \<times> 'w" where
  "cleanup_pending M [] w = (True, [], w)"
| "cleanup_pending M ((frame, request) # sends) w =
     (case M_test M request w of (finished, w1) \<Rightarrow>
        if \<not> finished then
          (case cleanup_pending M sends w1 of (ok, rest, w2) \<Rightarrow> (ok, (frame, request) # rest, w2))
        else if M_count M request w1 \<noteq> int (length frame) then (False, (frame, request) # sends, w1)
        else cleanup_pending M sends w1)"

definition conn_cleanup ::
    "('w, 'h, 'r) mtcl \<Rightarrow> ('h, 'r) mtcl_connection \<Rightarrow> 'w \<Rightarrow> bool \<times> ('h, 'r) mtcl_connection \<times> 'w" where
  "conn_cleanup M c w =
     (case cleanup_pending M (mc_pending_sends c) w of (ok, rest, w1) \<Rightarrow> (ok, c\<lparr>mc_pending_sends := rest\<rparr>, w1))"

text \<open>\<open>MTCLConnection::send\<close> and its destructor.\<close>

definition conn_send ::
    "('w, 'h, 'r) mtcl \<Rightarrow> ('h, 'r) mtcl_connection \<Rightarrow> byte list \<Rightarrow> 'w \<Rightarrow> bool \<times> ('h, 'r) mtcl_connection \<times> 'w" where
  "conn_send M c message w =
     (case conn_cleanup M c w of (ok, c1, w1) \<Rightarrow>
        if \<not> ok then (False, c1, w1)
        else case M_isend M (mc_handle c1) message w1 of ((rc, request), w2) \<Rightarrow>
          if rc < 0 then (False, c1, w2)
          else (True, c1\<lparr>mc_pending_sends := mc_pending_sends c1 @ [(message, request)]\<rparr>, w2))"

definition conn_destroy :: "('w, 'h, 'r) mtcl \<Rightarrow> ('h, 'r) mtcl_connection \<Rightarrow> 'w \<Rightarrow> 'w" where
  "conn_destroy M c w = M_close M (mc_handle c) w"

section \<open>Frames\<close>

text \<open>\<open>write_u64\<close> fills its eight bytes from the last to the first.\<close>

fun write_u64_from :: "nat \<Rightarrow> 64 word \<Rightarrow> byte list" where
  "write_u64_from 0 value = []"
| "write_u64_from (Suc i) value = write_u64_from i (drop_bit 8 value) @ [ucast value]"

definition write_u64 :: "64 word \<Rightarrow> byte list" where
  "write_u64 value = write_u64_from 8 value"

definition read_u64 :: "byte list \<Rightarrow> 64 word" where
  "read_u64 source = foldl (\<lambda>value b. push_bit 8 value OR ucast b) 0 source"

text \<open>The frame that \<open>send_frame\<close> builds; \<open>file\<close> is \<open>None\<close> for a null pointer.\<close>

definition build_frame :: "byte list \<Rightarrow> byte list option \<Rightarrow> byte list" where
  "build_frame message file =
     (let file_bytes = (case file of None \<Rightarrow> [] | Some f \<Rightarrow> f);
          frame0 = replicate (MTCL_HEADER_SIZE + length message + length file_bytes) 0;
          frame1 = frame0[0 := (if file = None then MT_request else MT_request_with_file)];
          frame2 = blit 1 (write_u64 (of_nat (length message))) frame1;
          frame3 = blit 9 (write_u64 (of_nat (length file_bytes))) frame2;
          frame4 = blit MTCL_HEADER_SIZE message frame3
      in if file_bytes \<noteq> [] then blit (MTCL_HEADER_SIZE + length message) file_bytes frame4 else frame4)"

text \<open>
  The checks of \<open>read_next_request\<close> on a frame that was received whole: the request and, if there
  is a file, where it starts.
\<close>

datatype verdict = Rejected | Accepted (v_request: string) (v_file: "nat option")

definition check_frame :: "byte list \<Rightarrow> verdict" where
  "check_frame frame =
     (let ftype = frame ! 0;
          request_size = read_u64 (seg 1 8 frame);
          file_size = read_u64 (seg 9 8 frame);
          expects_file = (ftype = MT_request_with_file);
          has_file = (file_size \<noteq> 0)
      in if ftype \<noteq> MT_request \<and> ftype \<noteq> MT_request_with_file then Rejected
         else if request_size = 0 \<or> of_nat CAPIO_SERVER_REQUEST_MAX_SIZE < request_size then Rejected
         else if of_nat MTCL_MAX_FILE_TRANSFER_SIZE < file_size then Rejected
         else if expects_file \<noteq> has_file then Rejected
         else if request_size + file_size \<noteq> of_nat (length frame - MTCL_HEADER_SIZE) then Rejected
         else Accepted (map byte_char (seg MTCL_HEADER_SIZE (unat request_size) frame))
                (if expects_file then Some (MTCL_HEADER_SIZE + unat request_size) else None))"

section \<open>The table of connections\<close>

definition remove_connection :: "('w, 'h, 'r) mtcl \<Rightarrow> string \<Rightarrow> (unit, ('w, 'h, 'r) mtcl_backend) comp" where
  "remove_connection M hostname =
     bindM (getsM mb_open_connections) (\<lambda>cs.
       case map_of cs hostname of
         None \<Rightarrow> returnM ()
       | Some c \<Rightarrow>
           thenM (modifyM (\<lambda>s. s\<lparr>mb_open_connections := filter (\<lambda>e. fst e \<noteq> hostname) cs\<rparr>))
             (doMtcl (conn_destroy M c)))"

text \<open>The first loop of \<open>cleanup_completed_sends\<close>: the connections, and the names of those that failed.\<close>

fun cleanup_all ::
    "('w, 'h, 'r) mtcl \<Rightarrow> (string \<times> ('h, 'r) mtcl_connection) list \<Rightarrow> 'w \<Rightarrow>
     string list \<times> (string \<times> ('h, 'r) mtcl_connection) list \<times> 'w" where
  "cleanup_all M [] w = ([], [], w)"
| "cleanup_all M ((hostname, c) # cs) w =
     (case conn_cleanup M c w of (ok, c1, w1) \<Rightarrow>
        case cleanup_all M cs w1 of (failed, cs1, w2) \<Rightarrow>
          ((if ok then failed else hostname # failed), (hostname, c1) # cs1, w2))"

definition cleanup_completed_sends :: "('w, 'h, 'r) mtcl \<Rightarrow> (unit, ('w, 'h, 'r) mtcl_backend) comp" where
  "cleanup_completed_sends M =
     bindM (\<lambda>s. case cleanup_all M (mb_open_connections s) (mb_world s) of (failed, cs, w) \<Rightarrow>
              Inr (failed, s\<lparr>mb_open_connections := cs, mb_world := w\<rparr>))
       (forM (remove_connection M))"

definition register_connection :: "('w, 'h, 'r) mtcl \<Rightarrow> string \<Rightarrow> 'h \<Rightarrow> (unit, ('w, 'h, 'r) mtcl_backend) comp" where
  "register_connection M remote_hostname handle =
     bindM (getsM mb_open_connections) (\<lambda>cs.
       if map_of cs remote_hostname \<noteq> None then doMtcl (M_close M handle)
       else thenM (doMtcl (M_yield M handle))
              (modifyM (\<lambda>s. s\<lparr>mb_open_connections :=
                 (remote_hostname, \<lparr>mc_handle = handle, mc_pending_sends = []\<rparr>) # cs\<rparr>)))"

section \<open>Receiving\<close>

text \<open>\<open>receive_message\<close>: the contents of the buffer when it was filled exactly.\<close>

definition receive_message :: "('w, 'h, 'r) mtcl \<Rightarrow> 'h \<Rightarrow> nat \<Rightarrow> (byte list option, ('w, 'h, 'r) mtcl_backend) comp" where
  "receive_message M handle n =
     bindM (onMtcl (M_receive M handle n)) (\<lambda>(rc, bytes).
       returnM (if rc = int n then Some (take n (bytes @ replicate n 0)) else None))"

definition discard_message :: "('w, 'h, 'r) mtcl \<Rightarrow> 'h \<Rightarrow> (unit, ('w, 'h, 'r) mtcl_backend) comp" where
  "discard_message M handle =
     bindM (onMtcl (M_ireceive M handle 1)) (\<lambda>(rc, request). whenM (rc = 0) (doMtcl (M_wait M request)))"

text \<open>A \<open>size_t\<close> in the byte order of the machine, the least significant byte first.\<close>

definition size_bytes :: "nat \<Rightarrow> byte list" where
  "size_bytes n = rev (write_u64 (of_nat n))"

definition bytes_size :: "byte list \<Rightarrow> nat" where
  "bytes_size bs = unat (read_u64 (rev bs))"

definition accept_connection :: "('w, 'h, 'r) mtcl \<Rightarrow> 'h \<Rightarrow> (unit, ('w, 'h, 'r) mtcl_backend) comp" where
  "accept_connection M handle =
     bindM (receive_message M handle 8) (\<lambda>sz.
       case sz of
         None \<Rightarrow> doMtcl (M_close M handle)
       | Some bs \<Rightarrow>
           let hostname_size = bytes_size bs
           in if hostname_size = 0 \<or> HOST_NAME_MAX < hostname_size then doMtcl (M_close M handle)
              else bindM (receive_message M handle hostname_size) (\<lambda>nm.
                case nm of
                  None \<Rightarrow> doMtcl (M_close M handle)
                | Some bytes \<Rightarrow>
                    let remote_hostname = map byte_char bytes
                    in thenM (doMtcl (M_setName M handle remote_hostname))
                         (register_connection M remote_hostname handle)))"

text \<open>The body of the loop of \<open>read_next_request\<close> for a valid handle: \<open>None\<close> is \<open>continue\<close>.\<close>

definition next_event :: "('w, 'h, 'r) mtcl \<Rightarrow> 'h \<Rightarrow> (remote_message option, ('w, 'h, 'r) mtcl_backend) comp" where
  "next_event M handle =
     bindM (getsM (\<lambda>s. M_isNewConnection M handle (mb_world s))) (\<lambda>fresh.
     if fresh then thenM (accept_connection M handle) (returnM None)
     else bindM (getsM (\<lambda>s. M_getName M handle (mb_world s))) (\<lambda>remote_hostname.
     let reject = thenM (remove_connection M remote_hostname) (returnM None)
     in bindM (onMtcl (M_probe M handle)) (\<lambda>(rc, available).
        if rc \<le> 0 then reject
        else if available < MTCL_HEADER_SIZE \<or> MTCL_MAX_FRAME_SIZE < available then
          thenM (discard_message M handle) reject
        else bindM (receive_message M handle available) (\<lambda>received.
          case received of
            None \<Rightarrow> reject
          | Some frame \<Rightarrow>
              (case check_frame frame of
                 Rejected \<Rightarrow> reject
               | Accepted request file \<Rightarrow>
                   thenM (case file of
                            None \<Rightarrow> returnM ()
                          | Some offset \<Rightarrow> modifyM (\<lambda>s. s\<lparr>mb_pending_file :=
                              Some \<lparr>pf_source = remote_hostname, pf_frame = frame, pf_offset = offset\<rparr>\<rparr>))
                  (thenM (doMtcl (M_yield M handle))
                         (returnM (Some (RemoteRequest_new request remote_hostname)))))))))"

fun read_loop :: "('w, 'h, 'r) mtcl \<Rightarrow> nat \<Rightarrow> (remote_message option, ('w, 'h, 'r) mtcl_backend) comp" where
  "read_loop M 0 = returnM None"
| "read_loop M (Suc fuel) =
     bindM (getsM mb_continue_execution) (\<lambda>go.
       if \<not> go then returnM (Some (RemoteRequest_new [] []))
       else thenM (cleanup_completed_sends M)
         (bindM (onMtcl (M_getNext M)) (\<lambda>handle.
            case handle of
              None \<Rightarrow> read_loop M fuel
            | Some h \<Rightarrow> bindM (next_event M h) (\<lambda>r. case r of None \<Rightarrow> read_loop M fuel | Some q \<Rightarrow> returnM (Some q)))))"

definition read_next_request :: "('w, 'h, 'r) mtcl \<Rightarrow> nat \<Rightarrow> (remote_message option, ('w, 'h, 'r) mtcl_backend) comp" where
  "read_next_request M fuel = thenM (modifyM (\<lambda>s. s\<lparr>mb_pending_file := None\<rparr>)) (read_loop M fuel)"

text \<open>\<open>recv_file\<close>: the bytes stored at the destination, \<open>ok\<close> when it is not null.\<close>

definition recv_file :: "bool \<Rightarrow> int \<Rightarrow> string \<Rightarrow> (byte list, ('w, 'h, 'r) mtcl_backend) comp" where
  "recv_file ok bytes_expected source =
     (if \<not> ok \<or> bytes_expected < 0 then failM (Throws ''std::invalid_argument'')
      else bindM (getsM mb_pending_file) (\<lambda>pending_file.
        case pending_file of
          None \<Rightarrow> failM (Throws ''std::runtime_error'')
        | Some p \<Rightarrow>
            if pf_source p \<noteq> source \<or> int (length (pf_frame p) - pf_offset p) \<noteq> bytes_expected
            then failM (Throws ''std::runtime_error'')
            else thenM (modifyM (\<lambda>s. s\<lparr>mb_pending_file := None\<rparr>))
                   (returnM (seg (pf_offset p) (nat bytes_expected) (pf_frame p)))))"

section \<open>Sending\<close>

definition send_frame :: "('w, 'h, 'r) mtcl \<Rightarrow> byte list \<Rightarrow> byte list option \<Rightarrow> string \<Rightarrow> (unit, ('w, 'h, 'r) mtcl_backend) comp" where
  "send_frame M message file target =
     bindM (getsM mb_open_connections) (\<lambda>cs.
       case map_of cs target of
         None \<Rightarrow> returnM ()
       | Some c \<Rightarrow>
           bindM (onMtcl (\<lambda>w. case conn_send M c (build_frame message file) w of (ok, c1, w1) \<Rightarrow> ((ok, c1), w1))) (\<lambda>(ok, c1).
             thenM (modifyM (\<lambda>s. s\<lparr>mb_open_connections := AList.update target c1 cs\<rparr>))
               (whenM (\<not> ok) (remove_connection M target))))"

text \<open>
  \<open>send_request\<close> and \<open>send_file\<close>. \<open>None\<close> is a null pointer; otherwise the bytes are those that may
  be read there, and a length beyond them is an access out of bounds.
\<close>

definition bytes_at :: "byte list option \<Rightarrow> int \<Rightarrow> (byte list, 's) comp" where
  "bytes_at p n =
     (case p of
        None \<Rightarrow> failM NullDeref
      | Some bs \<Rightarrow> if int (length bs) < n then failM OutOfBounds else returnM (take (nat n) bs))"

definition send_request :: "('w, 'h, 'r) mtcl \<Rightarrow> byte list option \<Rightarrow> int \<Rightarrow> string \<Rightarrow> (unit, ('w, 'h, 'r) mtcl_backend) comp" where
  "send_request M message message_len target =
     (if message = None \<or> message_len \<le> 0 \<or> int CAPIO_SERVER_REQUEST_MAX_SIZE < message_len
      then failM (Throws ''std::invalid_argument'')
      else bindM (bytes_at message message_len) (\<lambda>m. send_frame M m None target))"

definition send_file ::
    "('w, 'h, 'r) mtcl \<Rightarrow> byte list option \<Rightarrow> int \<Rightarrow> byte list option \<Rightarrow> int \<Rightarrow> string \<Rightarrow> (unit, ('w, 'h, 'r) mtcl_backend) comp" where
  "send_file M message message_len shm nbytes target =
     (if message = None \<or> message_len \<le> 0 \<or> int CAPIO_SERVER_REQUEST_MAX_SIZE < message_len \<or> nbytes < 0 \<or>
         int MTCL_MAX_FILE_TRANSFER_SIZE < nbytes \<or> (nbytes \<noteq> 0 \<and> shm = None)
      then failM (Throws ''std::invalid_argument'')
      else bindM (bytes_at message message_len) (\<lambda>m.
        if nbytes = 0 then send_frame M m None target
        else bindM (bytes_at shm nbytes) (\<lambda>f. send_frame M m (Some f) target)))"

section \<open>Start, end and peers\<close>

definition MTCLBackend_new ::
    "('w, 'h, 'r) mtcl \<Rightarrow> string \<Rightarrow> string \<Rightarrow> string \<Rightarrow> int \<Rightarrow> 'w \<Rightarrow> ('w, 'h, 'r) mtcl_backend" where
  "MTCLBackend_new M node_name proto port sleep_time w =
     (let listen_token = proto @ '':0.0.0.0:'' @ port
      in \<lparr>mb_node_name = node_name, mb_thread_sleep_times = sleep_time, mb_continue_execution = True,
          mb_listen_token = listen_token, mb_advertisement_token = proto @ '':'' @ node_name @ '':'' @ port,
          mb_own_port = port, mb_used_protocol = proto, mb_open_connections = [], mb_pending_file = None,
          mb_world = M_listen M listen_token (M_init M (''server-'' @ node_name) w)\<rparr>)"

definition MTCLBackend_destroy :: "('w, 'h, 'r) mtcl \<Rightarrow> (unit, ('w, 'h, 'r) mtcl_backend) comp" where
  "MTCLBackend_destroy M =
     thenM (modifyM (\<lambda>s. s\<lparr>mb_continue_execution := False\<rparr>))
    (thenM (modifyM (\<lambda>s. s\<lparr>mb_world := fold (\<lambda>e. conn_destroy M (snd e)) (mb_open_connections s) (mb_world s),
                           mb_open_connections := []\<rparr>))
           (doMtcl (M_finalize M)))"

text \<open>\<open>handshake_servers\<close> hands the token and the delay to the discovery service.\<close>

definition handshake_servers :: "('w, 'h, 'r) mtcl_backend \<Rightarrow> string \<times> int" where
  "handshake_servers s = (mb_advertisement_token s, max 1 (mb_thread_sleep_times s div 1000))"

definition get_nodes :: "('w, 'h, 'r) mtcl_backend \<Rightarrow> string set" where
  "get_nodes s = insert (mb_node_name s) (set (map fst (mb_open_connections s)))"

text \<open>The name of the server in a token, between its first and its last colon.\<close>

definition token_hostname :: "string \<Rightarrow> string option" where
  "token_hostname target_token =
     (case (find_char target_token (CHR '':'') 0, rfind_char target_token (CHR '':'')) of
        (Some first_colon, Some last_colon) \<Rightarrow>
          if first_colon = last_colon then None
          else Some (seg (Suc first_colon) (last_colon - first_colon - 1) target_token)
      | _ \<Rightarrow> None)"

definition connect_to :: "('w, 'h, 'r) mtcl \<Rightarrow> string \<Rightarrow> (unit, ('w, 'h, 'r) mtcl_backend) comp" where
  "connect_to M target_token =
     (case token_hostname target_token of
        None \<Rightarrow> returnM ()
      | Some remote_hostname \<Rightarrow>
          bindM (getsM mb_node_name) (\<lambda>node_name.
          if remote_hostname = [] \<or> remote_hostname \<le> node_name then returnM ()
          else bindM (getsM mb_open_connections) (\<lambda>cs.
          if map_of cs remote_hostname \<noteq> None then returnM ()
          else bindM (onMtcl (M_connect M target_token)) (\<lambda>handle.
          case handle of
            None \<Rightarrow> returnM ()
          | Some h \<Rightarrow>
              bindM (onMtcl (M_send M h (size_bytes (length node_name)))) (\<lambda>r1.
              if r1 \<noteq> 8 then doMtcl (M_close M h)
              else bindM (onMtcl (M_send M h (map char_byte node_name))) (\<lambda>r2.
              if r2 \<noteq> int (length node_name) then doMtcl (M_close M h)
              else thenM (doMtcl (M_setName M h remote_hostname)) (register_connection M remote_hostname h)))))))"

section \<open>Numbers and texts\<close>

lemma byte_char_byte [simp]: "byte_char (char_byte c) = c"
  by (simp add: byte_char_def char_byte_def unsigned_of_nat take_bit_eq_mod of_char_mod_256)

lemma char_byte_char [simp]: "char_byte (byte_char b) = b"
proof -
  have "unat b < 2 ^ LENGTH(8)" by (rule unsigned_less)
  then have "unat b mod 256 = unat b" by simp
  then show ?thesis by (simp add: byte_char_def char_byte_def)
qed

lemma byte_char_o [simp]: "byte_char \<circ> char_byte = id" "char_byte \<circ> byte_char = id"
  by (auto simp: comp_def)

lemma length_write_u64_from [simp]: "length (write_u64_from n v) = n"
  by (induction n arbitrary: v) simp_all

lemma length_write_u64 [simp]: "length (write_u64 v) = 8"
  by (simp add: write_u64_def)

lemma read_u64_snoc [simp]: "read_u64 (bs @ [b]) = push_bit 8 (read_u64 bs) OR ucast b"
  by (simp add: read_u64_def)

lemma read_write_from: "read_u64 (write_u64_from n v) = take_bit (8 * n) v"
proof (induction n arbitrary: v)
  case 0
  then show ?case by (simp add: read_u64_def)
next
  case (Suc n)
  show ?case unfolding write_u64_from.simps read_u64_snoc Suc.IH
    by (rule bit_word_eqI) (auto simp: bit_simps)
qed

lemma read_write_u64 [simp]: "read_u64 (write_u64 v) = v"
proof -
  have "take_bit 64 v = v" by (rule bit_word_eqI) (simp add: bit_simps)
  then show ?thesis by (simp add: write_u64_def read_write_from)
qed

lemma read_u64_small: "length bs \<le> 8 \<Longrightarrow> take_bit (8 * length bs) (read_u64 bs) = read_u64 bs"
proof (induction bs rule: rev_induct)
  case Nil
  then show ?case by (simp add: read_u64_def)
next
  case (snoc b bs)
  then have ih: "take_bit (8 * length bs) (read_u64 bs) = read_u64 bs" by simp
  show ?case unfolding read_u64_snoc
    by (subst (2) ih [symmetric], subst ih [symmetric], rule bit_word_eqI) (auto simp: bit_simps dest: bit_imp_le_length)
qed

lemma write_read_from: "length bs \<le> 8 \<Longrightarrow> write_u64_from (length bs) (read_u64 bs) = bs"
proof (induction bs rule: rev_induct)
  case (snoc b bs)
  have small: "take_bit (8 * length bs) (read_u64 bs) = read_u64 bs" by (rule read_u64_small) (use snoc.prems in simp)
  have "drop_bit 8 (push_bit 8 (read_u64 bs) OR ucast b) = read_u64 bs"
    by (subst (2) small [symmetric], subst small [symmetric], rule bit_word_eqI) (use snoc.prems in \<open>auto simp: bit_simps dest: bit_imp_le_length\<close>)
  moreover have "ucast (push_bit 8 (read_u64 bs) OR ucast b) = b"
    by (rule bit_word_eqI) (auto simp: bit_simps)
  ultimately show ?case using snoc by simp
qed simp

lemma write_read_u64: "length bs = 8 \<Longrightarrow> write_u64 (read_u64 bs) = bs"
  using write_read_from [of bs] by (simp add: write_u64_def)

lemma bytes_size_bytes: "n < 2 ^ 64 \<Longrightarrow> bytes_size (size_bytes n) = n"
  by (simp add: bytes_size_def size_bytes_def unsigned_of_nat take_bit_eq_mod)

lemma u64_unat: "n < 2 ^ 64 \<Longrightarrow> unat (of_nat n :: 64 word) = n"
  by (simp add: unsigned_of_nat take_bit_eq_mod)

lemma u64_less: "m < 2 ^ 64 \<Longrightarrow> n < 2 ^ 64 \<Longrightarrow> (of_nat m :: 64 word) < of_nat n \<longleftrightarrow> m < n"
  by (simp add: word_less_nat_alt u64_unat)

lemma u64_eq: "m < 2 ^ 64 \<Longrightarrow> n < 2 ^ 64 \<Longrightarrow> (of_nat m :: 64 word) = of_nat n \<longleftrightarrow> m = n"
  using u64_unat [of m] u64_unat [of n] by metis

lemma u64_0: "n < 2 ^ 64 \<Longrightarrow> (of_nat n :: 64 word) = 0 \<longleftrightarrow> n = 0"
  using u64_eq [of n 0] by simp

section \<open>Frames\<close>

lemma blit_mid: "length a = i \<Longrightarrow> length b = length xs \<Longrightarrow> blit i xs (a @ b @ c) = a @ xs @ c"
  by (simp add: blit_def)

lemma seg_mid: "length a = i \<Longrightarrow> length b = n \<Longrightarrow> seg i n (a @ b @ c) = b"
  by (simp add: seg_def)

definition frame_bytes :: "byte list \<Rightarrow> byte list \<Rightarrow> byte list" where
  "frame_bytes message file =
     [if file = [] then MT_request else MT_request_with_file] @ write_u64 (of_nat (length message)) @
     write_u64 (of_nat (length file)) @ message @ file"

definition opt_file :: "byte list \<Rightarrow> byte list option" where
  "opt_file file = (if file = [] then None else Some file)"

lemma build_frame_bytes: "build_frame message (opt_file file) = frame_bytes message file"
proof -
  let ?t = "if file = [] then MT_request else MT_request_with_file"
  let ?m = "write_u64 (of_nat (length message))" and ?f = "write_u64 (of_nat (length file))"
  have z: "(replicate (17 + length message + length file) 0)[0 := ?t] =
      [?t] @ replicate 8 0 @ replicate 8 0 @ replicate (length message) 0 @ replicate (length file) 0"
    by (simp add: replicate_add [symmetric] numeral_eq_Suc)
  have b1: "blit 1 ?m ([?t] @ replicate 8 0 @ r) = [?t] @ ?m @ r" for r by (rule blit_mid) simp_all
  have b2: "blit 9 ?f ([?t] @ ?m @ replicate 8 0 @ r) = [?t] @ ?m @ ?f @ r" for r
    using blit_mid [of "[?t] @ ?m" 9 "replicate 8 0" ?f r] by simp
  have b3: "blit 17 message ([?t] @ ?m @ ?f @ replicate (length message) 0 @ r) = [?t] @ ?m @ ?f @ message @ r" for r
    using blit_mid [of "[?t] @ ?m @ ?f" 17 "replicate (length message) 0" message r] by simp
  have b4: "blit (17 + length message) file ([?t] @ ?m @ ?f @ message @ replicate (length file) 0) = [?t] @ ?m @ ?f @ message @ file"
    using blit_mid [of "[?t] @ ?m @ ?f @ message" "17 + length message" "replicate (length file) 0" "file" "[]"] by simp
  have o: "(case opt_file file of None \<Rightarrow> [] | Some f \<Rightarrow> f) = file" "opt_file file = None \<longleftrightarrow> file = []"
    by (simp_all add: opt_file_def)
  show ?thesis unfolding build_frame_def Let_def o MTCL_HEADER_SIZE_def z b1 b2 b3 b4 by (simp add: frame_bytes_def)
qed

lemma length_frame_bytes [simp]: "length (frame_bytes m f) = MTCL_HEADER_SIZE + length m + length f"
  by (simp add: frame_bytes_def MTCL_HEADER_SIZE_def)

lemma frame_fields:
  "frame_bytes m f ! 0 = (if f = [] then MT_request else MT_request_with_file)"
  "seg 1 8 (frame_bytes m f) = write_u64 (of_nat (length m))"
  "seg 9 8 (frame_bytes m f) = write_u64 (of_nat (length f))"
  "seg MTCL_HEADER_SIZE (length m) (frame_bytes m f) = m"
  "seg (MTCL_HEADER_SIZE + length m) (length f) (frame_bytes m f) = f"
proof -
  let ?t = "if f = [] then MT_request else MT_request_with_file"
  let ?m = "write_u64 (of_nat (length m))" and ?f = "write_u64 (of_nat (length f))"
  show "frame_bytes m f ! 0 = ?t" by (simp add: frame_bytes_def)
  show "seg 1 8 (frame_bytes m f) = ?m" unfolding frame_bytes_def by (rule seg_mid) simp_all
  show "seg 9 8 (frame_bytes m f) = ?f" unfolding frame_bytes_def
    using seg_mid [of "[?t] @ ?m" 9 ?f 8 "m @ f"] by simp
  show "seg MTCL_HEADER_SIZE (length m) (frame_bytes m f) = m" unfolding frame_bytes_def MTCL_HEADER_SIZE_def
    using seg_mid [of "[?t] @ ?m @ ?f" 17 m "length m" f] by simp
  show "seg (MTCL_HEADER_SIZE + length m) (length f) (frame_bytes m f) = f" unfolding frame_bytes_def MTCL_HEADER_SIZE_def
    using seg_mid [of "[?t] @ ?m @ ?f @ m" "17 + length m" f "length f" "[]"] by simp
qed

definition frame_ok :: "byte list \<Rightarrow> byte list \<Rightarrow> bool" where
  "frame_ok message file \<longleftrightarrow>
     0 < length message \<and> length message \<le> CAPIO_SERVER_REQUEST_MAX_SIZE \<and> length file \<le> MTCL_MAX_FILE_TRANSFER_SIZE"

lemma check_frame_bytes:
  assumes "frame_ok m f"
  shows "check_frame (frame_bytes m f) =
    Accepted (map byte_char m) (if f = [] then None else Some (MTCL_HEADER_SIZE + length m))"
proof -
  have l: "length m < 2 ^ 64" "length f < 2 ^ 64" "CAPIO_SERVER_REQUEST_MAX_SIZE < 2 ^ 64" "MTCL_MAX_FILE_TRANSFER_SIZE < 2 ^ 64"
    using assms by (simp_all add: frame_ok_def mtcl_sizes)
  have "(of_nat (length m) :: 64 word) + of_nat (length f) = of_nat (length (frame_bytes m f) - MTCL_HEADER_SIZE)" by simp
  then show ?thesis using assms l
    unfolding check_frame_def Let_def frame_fields read_write_u64
    by (simp add: frame_ok_def u64_less u64_0 u64_unat frame_fields MT_request_def MT_request_with_file_def)
qed

lemma accepted_fields:
  assumes "check_frame fr = Accepted req off"
  shows "fr ! 0 = MT_request \<or> fr ! 0 = MT_request_with_file"
    and "0 < unat (read_u64 (seg 1 8 fr))" and "unat (read_u64 (seg 1 8 fr)) \<le> CAPIO_SERVER_REQUEST_MAX_SIZE"
    and "unat (read_u64 (seg 9 8 fr)) \<le> MTCL_MAX_FILE_TRANSFER_SIZE"
    and "fr ! 0 = MT_request_with_file \<longleftrightarrow> 0 < unat (read_u64 (seg 9 8 fr))"
    and "read_u64 (seg 1 8 fr) + read_u64 (seg 9 8 fr) = of_nat (length fr - MTCL_HEADER_SIZE)"
proof -
  have l: "CAPIO_SERVER_REQUEST_MAX_SIZE < 2 ^ 64" "MTCL_MAX_FILE_TRANSFER_SIZE < 2 ^ 64" by (simp_all add: mtcl_sizes)
  note a = assms [unfolded check_frame_def Let_def]
  show "fr ! 0 = MT_request \<or> fr ! 0 = MT_request_with_file"
    and "read_u64 (seg 1 8 fr) + read_u64 (seg 9 8 fr) = of_nat (length fr - MTCL_HEADER_SIZE)"
    using a by (auto split: if_splits)
  have "read_u64 (seg 1 8 fr) \<noteq> 0" "\<not> of_nat CAPIO_SERVER_REQUEST_MAX_SIZE < read_u64 (seg 1 8 fr)"
    "\<not> of_nat MTCL_MAX_FILE_TRANSFER_SIZE < read_u64 (seg 9 8 fr)"
    "fr ! 0 = MT_request_with_file \<longleftrightarrow> read_u64 (seg 9 8 fr) \<noteq> 0"
    using a by (auto split: if_splits)
  then show "0 < unat (read_u64 (seg 1 8 fr))" "unat (read_u64 (seg 1 8 fr)) \<le> CAPIO_SERVER_REQUEST_MAX_SIZE"
    "unat (read_u64 (seg 9 8 fr)) \<le> MTCL_MAX_FILE_TRANSFER_SIZE"
    "fr ! 0 = MT_request_with_file \<longleftrightarrow> 0 < unat (read_u64 (seg 9 8 fr))"
    by (simp_all add: word_less_nat_alt u64_unat [OF l(1)] u64_unat [OF l(2)] unat_eq_0 flip: neq0_conv)
qed

lemma accepted_frame:
  assumes "check_frame fr = Accepted req off" and "MTCL_HEADER_SIZE \<le> length fr" and "length fr \<le> MTCL_MAX_FRAME_SIZE"
  obtains m f where "frame_ok m f" and "fr = frame_bytes m f"
proof -
  note a = accepted_fields [OF assms(1)]
  define n where "n = unat (read_u64 (seg 1 8 fr))"
  define k where "k = unat (read_u64 (seg 9 8 fr))"
  have small: "n + k < 2 ^ 64" "length fr - MTCL_HEADER_SIZE < 2 ^ 64"
    using a(3,4) assms(3) unfolding n_def k_def by (simp_all add: mtcl_sizes)
  have r: "read_u64 (seg 1 8 fr) = of_nat n" "read_u64 (seg 9 8 fr) = of_nat k" by (simp_all add: n_def k_def)
  have "(of_nat (n + k) :: 64 word) = of_nat (length fr - MTCL_HEADER_SIZE)" using a(6) unfolding r by simp
  then have "n + k = length fr - MTCL_HEADER_SIZE" using small by (simp only: u64_eq)
  then have len: "length fr = 17 + n + k" using assms(2) by (simp add: MTCL_HEADER_SIZE_def)
  define m where "m = seg 17 n fr"
  define f where "f = seg (17 + n) k fr"
  have lm: "length m = n" "length f = k" unfolding m_def f_def using len by (simp_all add: list_mem)
  have "seg 0 1 fr @ seg 1 8 fr @ seg 9 8 fr @ m @ f = seg 0 (17 + n + k) fr"
    unfolding m_def f_def
    using seg_append_seg [of 0 1 fr 8] seg_append_seg [of 0 9 fr 8] seg_append_seg [of 0 17 fr n] seg_append_seg [of 0 "17 + n" fr k]
    by (simp flip: append_assoc)
  moreover have "seg 0 1 fr = [fr ! 0]" using len by (intro nth_equalityI) (simp_all add: list_mem)
  moreover have "seg 0 (17 + n + k) fr = fr" using len by (simp add: seg_def)
  moreover have "seg 1 8 fr = write_u64 (of_nat n)" "seg 9 8 fr = write_u64 (of_nat k)"
    using write_read_u64 [of "seg 1 8 fr"] write_read_u64 [of "seg 9 8 fr"] len r by (simp_all add: list_mem)
  moreover have "fr ! 0 = (if f = [] then MT_request else MT_request_with_file)"
    using a(1,5) lm(2) unfolding k_def [symmetric] by (cases f) auto
  ultimately have "fr = frame_bytes m f" unfolding frame_bytes_def lm by simp
  moreover have "frame_ok m f" using a(2-4) unfolding frame_ok_def lm n_def k_def by simp
  ultimately show thesis by (rule that [rotated])
qed

text \<open>
  C13: A server accepts a frame of a size it takes exactly when some server could have built it: the
  frame is the one \<open>send_frame\<close> builds from a request of 1 to 86016 bytes and a file of at most
  4 GiB. The request it hands on is that request, and the file starts where that file lies; the
  sum of the two sizes in the header does not wrap around.
\<close>

theorem accepts_exactly_built_frames:
  assumes "MTCL_HEADER_SIZE \<le> length fr" and "length fr \<le> MTCL_MAX_FRAME_SIZE"
  shows "check_frame fr = Accepted req off \<longleftrightarrow>
    (\<exists>m f. 0 < length m \<and> length m \<le> CAPIO_SERVER_REQUEST_MAX_SIZE \<and> length f \<le> MTCL_MAX_FILE_TRANSFER_SIZE \<and>
       fr = build_frame m (if f = [] then None else Some f) \<and> req = map byte_char m \<and>
       off = (if f = [] then None else Some (length fr - length f)) \<and> seg (length fr - length f) (length f) fr = f)"
    (is "_ \<longleftrightarrow> ?built")
proof
  assume c: "check_frame fr = Accepted req off"
  obtain m f where mf: "frame_ok m f" "fr = frame_bytes m f" by (rule accepted_frame [OF c assms])
  have "req = map byte_char m" "off = (if f = [] then None else Some (length fr - length f))"
    using c check_frame_bytes [OF mf(1)] unfolding mf(2) by auto
  moreover have "fr = build_frame m (if f = [] then None else Some f)"
    using build_frame_bytes [of m f] mf(2) by (simp add: opt_file_def)
  moreover have "seg (length fr - length f) (length f) fr = f" using frame_fields(5) [of m f] mf(2) by simp
  ultimately show ?built using mf(1) unfolding frame_ok_def by blast
next
  assume ?built
  then obtain m f where mf: "frame_ok m f" "fr = build_frame m (if f = [] then None else Some f)" "req = map byte_char m"
    "off = (if f = [] then None else Some (length fr - length f))" unfolding frame_ok_def by blast
  have "fr = frame_bytes m f" using mf(2) build_frame_bytes [of m f] by (simp add: opt_file_def)
  then show "check_frame fr = Accepted req off" using check_frame_bytes [OF mf(1)] mf(3,4) by simp
qed

theorem accepts_exactly_built_frames_witness:
  "check_frame (build_frame (map char_byte ''01'') (Some [7])) = Accepted ''01'' (Some 19) \<and>
   (\<exists>m f. 0 < length m \<and> length m \<le> CAPIO_SERVER_REQUEST_MAX_SIZE \<and> length f \<le> MTCL_MAX_FILE_TRANSFER_SIZE \<and>
      build_frame (map char_byte ''01'') (Some [7]) = build_frame m (if f = [] then None else Some f) \<and> ''01'' = map byte_char m)"
proof -
  let ?m = "map char_byte ''01''"
  let ?fr = "build_frame ?m (Some [7])"
  have fr: "?fr = frame_bytes ?m [7]" using build_frame_bytes [of ?m "[7]"] by (simp add: opt_file_def)
  then have len: "length ?fr = 20" by (simp add: MTCL_HEADER_SIZE_def)
  have "frame_ok ?m [7]" by (simp add: frame_ok_def mtcl_sizes)
  then have c: "check_frame ?fr = Accepted ''01'' (Some 19)"
    unfolding fr by (subst check_frame_bytes) (simp_all add: MTCL_HEADER_SIZE_def)
  have "MTCL_HEADER_SIZE \<le> length ?fr" "length ?fr \<le> MTCL_MAX_FRAME_SIZE" unfolding len by (simp_all add: mtcl_sizes)
  from iffD1 [OF accepts_exactly_built_frames [OF this] c] show ?thesis
    by (elim exE conjE) (intro conjI exI, rule c, assumption+)
qed

section \<open>From one server to another\<close>

text \<open>What the library shows of a message that waits at a handle: it can be probed and received whole.\<close>

definition offers :: "('w, 'h, 'r) mtcl \<Rightarrow> 'h \<Rightarrow> string \<Rightarrow> byte list \<Rightarrow> 'w \<Rightarrow> bool" where
  "offers M h src fr w \<longleftrightarrow>
     \<not> M_isNewConnection M h w \<and> M_getName M h w = src \<and> 0 < fst (fst (M_probe M h w)) \<and>
     snd (fst (M_probe M h w)) = length fr \<and>
     fst (M_receive M h (length fr) (snd (M_probe M h w))) = (int (length fr), fr)"

lemma next_event_offered:
  assumes "offers M h src (frame_bytes m f) (mb_world r)" and "frame_ok m f"
  obtains r' where "next_event M h r = Inr (Some (RemoteRequest_new (map byte_char m) src), r')"
    and "mb_pending_file r' = (if f = [] then mb_pending_file r
      else Some \<lparr>pf_source = src, pf_frame = frame_bytes m f, pf_offset = MTCL_HEADER_SIZE + length m\<rparr>)"
proof -
  obtain rc w1 where p: "M_probe M h (mb_world r) = ((rc, length (frame_bytes m f)), w1)" "0 < rc"
    using assms(1) unfolding offers_def by (metis prod.collapse)
  obtain w2 where v: "M_receive M h (length (frame_bytes m f)) w1 = ((int (length (frame_bytes m f)), frame_bytes m f), w2)"
    using assms(1) unfolding offers_def p by (metis prod.collapse snd_conv)
  have len: "\<not> (length (frame_bytes m f) < MTCL_HEADER_SIZE \<or> MTCL_MAX_FRAME_SIZE < length (frame_bytes m f))"
    using assms(2) by (simp add: frame_ok_def MTCL_MAX_FRAME_SIZE_def)
  have n: "\<not> M_isNewConnection M h (mb_world r)" "M_getName M h (mb_world r) = src" using assms(1) by (simp_all add: offers_def)
  let ?p = "\<lparr>pf_source = src, pf_frame = frame_bytes m f, pf_offset = MTCL_HEADER_SIZE + length m\<rparr>"
  have run: "next_event M h r = Inr (Some (RemoteRequest_new (map byte_char m) src),
      if f = [] then r\<lparr>mb_world := M_yield M h w2\<rparr> else r\<lparr>mb_pending_file := Some ?p, mb_world := M_yield M h w2\<rparr>)"
    using n p len v check_frame_bytes [OF assms(2)]
    by (cases "f = []") (simp_all add: next_event_def Let_def receive_message_def monad_simps doMtcl_def onMtcl_def del: length_frame_bytes)
  show thesis by (rule that [OF run]) simp
qed

lemma frame_sent:
  assumes "map_of (mb_open_connections s) target = Some c" and "conn_cleanup M c (mb_world s) = (True, c1, w1)"
    and "M_isend M (mc_handle c1) (frame_bytes m f) w1 = ((rc, q), w2)" and "0 \<le> rc" and "frame_ok m f"
  shows "send_file M (Some m) (int (length m)) (opt_file f) (int (length f)) target s =
    Inr ((), s\<lparr>mb_world := w2, mb_open_connections := AList.update target
      (c1\<lparr>mc_pending_sends := mc_pending_sends c1 @ [(frame_bytes m f, q)]\<rparr>) (mb_open_connections s)\<rparr>)"
proof -
  have "send_file M (Some m) (int (length m)) (opt_file f) (int (length f)) target = send_frame M m (opt_file f) target"
    using assms(5) by (auto simp: send_file_def frame_ok_def bytes_at_def opt_file_def)
  then show ?thesis using assms(1-4)
    by (simp add: send_frame_def build_frame_bytes conn_send_def monad_simps onMtcl_def)
qed

lemma recv_pending:
  assumes "mb_pending_file r = Some \<lparr>pf_source = src, pf_frame = frame_bytes m f, pf_offset = MTCL_HEADER_SIZE + length m\<rparr>"
  shows "recv_file True (int (length f)) src r = Inr (f, r\<lparr>mb_pending_file := None\<rparr>)"
  using assms frame_fields(5) [of m f] by (simp add: recv_file_def monad_simps)

text \<open>No frame waits for its completion.\<close>

definition no_pending :: "('w, 'h, 'r) mtcl_backend \<Rightarrow> bool" where
  "no_pending s \<longleftrightarrow> list_all (\<lambda>e. mc_pending_sends (snd e) = []) (mb_open_connections s)"

lemma cleanup_all_quiet: "list_all (\<lambda>e. mc_pending_sends (snd e) = []) cs \<Longrightarrow> cleanup_all M cs w = ([], cs, w)"
  by (induction cs arbitrary: w) (auto simp: conn_cleanup_def)

lemma cleanup_quiet: "no_pending s \<Longrightarrow> cleanup_completed_sends M s = Inr ((), s)"
  by (simp add: no_pending_def cleanup_completed_sends_def cleanup_all_quiet monad_simps)

text \<open>The world after \<open>k\<close> polls that find nothing.\<close>

fun polls :: "('w, 'h, 'r) mtcl \<Rightarrow> nat \<Rightarrow> 'w \<Rightarrow> 'w" where
  "polls M 0 w = w"
| "polls M (Suc k) w = polls M k (snd (M_getNext M w))"

lemma read_loop_polls:
  assumes "mb_continue_execution r" and "no_pending r" and "\<forall>j<k. fst (M_getNext M (polls M j (mb_world r))) = None"
  shows "read_loop M (k + n) r = read_loop M n (r\<lparr>mb_world := polls M k (mb_world r)\<rparr>)"
  using assms
proof (induction k arbitrary: r)
  case (Suc k)
  obtain w where w: "M_getNext M (mb_world r) = (None, w)"
    using Suc.prems(3) [rule_format, of 0] by (metis polls.simps(1) prod.collapse zero_less_Suc)
  let ?r = "r\<lparr>mb_world := w\<rparr>"
  have "no_pending ?r" using Suc.prems(2) by (simp add: no_pending_def)
  moreover have "\<forall>j<k. fst (M_getNext M (polls M j (mb_world ?r))) = None"
    using Suc.prems(3) w by (auto dest: spec [of _ "Suc _"])
  moreover have "read_loop M (Suc k + n) r = read_loop M (k + n) ?r"
    using Suc.prems(1) w cleanup_quiet [OF Suc.prems(2)] by (simp add: monad_simps onMtcl_def)
  ultimately show ?case using Suc.IH [of ?r] Suc.prems(1) w by simp
qed simp

text \<open>
  C12: A request and its file travel from one server to another. The sender, connected to the target,
  hands MTCL one frame; the receiver, however often it polls before the frame arrives, returns
  the request with the name of the sender, and \<open>recv_file\<close> then gives exactly the bytes of the
  file. What is asked of MTCL is that it accepts the frame and that the receiver can probe and
  receive the same bytes.
\<close>

theorem mtcl_request_and_file_arrive:
  assumes "map_of (mb_open_connections s) target = Some c" and "conn_cleanup M c (mb_world s) = (True, c1, w1)"
    and "M_isend M (mc_handle c1) (build_frame m (if f = [] then None else Some f)) w1 = ((rc, q), w2)" and "0 \<le> rc"
    and "0 < length m" and "length m \<le> CAPIO_SERVER_REQUEST_MAX_SIZE" and "length f \<le> MTCL_MAX_FILE_TRANSFER_SIZE"
    and "mb_continue_execution r" and "no_pending r"
    and "\<forall>j<k. fst (M_getNext M (polls M j (mb_world r))) = None" and "M_getNext M (polls M k (mb_world r)) = (Some h, w3)"
    and "offers M h src (build_frame m (if f = [] then None else Some f)) w3" and "k < fuel"
  shows "\<exists>s' r1. send_file M (Some m) (int (length m)) (if f = [] then None else Some f) (int (length f)) target s = Inr ((), s') \<and>
      mb_world s' = w2 \<and>
      read_next_request M fuel r = Inr (Some (RemoteRequest_new (map byte_char m) src), r1) \<and>
      (f \<noteq> [] \<longrightarrow> recv_file True (int (length f)) src r1 = Inr (f, r1\<lparr>mb_pending_file := None\<rparr>))"
proof -
  have ok: "frame_ok m f" using assms(5-7) by (simp add: frame_ok_def)
  have fr: "build_frame m (if f = [] then None else Some f) = frame_bytes m f"
    using build_frame_bytes [of m f] by (simp add: opt_file_def)
  obtain s' where s': "send_file M (Some m) (int (length m)) (opt_file f) (int (length f)) target s = Inr ((), s')" "mb_world s' = w2"
    using frame_sent [OF assms(1,2) assms(3) [unfolded fr] assms(4) ok] by simp
  let ?rr = "r\<lparr>mb_pending_file := None\<rparr>"
  let ?r = "?rr\<lparr>mb_world := w3\<rparr>"
  have off: "offers M h src (frame_bytes m f) (mb_world ?r)" using assms(12) fr by simp
  obtain r1 where r1: "next_event M h ?r = Inr (Some (RemoteRequest_new (map byte_char m) src), r1)"
    "mb_pending_file r1 = (if f = [] then mb_pending_file ?r
      else Some \<lparr>pf_source = src, pf_frame = frame_bytes m f, pf_offset = MTCL_HEADER_SIZE + length m\<rparr>)"
    by (rule next_event_offered [OF off ok])
  obtain n where n: "fuel = k + Suc n" using assms(13) less_iff_Suc_add by auto
  have q: "no_pending ?rr" "no_pending (?rr\<lparr>mb_world := polls M k (mb_world r)\<rparr>)" using assms(9) by (simp_all add: no_pending_def)
  have "read_loop M (k + Suc n) ?rr = read_loop M (Suc n) (?rr\<lparr>mb_world := polls M k (mb_world ?rr)\<rparr>)"
    by (rule read_loop_polls) (use assms(8,10) q in simp_all)
  also have "\<dots> = Inr (Some (RemoteRequest_new (map byte_char m) src), r1)"
    using assms(8,11) r1(1) cleanup_quiet [OF q(2)] by (simp add: monad_simps onMtcl_def)
  finally have "read_next_request M fuel r = Inr (Some (RemoteRequest_new (map byte_char m) src), r1)"
    unfolding n read_next_request_def by (simp add: monad_simps)
  moreover have "f \<noteq> [] \<longrightarrow> recv_file True (int (length f)) src r1 = Inr (f, r1\<lparr>mb_pending_file := None\<rparr>)"
    using recv_pending [of r1 src m f] r1(2) by simp
  ultimately show ?thesis using s' by (auto simp: opt_file_def)
qed

text \<open>A library that delivers each message to the next receiver.\<close>

definition loop_mtcl :: "(byte list list, unit, nat) mtcl" where
  "loop_mtcl =
     \<lparr>M_init = (\<lambda>_ w. w), M_listen = (\<lambda>_ w. w), M_finalize = (\<lambda>w. w), M_connect = (\<lambda>_ w. (Some (), w)),
      M_getNext = (\<lambda>w. (if w = [] then None else Some (), w)), M_isNewConnection = (\<lambda>_ _. False), M_getName = (\<lambda>_ _. ''a''),
      M_setName = (\<lambda>_ _ w. w), M_probe = (\<lambda>_ w. ((1, length (hd w)), w)),
      M_receive = (\<lambda>_ _ w. ((int (length (hd w)), hd w), tl w)), M_ireceive = (\<lambda>_ _ w. ((0, 0), tl w)), M_wait = (\<lambda>_ w. w),
      M_send = (\<lambda>_ bs w. (int (length bs), w @ [bs])), M_isend = (\<lambda>_ bs w. ((0, length bs), w @ [bs])),
      M_test = (\<lambda>_ w. (True, w)), M_count = (\<lambda>r _. int r), M_yield = (\<lambda>_ w. w), M_close = (\<lambda>_ w. w)\<rparr>"

definition loop_backend :: "(string \<times> (unit, nat) mtcl_connection) list \<Rightarrow> byte list list \<Rightarrow> (byte list list, unit, nat) mtcl_backend" where
  "loop_backend cs w = (MTCLBackend_new loop_mtcl ''a'' ''TCP'' ''7600'' 1000 w)\<lparr>mb_open_connections := cs\<rparr>"

theorem mtcl_request_and_file_arrive_witness:
  "let s = loop_backend [(''b'', \<lparr>mc_handle = (), mc_pending_sends = []\<rparr>)] [];
       r = loop_backend [] [build_frame (map char_byte ''0001 7'') (Some [1, 2])]
   in \<exists>s' r1. send_file loop_mtcl (Some (map char_byte ''0001 7'')) 6 (Some [1, 2]) 2 ''b'' s = Inr ((), s') \<and>
        mb_world s' = [build_frame (map char_byte ''0001 7'') (Some [1, 2])] \<and>
        read_next_request loop_mtcl 1 r = Inr (Some (RemoteRequest_new ''0001 7'' ''a''), r1) \<and>
        recv_file True 2 ''a'' r1 = Inr ([1, 2], r1\<lparr>mb_pending_file := None\<rparr>)"
proof -
  let ?m = "map char_byte ''0001 7''"
  let ?fr = "build_frame ?m (Some [1, 2])" and ?c = "\<lparr>mc_handle = (), mc_pending_sends = [] :: (byte list \<times> nat) list\<rparr>"
  note ends = loop_backend_def MTCLBackend_new_def loop_mtcl_def Let_def
  have s: "map_of (mb_open_connections (loop_backend [(''b'', ?c)] [])) ''b'' = Some ?c"
    "conn_cleanup loop_mtcl ?c (mb_world (loop_backend [(''b'', ?c)] [])) = (True, ?c, [])"
    "M_isend loop_mtcl (mc_handle ?c) (build_frame ?m (if [1, 2] = [] then None else Some [1, 2])) [] = ((0, length ?fr), [?fr])"
    by (simp_all add: ends conn_cleanup_def)
  have r: "mb_continue_execution (loop_backend [] [?fr])" "no_pending (loop_backend [] [?fr])"
    "\<forall>j<0. fst (M_getNext loop_mtcl (polls loop_mtcl j (mb_world (loop_backend [] [?fr])))) = None"
    "M_getNext loop_mtcl (polls loop_mtcl 0 (mb_world (loop_backend [] [?fr]))) = (Some (), [?fr])"
    "offers loop_mtcl () ''a'' (build_frame ?m (if [1, 2] = [] then None else Some [1, 2])) [?fr]"
    by (simp_all add: ends no_pending_def offers_def)
  have l: "0 < length ?m" "length ?m \<le> CAPIO_SERVER_REQUEST_MAX_SIZE" "length [1 :: byte, 2] \<le> MTCL_MAX_FILE_TRANSFER_SIZE"
    by (simp_all add: mtcl_sizes)
  show ?thesis
    using mtcl_request_and_file_arrive [OF s order_refl l r zero_less_one] by simp
qed

section \<open>The table of connections\<close>

text \<open>
  Every server has at most one connection, none has an empty name, and the file of a request
  lies in its frame.
\<close>

definition backend_ok :: "('w, 'h, 'r) mtcl_backend \<Rightarrow> bool" where
  "backend_ok s \<longleftrightarrow>
     distinct (map fst (mb_open_connections s)) \<and> [] \<notin> set (map fst (mb_open_connections s)) \<and>
     (case mb_pending_file s of None \<Rightarrow> True | Some p \<Rightarrow> MTCL_HEADER_SIZE < pf_offset p \<and> pf_offset p < length (pf_frame p))"

lemma backend_okI:
  "distinct (map fst (mb_open_connections s)) \<Longrightarrow> [] \<notin> set (map fst (mb_open_connections s)) \<Longrightarrow> mb_pending_file s = mb_pending_file t \<Longrightarrow>
   backend_ok t \<Longrightarrow> backend_ok s"
  by (simp add: backend_ok_def)

lemma keeps_onMtcl [keeps_intros]: "keepsM backend_ok (onMtcl g)"
  by (rule keepsMI) (auto simp: onMtcl_def backend_ok_def split: prod.splits)

lemma keeps_doMtcl [keeps_intros]: "keepsM backend_ok (doMtcl g)"
  unfolding doMtcl_def by (rule keeps_modify) (simp add: backend_ok_def)

lemma keeps_remove [keeps_intros]: "keepsM backend_ok (remove_connection M h)"
  by (rule keepsMI)
     (auto simp: remove_connection_def monad_simps doMtcl_def backend_ok_def distinct_map_filter split: option.splits sum.splits)

lemma keys_cleanup_all: "cleanup_all M cs w = (failed, cs1, w1) \<Longrightarrow> map fst cs1 = map fst cs"
  by (induction M cs w arbitrary: failed cs1 w1 rule: cleanup_all.induct) (auto split: prod.splits)

lemma keeps_cleanup [keeps_intros]: "keepsM backend_ok (cleanup_completed_sends M)"
  unfolding cleanup_completed_sends_def
  by (intro keeps_bind keeps_forM keeps_remove keepsMI)
     (auto simp: backend_ok_def simp del: set_map dest!: keys_cleanup_all split: prod.splits)

lemma keeps_register: "h \<noteq> [] \<Longrightarrow> keepsM backend_ok (register_connection M h c)"
  by (rule keepsMI)
     (auto simp: register_connection_def monad_simps doMtcl_def backend_ok_def map_of_eq_None_iff split: if_splits)

lemma keeps_receive [keeps_intros]: "keepsM backend_ok (receive_message M h n)"
  unfolding receive_message_def by (intro keeps_intros)

lemma receive_length: "receive_message M h n s = Inr (Some bs, t) \<Longrightarrow> length bs = n"
  by (auto simp: receive_message_def monad_simps onMtcl_def split: prod.splits if_splits)

lemma keeps_discard [keeps_intros]: "keepsM backend_ok (discard_message M h)"
  unfolding discard_message_def by (intro keeps_intros)

lemma keeps_bind_val:
  assumes "keepsM I m" and "\<And>s x t. m s = Inr (x, t) \<Longrightarrow> P x" and "\<And>x. P x \<Longrightarrow> keepsM I (k x)"
  shows "keepsM I (bindM m k)"
proof (rule keepsMI)
  fix s y t assume "I s" and "bindM m k s = Inr (y, t)"
  then obtain x u where m: "m s = Inr (x, u)" and k: "k x u = Inr (y, t)" by (auto simp: bindM_Inr_iff)
  show "I t" by (rule keepsMD [OF assms(3) [OF assms(2) [OF m]] keepsMD [OF assms(1) \<open>I s\<close> m] k])
qed

lemma keeps_if_cond: "(b \<Longrightarrow> keepsM I m) \<Longrightarrow> (\<not> b \<Longrightarrow> keepsM I k) \<Longrightarrow> keepsM I (if b then m else k)"
  by simp

lemma keeps_received:
  assumes "keepsM backend_ok (k None)" and "\<And>bs. length bs = n \<Longrightarrow> keepsM backend_ok (k (Some bs))"
  shows "keepsM backend_ok (bindM (receive_message M h n) k)"
proof (rule keeps_bind_val [OF keeps_receive])
  show "case x of None \<Rightarrow> True | Some bs \<Rightarrow> length bs = n" if "receive_message M h n s = Inr (x, t)" for s x t
    using that by (cases x) (auto dest: receive_length)
  show "keepsM backend_ok (k x)" if "case x of None \<Rightarrow> True | Some bs \<Rightarrow> length bs = n" for x
    using that assms by (cases x) auto
qed

lemma keeps_accept [keeps_intros]: "keepsM backend_ok (accept_connection M h)"
  unfolding accept_connection_def Let_def
  by (rule keeps_received, simp_all only: option.case, rule keeps_doMtcl, rule keeps_if_cond, rule keeps_doMtcl,
      rule keeps_received, simp_all only: option.case)
     (auto intro!: keeps_then keeps_doMtcl keeps_register)

lemma accepted_file:
  assumes "check_frame fr = Accepted req (Some off)" and "MTCL_HEADER_SIZE \<le> length fr" and "length fr \<le> MTCL_MAX_FRAME_SIZE"
  shows "MTCL_HEADER_SIZE < off \<and> off < length fr"
proof -
  obtain m f where mf: "frame_ok m f" "fr = frame_bytes m f" by (rule accepted_frame [OF assms])
  then show ?thesis using assms(1) check_frame_bytes [OF mf(1)] by (auto simp: frame_ok_def split: if_splits)
qed

lemma keeps_pending: "MTCL_HEADER_SIZE < off \<Longrightarrow> off < length fr \<Longrightarrow>
    keepsM backend_ok (modifyM (\<lambda>s. s\<lparr>mb_pending_file := Some \<lparr>pf_source = src, pf_frame = fr, pf_offset = off\<rparr>\<rparr>))"
  by (rule keeps_modify) (simp add: backend_ok_def)

lemma keeps_next_event [keeps_intros]: "keepsM backend_ok (next_event M h)"
  unfolding next_event_def Let_def
proof (rule keeps_bind [OF keeps_gets], rule keeps_if, goal_cases)
  case (2 fresh)
  have reject: "keepsM backend_ok (thenM (remove_connection M n) (returnM x))" for n x by (intro keeps_intros)
  show ?case
  proof (rule keeps_bind [OF keeps_gets], rule keeps_bind [OF keeps_onMtcl], rule keeps_case_prod, rule keeps_if_cond, rule reject,
      rule keeps_if_cond, rule keeps_then [OF keeps_discard reject], rule keeps_received, simp_all only: option.case, rule reject, goal_cases)
    case (1 name pr rc available bs)
    have "keepsM backend_ok (modifyM (\<lambda>s. s\<lparr>mb_pending_file := Some \<lparr>pf_source = name, pf_frame = bs, pf_offset = off\<rparr>\<rparr>))"
      if "check_frame bs = Accepted req (Some off)" for req off
      using accepted_file [OF that] 1 by (intro keeps_pending) auto
    then show ?case
      by (cases "check_frame bs") (auto intro!: keeps_intros reject split: option.split)
  qed
qed (intro keeps_intros)

lemma keeps_read_loop [keeps_intros]: "keepsM backend_ok (read_loop M n)"
  by (induction n) (auto intro!: keeps_intros)

lemma keeps_set_pending_none [keeps_intros]: "keepsM backend_ok (modifyM (\<lambda>s. s\<lparr>mb_pending_file := None\<rparr>))"
  by (rule keeps_modify) (simp add: backend_ok_def)

lemma keeps_read_next_request: "keepsM backend_ok (read_next_request M n)"
  unfolding read_next_request_def by (intro keeps_intros)

lemma keeps_recv_file: "keepsM backend_ok (recv_file ok n src)"
  unfolding recv_file_def by (intro keeps_intros)

lemma keys_update: "map_of cs k = Some c \<Longrightarrow> map fst (AList.update k v cs) = map fst cs"
  by (induction cs) (auto split: if_splits)

lemma keeps_send_frame [keeps_intros]: "keepsM backend_ok (send_frame M m f target)"
proof (rule keepsMI)
  fix s x t assume ok: "backend_ok s" and run: "send_frame M m f target s = Inr (x, t)"
  show "backend_ok t"
  proof (cases "map_of (mb_open_connections s) target")
    case None
    then show ?thesis using ok run by (simp add: send_frame_def monad_simps)
  next
    case (Some c)
    obtain b c1 w1 where c1: "conn_send M c (build_frame m f) (mb_world s) = (b, c1, w1)" by (rule prod_cases3)
    let ?u = "s\<lparr>mb_world := w1, mb_open_connections := AList.update target c1 (mb_open_connections s)\<rparr>"
    have u: "backend_ok ?u" using ok keys_update [OF Some, of c1] by (simp add: backend_ok_def del: set_map)
    have "whenM (\<not> b) (remove_connection M target) ?u = Inr (x, t)"
      using run Some c1 by (simp add: send_frame_def bindM_def thenM_def getsM_def modifyM_def onMtcl_def)
    then show ?thesis using u keepsMD [OF keeps_when [OF keeps_remove]] by blast
  qed
qed

lemma keeps_bytes_at [keeps_intros]: "keepsM I (bytes_at p n)"
  unfolding bytes_at_def by (intro keeps_intros)

lemma keeps_send_request: "keepsM backend_ok (send_request M m n target)"
  unfolding send_request_def by (intro keeps_intros)

lemma keeps_send_file: "keepsM backend_ok (send_file M m n f k target)"
  unfolding send_file_def by (intro keeps_intros)

lemma keeps_connect_to: "keepsM backend_ok (connect_to M tok)"
  unfolding connect_to_def
  by (rule keeps_case_option, rule keeps_return, rule keeps_bind [OF keeps_gets], rule keeps_if_cond, rule keeps_return)
     (auto intro!: keeps_intros keeps_register)

lemma keeps_destroy: "keepsM backend_ok (MTCLBackend_destroy M)"
  unfolding MTCLBackend_destroy_def by (intro keeps_intros keeps_modify) (simp_all add: backend_ok_def)

text \<open>
  The states of a backend: after its construction, any of its operations, called by the listener,
  the handlers or the discovery service, and any change of the world outside.
\<close>

inductive mtcl_reachable :: "('w, 'h, 'r) mtcl \<Rightarrow> ('w, 'h, 'r) mtcl_backend \<Rightarrow> bool" for M where
  "mtcl_reachable M (MTCLBackend_new M name proto port sleep w)"
| "mtcl_reachable M s \<Longrightarrow> read_next_request M n s = Inr (v, t) \<Longrightarrow> mtcl_reachable M t"
| "mtcl_reachable M s \<Longrightarrow> recv_file ok n src s = Inr (bs, t) \<Longrightarrow> mtcl_reachable M t"
| "mtcl_reachable M s \<Longrightarrow> send_request M m n target s = Inr (u, t) \<Longrightarrow> mtcl_reachable M t"
| "mtcl_reachable M s \<Longrightarrow> send_file M m n f k target s = Inr (u, t) \<Longrightarrow> mtcl_reachable M t"
| "mtcl_reachable M s \<Longrightarrow> connect_to M tok s = Inr (u, t) \<Longrightarrow> mtcl_reachable M t"
| "mtcl_reachable M s \<Longrightarrow> MTCLBackend_destroy M s = Inr (u, t) \<Longrightarrow> mtcl_reachable M t"
| "mtcl_reachable M s \<Longrightarrow> mtcl_reachable M (s\<lparr>mb_world := w\<rparr>)"

lemma reachable_backend_ok: "mtcl_reachable M s \<Longrightarrow> backend_ok s"
proof (induction rule: mtcl_reachable.induct)
  case (1 name proto port sleep w)
  then show ?case by (simp add: backend_ok_def MTCLBackend_new_def Let_def)
next
  case (8 s w)
  then show ?case by (simp add: backend_ok_def)
qed (blast intro: keepsMD [OF keeps_read_next_request] keepsMD [OF keeps_recv_file] keepsMD [OF keeps_send_request]
      keepsMD [OF keeps_send_file] keepsMD [OF keeps_connect_to] keepsMD [OF keeps_destroy])+

text \<open>
  C22: In every state of a backend, whatever its peers send, each connected server appears once and under a
  name that is not empty, and a file that waits for \<open>recv_file\<close> lies inside the frame it came
  with: \<open>recv_file\<close> returns as many bytes as it was asked for, or throws.
\<close>

theorem mtcl_state_is_safe:
  assumes "mtcl_reachable M s"
  shows "distinct (map fst (mb_open_connections s)) \<and> [] \<notin> set (map fst (mb_open_connections s)) \<and>
    (\<forall>p. mb_pending_file s = Some p \<longrightarrow> pf_offset p < length (pf_frame p)) \<and>
    (case recv_file ok n src s of Inl e \<Rightarrow> \<exists>c. e = Throws c | Inr (bs, t) \<Rightarrow> int (length bs) = n)"
  using reachable_backend_ok [OF assms]
  by (auto simp: backend_ok_def recv_file_def monad_simps seg_def split: option.splits)

theorem mtcl_state_is_safe_witness:
  "mtcl_reachable loop_mtcl (loop_backend [] []) \<and>
   (case recv_file True 2 ''a'' (loop_backend [] []) of Inl e \<Rightarrow> \<exists>c. e = Throws c | Inr (bs, t) \<Rightarrow> int (length bs) = 2)"
proof -
  have "loop_backend [] [] = MTCLBackend_new loop_mtcl ''a'' ''TCP'' ''7600'' 1000 []"
    by (simp add: loop_backend_def MTCLBackend_new_def Let_def)
  then have "mtcl_reachable loop_mtcl (loop_backend [] [])" by (simp only: mtcl_reachable.intros(1))
  then show ?thesis using mtcl_state_is_safe [where ok = True and n = 2 and src = "''a''" and s = "loop_backend [] []"] by simp
qed

section \<open>Who connects\<close>

lemma token_hostname_advertised:
  assumes "CHR '':'' \<notin> set proto" and "CHR '':'' \<notin> set port"
  shows "token_hostname (proto @ '':'' @ name @ '':'' @ port) = Some name"
proof -
  let ?t = "proto @ '':'' @ name @ '':'' @ port" and ?n = "length proto + length name + 1"
  have "find_char ?t (CHR '':'') 0 = Some (length proto)"
    unfolding find_char_def find_Some_iff
    by (rule exI [of _ "length proto"]) (use assms(1) in \<open>auto simp: nth_append in_set_conv_nth\<close>)
  moreover have "rfind_char ?t (CHR '':'') = Some ?n"
    unfolding rfind_char_def find_Some_iff
  proof (rule exI [of _ "length port"], intro conjI allI impI)
    have idx: "rev [0..<n] ! j = n - Suc j" if "j < n" for n j :: nat using that by (simp add: rev_nth)
    have at: "?t ! (length proto + 1 + length name + 1 + i) = port ! i" "?t ! ?n = CHR '':''" for i
      by (simp_all add: nth_append)
    have len: "length ?t = ?n + 1 + length port" by simp
    then show "?n = rev [0..<length ?t] ! length port" by (subst idx) simp_all
    then show "?t ! (rev [0..<length ?t] ! length port) = CHR '':''" using at(2) by simp
    fix j assume j: "j < length port"
    have "rev [0..<length ?t] ! j = length proto + 1 + length name + 1 + (length port - Suc j)"
      unfolding len by (subst idx) (use j in simp_all)
    then have "?t ! (rev [0..<length ?t] ! j) = port ! (length port - Suc j)" using at(1) by simp
    moreover have "port ! (length port - Suc j) \<in> set port" using j by simp
    ultimately show "?t ! (rev [0..<length ?t] ! j) \<noteq> CHR '':''" using assms(2) by metis
  qed simp
  moreover have "seg (Suc (length proto)) (?n - length proto - 1) ?t = name" by (simp add: seg_def)
  ultimately show ?thesis by (simp add: token_hostname_def)
qed

lemma connect_refused:
  assumes "token_hostname tok = Some b" and "b \<le> mb_node_name s"
  shows "connect_to M tok s = Inr ((), s)"
  using assms by (simp add: connect_to_def monad_simps)



end
