(* ===== verification/Mpi_Backend.thy ===== *)
theory Mpi_Backend
  imports Mtcl_Backend
begin

text \<open>
  The base class of the backends (\<open>server/src/backend.cpp\<close>), the backend without peers
  (\<open>none_backend.cpp\<close>) and the backend over MPI (\<open>mpi_backend.cpp\<close>, \<open>remote/backend/mpi.hpp\<close>).

  The MPI library is a parameter: the record \<open>mpi\<close> has the calls the source makes, on a world
  \<open>'w\<close>. Two maps of the source, from names to ranks and back, are maps here; \<open>operator[]\<close> on an
  absent key inserts rank 0 or the empty name.

  The lemmas show that a file is cut into chunks and put together again, and what becomes of
  the buffer of a request and of the name of a node.
\<close>

section \<open>Names\<close>

text \<open>\<open>Backend::Backend\<close>: the host name as far as it fits into the given length.\<close>

definition Backend_node_name :: "nat \<Rightarrow> string \<Rightarrow> string" where
  "Backend_node_name node_name_max_length hostname = c_str (take node_name_max_length hostname)"

text \<open>\<open>Backend::get_nodes\<close> and \<open>NoneBackend\<close>, which does nothing.\<close>

definition Backend_get_nodes :: "string \<Rightarrow> string set" where
  "Backend_get_nodes node_name = {node_name}"

definition NoneBackend_read_next_request :: remote_message where
  "NoneBackend_read_next_request = RemoteRequest_new [] []"

section \<open>State\<close>

definition MPI_MAX_ELEM_COUNT :: int where
  "MPI_MAX_ELEM_COUNT = 1024 * 1024 * 1024"

record 'w mpi =
  P_max_processor_name :: nat
  P_thread_multiple :: bool
  P_comm_size :: nat
  P_comm_rank :: int
  P_processor_name :: string
  P_allgather :: "string \<Rightarrow> 'w \<Rightarrow> string \<times> 'w"
  P_send :: "int \<Rightarrow> byte list \<Rightarrow> 'w \<Rightarrow> 'w"
  P_isend :: "int \<Rightarrow> byte list \<Rightarrow> 'w \<Rightarrow> 'w"
  P_recv_any :: "nat \<Rightarrow> 'w \<Rightarrow> (byte list \<times> int) option \<times> 'w"
  P_recv :: "int \<Rightarrow> nat \<Rightarrow> 'w \<Rightarrow> byte list \<times> 'w"
  P_finalize :: "'w \<Rightarrow> 'w"

record 'w mpi_backend =
  pb_n_servers :: nat
  pb_node_name :: string
  pb_rank :: int
  pb_nodes :: "string set"
  pb_hostname_to_rank :: "string \<rightharpoonup> int"
  pb_rank_to_hostname :: "int \<rightharpoonup> string"
  pb_world :: 'w

text \<open>
  \<open>MPI_Get_processor_name(node_name.data(), ...)\<close> stores the name and a zero into the characters
  of \<open>node_name\<close>, whose size stays that of the host name.
\<close>

definition store_processor_name :: "string \<Rightarrow> string \<Rightarrow> fault + string" where
  "store_processor_name node_name name =
     (if length node_name < length name then Inl OutOfBounds
      else if length name = length node_name then Inr name
      else Inr (blit 0 (name @ [CHR 0x00]) node_name))"

definition MPIBackend_new :: "'w mpi \<Rightarrow> string \<Rightarrow> 'w \<Rightarrow> fault + 'w mpi_backend" where
  "MPIBackend_new P hostname w =
     (if \<not> P_thread_multiple P then Inl ErrExit
      else case store_processor_name (Backend_node_name (P_max_processor_name P) hostname) (P_processor_name P) of
        Inl e \<Rightarrow> Inl e
      | Inr node_name \<Rightarrow>
          Inr \<lparr>pb_n_servers = P_comm_size P, pb_node_name = node_name, pb_rank = P_comm_rank P, pb_nodes = {node_name},
               pb_hostname_to_rank = [node_name \<mapsto> P_comm_rank P], pb_rank_to_hostname = [P_comm_rank P \<mapsto> node_name],
               pb_world = w\<rparr>)"

definition MPIBackend_destroy :: "'w mpi \<Rightarrow> (unit, 'w mpi_backend) comp" where
  "MPIBackend_destroy P = modifyM (\<lambda>s. s\<lparr>pb_world := P_finalize P (pb_world s)\<rparr>)"

text \<open>The destructor of \<open>MPISYNCBackend\<close> runs before that of its base class.\<close>

definition MPISYNCBackend_destroy :: "'w mpi \<Rightarrow> (unit, 'w mpi_backend) comp" where
  "MPISYNCBackend_destroy P = thenM (modifyM (\<lambda>s. s\<lparr>pb_world := P_finalize P (pb_world s)\<rparr>)) (MPIBackend_destroy P)"

section \<open>Ranks and names\<close>

definition mpi_add_server :: "'w mpi \<Rightarrow> string \<Rightarrow> nat \<Rightarrow> 'w mpi_backend \<Rightarrow> 'w mpi_backend" where
  "mpi_add_server P names i s =
     (let hostname = c_str (seg (i * P_max_processor_name P) (P_max_processor_name P) names)
      in s\<lparr>pb_nodes := insert hostname (pb_nodes s),
           pb_hostname_to_rank := (pb_hostname_to_rank s)(hostname \<mapsto> int i),
           pb_rank_to_hostname := (pb_rank_to_hostname s)(int i \<mapsto> hostname)\<rparr>)"

definition mpi_local_name :: "'w mpi \<Rightarrow> string \<Rightarrow> string" where
  "mpi_local_name P node_name = blit 0 node_name (replicate (P_max_processor_name P) (CHR 0x00))"

definition mpi_handshake_servers :: "'w mpi \<Rightarrow> (unit, 'w mpi_backend) comp" where
  "mpi_handshake_servers P s =
     (case P_allgather P (mpi_local_name P (pb_node_name s)) (pb_world s) of (names, w) \<Rightarrow>
        Inr ((), fold (mpi_add_server P names) [0..<pb_n_servers s] (s\<lparr>pb_world := w\<rparr>)))"

text \<open>\<open>hostname_to_rank[target]\<close>.\<close>

definition mpi_rank_of :: "string \<Rightarrow> (int, 'w mpi_backend) comp" where
  "mpi_rank_of target =
     bindM (getsM pb_hostname_to_rank) (\<lambda>m.
       case m target of
         Some r \<Rightarrow> returnM r
       | None \<Rightarrow> thenM (modifyM (\<lambda>s. s\<lparr>pb_hostname_to_rank := m(target \<mapsto> 0)\<rparr>)) (returnM 0))"

definition mpi_hostname_of :: "int \<Rightarrow> (string, 'w mpi_backend) comp" where
  "mpi_hostname_of r =
     bindM (getsM pb_rank_to_hostname) (\<lambda>m.
       case m r of
         Some h \<Rightarrow> returnM h
       | None \<Rightarrow> thenM (modifyM (\<lambda>s. s\<lparr>pb_rank_to_hostname := m(r \<mapsto> [])\<rparr>)) (returnM []))"

section \<open>Requests\<close>

definition onMpi :: "('w \<Rightarrow> 'a \<times> 'w) \<Rightarrow> ('a, 'w mpi_backend) comp" where
  "onMpi g s = (case g (pb_world s) of (x, w) \<Rightarrow> Inr (x, s\<lparr>pb_world := w\<rparr>))"

definition doMpi :: "('w \<Rightarrow> 'w) \<Rightarrow> (unit, 'w mpi_backend) comp" where
  "doMpi g = modifyM (\<lambda>s. s\<lparr>pb_world := g (pb_world s)\<rparr>)"

text \<open>
  \<open>read_next_request\<close>; the two classes differ in how they wait. The bytes received end at the
  first zero; without one, the text goes on into bytes that were never stored.
\<close>

definition mpi_read_next_request :: "'w mpi \<Rightarrow> (remote_message, 'w mpi_backend) comp" where
  "mpi_read_next_request P =
     bindM (onMpi (P_recv_any P CAPIO_SERVER_REQUEST_MAX_SIZE)) (\<lambda>r.
       case r of
         None \<Rightarrow> failM Blocked
       | Some (bytes, source) \<Rightarrow>
           bindM (mpi_hostname_of source) (\<lambda>hostname.
             if 0 \<notin> set bytes then failM Uninitialised
             else returnM (RemoteRequest_new (c_str (map byte_char bytes)) hostname)))"

text \<open>\<open>MPI_Send(message, message_len + 1, ...)\<close> on a buffer with the given bytes.\<close>

definition mpi_send_message :: "'w mpi \<Rightarrow> byte list \<Rightarrow> int \<Rightarrow> int \<Rightarrow> (unit, 'w mpi_backend) comp" where
  "mpi_send_message P message message_len dest =
     bindM (bytes_at (Some message) (message_len + 1)) (\<lambda>m. doMpi (P_send P dest m))"

definition mpi_send_request :: "'w mpi \<Rightarrow> byte list \<Rightarrow> int \<Rightarrow> string \<Rightarrow> (unit, 'w mpi_backend) comp" where
  "mpi_send_request P message message_len target =
     bindM (mpi_rank_of target) (\<lambda>mpi_target. mpi_send_message P message message_len mpi_target)"

section \<open>Files\<close>

text \<open>The loops of \<open>send_file\<close> and \<open>recv_file\<close> from position \<open>k\<close>.\<close>

function mpi_send_chunks :: "'w mpi \<Rightarrow> byte list \<Rightarrow> int \<Rightarrow> int \<Rightarrow> int \<Rightarrow> (unit, 'w mpi_backend) comp" where
  "mpi_send_chunks P shm nbytes dest k =
     (if k < nbytes then
        let elem_to_snd = min (nbytes - k) MPI_MAX_ELEM_COUNT
        in thenM (doMpi (P_isend P dest (seg (nat k) (nat elem_to_snd) shm)))
                 (mpi_send_chunks P shm nbytes dest (k + elem_to_snd))
      else returnM ())"
  by pat_completeness auto

termination
  by (relation "measure (\<lambda>(P, shm, nbytes, dest, k). nat (nbytes - k))") (auto simp: MPI_MAX_ELEM_COUNT_def)

declare mpi_send_chunks.simps [simp del]

definition mpi_send_file :: "'w mpi \<Rightarrow> byte list \<Rightarrow> int \<Rightarrow> byte list \<Rightarrow> int \<Rightarrow> string \<Rightarrow> (unit, 'w mpi_backend) comp" where
  "mpi_send_file P message message_len shm nbytes target =
     bindM (mpi_rank_of target) (\<lambda>dest.
       thenM (mpi_send_message P message message_len dest)
         (if int (length shm) < nbytes then failM OutOfBounds else mpi_send_chunks P shm nbytes dest 0))"

text \<open>\<open>fuel\<close> bounds the number of messages; a message of no bytes does not advance the loop.\<close>

fun mpi_recv_chunks :: "'w mpi \<Rightarrow> nat \<Rightarrow> int \<Rightarrow> int \<Rightarrow> int \<Rightarrow> byte list \<Rightarrow> (byte list option, 'w mpi_backend) comp" where
  "mpi_recv_chunks P 0 bytes_expected source k shm = (if k < bytes_expected then returnM None else returnM (Some shm))"
| "mpi_recv_chunks P (Suc fuel) bytes_expected source k shm =
     (if k < bytes_expected then
        let count = min (bytes_expected - k) MPI_MAX_ELEM_COUNT
        in bindM (onMpi (P_recv P source (nat count))) (\<lambda>bytes.
             if nat count < length bytes then failM ErrExit
             else mpi_recv_chunks P fuel bytes_expected source (k + int (length bytes)) (blit (nat k) bytes shm))
      else returnM (Some shm))"

definition mpi_recv_file :: "'w mpi \<Rightarrow> nat \<Rightarrow> byte list \<Rightarrow> int \<Rightarrow> string \<Rightarrow> (byte list option, 'w mpi_backend) comp" where
  "mpi_recv_file P fuel shm bytes_expected source =
     bindM (mpi_rank_of source) (\<lambda>source_rank. mpi_recv_chunks P fuel bytes_expected source_rank 0 shm)"

section \<open>Files in chunks\<close>

function mpi_chunks :: "byte list \<Rightarrow> byte list list" where
  "mpi_chunks xs = (if xs = [] then [] else take (nat MPI_MAX_ELEM_COUNT) xs # mpi_chunks (drop (nat MPI_MAX_ELEM_COUNT) xs))"
  by pat_completeness auto

termination
  by (relation "measure length") (auto simp: MPI_MAX_ELEM_COUNT_def)

declare mpi_chunks.simps [simp del]

lemma mpi_chunks_Nil [simp]: "mpi_chunks [] = []"
  by (simp add: mpi_chunks.simps)

lemma concat_mpi_chunks: "concat (mpi_chunks xs) = xs"
  by (induction xs rule: mpi_chunks.induct) (subst mpi_chunks.simps, simp)

lemma mpi_send_chunks_from:
  assumes "0 \<le> k" and "nbytes = int (length shm)"
  shows "mpi_send_chunks P shm nbytes dest k s =
    Inr ((), s\<lparr>pb_world := fold (P_isend P dest) (mpi_chunks (drop (nat k) shm)) (pb_world s)\<rparr>)"
  using assms
proof (induction P shm nbytes dest k arbitrary: s rule: mpi_send_chunks.induct)
  case (1 P shm nbytes dest k)
  show ?case
  proof (cases "k < nbytes")
    case True
    define e where "e = min (nbytes - k) MPI_MAX_ELEM_COUNT"
    have e: "0 < e" using True by (simp add: e_def MPI_MAX_ELEM_COUNT_def)
    have "take (nat MPI_MAX_ELEM_COUNT) (drop (nat k) shm) = seg (nat k) (nat e) shm"
      using 1(2,3) True by (auto simp: e_def seg_def min_def)
    moreover have "drop (nat MPI_MAX_ELEM_COUNT) (drop (nat k) shm) = drop (nat (k + e)) shm"
      using 1(2,3) True by (auto simp: e_def min_def nat_add_distrib MPI_MAX_ELEM_COUNT_def ac_simps)
    moreover have "drop (nat k) shm \<noteq> []" using 1(2,3) True by simp
    ultimately have c: "mpi_chunks (drop (nat k) shm) = seg (nat k) (nat e) shm # mpi_chunks (drop (nat (k + e)) shm)"
      by (subst mpi_chunks.simps) simp
    let ?t = "s\<lparr>pb_world := P_isend P dest (seg (nat k) (nat e) shm) (pb_world s)\<rparr>"
    have "mpi_send_chunks P shm nbytes dest k s = mpi_send_chunks P shm nbytes dest (k + e) ?t"
      using True by (subst mpi_send_chunks.simps) (simp add: e_def Let_def monad_simps doMpi_def)
    also have "\<dots> = Inr ((), ?t\<lparr>pb_world := fold (P_isend P dest) (mpi_chunks (drop (nat (k + e)) shm)) (pb_world ?t)\<rparr>)"
      unfolding e_def by (rule 1(1) [OF True refl]) (use 1(2,3) True in \<open>simp_all add: MPI_MAX_ELEM_COUNT_def\<close>)
    finally show ?thesis by (simp add: c)
  next
    case False
    then show ?thesis using 1(2,3) by (subst mpi_send_chunks.simps) (simp add: monad_simps)
  qed
qed

text \<open>The messages that the next receives from a source take, in the order they were sent.\<close>

fun delivers :: "'w mpi \<Rightarrow> int \<Rightarrow> byte list list \<Rightarrow> 'w \<Rightarrow> bool" where
  "delivers P src [] w \<longleftrightarrow> True"
| "delivers P src (m # ms) w \<longleftrightarrow>
     fst (P_recv P src (length m) w) = m \<and> delivers P src ms (snd (P_recv P src (length m) w))"

lemma mpi_recv_chunks_from:
  assumes "delivers P src (mpi_chunks f) (pb_world r)" and "length (mpi_chunks f) \<le> fuel" and "k + length f \<le> length shm"
    and "n = int (k + length f)"
  shows "\<exists>t. mpi_recv_chunks P fuel n src (int k) shm r = Inr (Some (blit k f shm), t)"
  using assms
proof (induction f arbitrary: k shm r fuel rule: mpi_chunks.induct)
  case (1 f)
  show ?case
  proof (cases "f = []")
    case True
    then show ?thesis using 1(5) by (cases fuel) (simp_all add: monad_simps)
  next
    case False
    let ?N = "nat MPI_MAX_ELEM_COUNT"
    let ?m = "take ?N f" and ?f = "drop ?N f"
    have c: "mpi_chunks f = ?m # mpi_chunks ?f" using False by (subst mpi_chunks.simps) simp
    obtain fu where fu: "fuel = Suc fu" using 1(3) c by (cases fuel) simp_all
    obtain w where w: "P_recv P src (length ?m) (pb_world r) = (?m, w)" using 1(2) unfolding c by (metis delivers.simps(2) prod.collapse)
    have cnt: "nat (min (n - int k) MPI_MAX_ELEM_COUNT) = length ?m" using 1(5) by (auto simp: min_def MPI_MAX_ELEM_COUNT_def)
    have "k + length f \<le> length shm" by (rule 1(4))
    then have len: "length (blit k ?m shm) = length shm" by (intro length_blit) simp
    have "blit (k + length ?m) ?f (blit k ?m shm) = blit k f shm"
    proof -
      have "take k shm @ ?m @ ?f @ drop (k + length f) shm = blit k f shm"
        by (simp add: blit_def flip: append_assoc)
      moreover have "blit (k + length ?m) ?f (blit k ?m shm) = take k shm @ ?m @ ?f @ drop (k + length f) shm"
        using 1(4) False by (cases f) (auto simp: blit_def min_def ac_simps)
      ultimately show ?thesis by simp
    qed
    moreover have "\<exists>t. mpi_recv_chunks P fu n src (int (k + length ?m)) (blit k ?m shm) (r\<lparr>pb_world := w\<rparr>) =
        Inr (Some (blit (k + length ?m) ?f (blit k ?m shm)), t)"
    proof (rule 1(1) [OF False])
      show "delivers P src (mpi_chunks ?f) (pb_world (r\<lparr>pb_world := w\<rparr>))" using 1(2) w unfolding c by simp
      show "length (mpi_chunks ?f) \<le> fu" using 1(3) fu unfolding c by simp
      show "k + length ?m + length ?f \<le> length (blit k ?m shm)" unfolding len using 1(4) by simp
      show "n = int (k + length ?m + length ?f)" using 1(5) by simp
    qed
    moreover have "int k < n" using 1(5) False by simp
    ultimately show ?thesis
      unfolding fu by (simp add: Let_def cnt w onMpi_def monad_simps del: length_take)
  qed
qed


text \<open>A library with one queue of messages.\<close>

definition queue_mpi :: "byte list list mpi" where
  "queue_mpi =
     \<lparr>P_max_processor_name = 256, P_thread_multiple = True, P_comm_size = 1, P_comm_rank = 0, P_processor_name = ''n'', P_allgather = Pair,
      P_send = (\<lambda>_ m w. w @ [m]), P_isend = (\<lambda>_ m w. w @ [m]),
      P_recv_any = (\<lambda>_ w. (case w of [] \<Rightarrow> (None, []) | m # ms \<Rightarrow> (Some (m, 0), ms))),
      P_recv = (\<lambda>_ _ w. (hd w, tl w)), P_finalize = (\<lambda>w. w)\<rparr>"

definition queue_backend :: "byte list list \<Rightarrow> byte list list mpi_backend" where
  "queue_backend w =
     \<lparr>pb_n_servers = 1, pb_node_name = ''n'', pb_rank = 0, pb_nodes = {''n''}, pb_hostname_to_rank = [''n'' \<mapsto> 0],
      pb_rank_to_hostname = [0 \<mapsto> ''n''], pb_world = w\<rparr>"


section \<open>Messages and names that do not fit\<close>

text \<open>
  The functions of \<open>remote/requests.hpp\<close> print a text into a buffer of exactly its length and a
  zero, and pass that length.
\<close>

definition printed :: "string \<Rightarrow> byte list" where
  "printed msg = map char_byte msg @ [0]"

text \<open>
  C37: Over MPI every request of the server is read past the end of its buffer. The length the callers
  pass includes the zero, and \<open>send_request\<close> and \<open>send_file\<close> send one byte more. Over MTCL the
  same call sends the text with its zero.
\<close>

theorem mpi_request_read_past_end:
  assumes "length msg < CAPIO_SERVER_REQUEST_MAX_SIZE"
  shows "mpi_send_request P (printed msg) (int (length msg) + 1) target s = Inl OutOfBounds \<and>
    mpi_send_file P (printed msg) (int (length msg) + 1) shm nbytes target s = Inl OutOfBounds \<and>
    send_request M (Some (printed msg)) (int (length msg) + 1) target u = send_frame M (printed msg) None target u"
  using assms
  by (auto simp: mpi_send_request_def mpi_send_file_def mpi_send_message_def bytes_at_def printed_def mpi_rank_of_def monad_simps
      send_request_def split: option.splits)

theorem mpi_request_read_past_end_witness:
  "mpi_send_request queue_mpi (printed ''0001 7'') 7 ''n'' (queue_backend []) = Inl OutOfBounds"
  using mpi_request_read_past_end [of "''0001 7''" queue_mpi "''n''" "queue_backend []" "[]" 0 loop_mtcl "loop_backend [] []"]
  by (simp add: CAPIO_SERVER_REQUEST_MAX_SIZE_def)

text \<open>A node whose MPI name is shorter than its host name knows itself under a name that no other node uses.\<close>

lemma mpi_name_keeps_rest:
  assumes "length name < length hostname" and "length hostname \<le> P_max_processor_name P" and "CHR 0x00 \<notin> set hostname"
    and "CHR 0x00 \<notin> set name" and "P_thread_multiple P" and "P_processor_name P = name"
  shows "\<exists>s. MPIBackend_new P hostname w = Inr s \<and> pb_node_name s \<noteq> name \<and> c_str (pb_node_name s) = name"
proof -
  have h: "Backend_node_name (P_max_processor_name P) hostname = hostname"
    using assms(2,3) by (auto simp: Backend_node_name_def c_str_def takeWhile_eq_all_conv)
  have "length (blit 0 (name @ [CHR 0x00]) hostname) = length hostname" using assms(1) by (intro length_blit) simp
  then have "blit 0 (name @ [CHR 0x00]) hostname \<noteq> name" using assms(1) by auto
  moreover have "c_str (blit 0 (name @ [CHR 0x00]) hostname) = name"
    using assms(4) by (auto simp: c_str_def blit_def takeWhile_append)
  ultimately show ?thesis using assms(1,5,6) by (simp add: MPIBackend_new_def h store_processor_name_def)
qed

end
