(* ===== verification/Runtime_Config.thy ===== *)
theory Runtime_Config
  imports Paths Server_State
begin

text \<open>
  The configuration of the server (\<open>server/src/runtime_configuration.cpp\<close>), the choice of backend
  and discovery that it makes (\<open>remote/listener.hpp\<close>, \<open>remote/discovery.hpp\<close>), and the settings
  that the library reads from the environment itself (\<open>common/env.hpp\<close>).

  The parser of the command line is a library: what it finds is the argument \<open>cli\<close>. The
  environment is a function from names to values, and \<open>canonical\<close> is the function of the file
  system. \<open>exit\<close> is \<open>ErrExit\<close>.

  The lemmas show which options of the MTCL backend are accepted and how they are read, and when
  the server and the library agree about the size of a cache line.
\<close>

section \<open>Constants\<close>

definition CAPIO_MCAST_ADV_DEFAULT_ADDR :: string where
  "CAPIO_MCAST_ADV_DEFAULT_ADDR = ''224.0.0.2''"

definition CAPIO_MCAST_ADV_DEFAULT_PORT :: nat where
  "CAPIO_MCAST_ADV_DEFAULT_PORT = 22334"

definition CAPIO_MTCL_DEFAULT_PROTOCOL :: string where
  "CAPIO_MTCL_DEFAULT_PROTOCOL = ''TCP''"

definition CAPIO_MTCL_DEFAULT_PORT :: int where
  "CAPIO_MTCL_DEFAULT_PORT = 7600"

definition CAPIO_MTCL_DEFAULT_POLL_INTERVAL :: int where
  "CAPIO_MTCL_DEFAULT_POLL_INTERVAL = 1000000"

definition CAPIO_MCAST_PROTO_FLAG :: string where
  "CAPIO_MCAST_PROTO_FLAG = ''mcast''"

definition CAPIO_FS_PROTO_FLAG :: string where
  "CAPIO_FS_PROTO_FLAG = ''fs''"

definition CAPIO_FS_DEFAULT_TOKEN_DIRECTORY :: string where
  "CAPIO_FS_DEFAULT_TOKEN_DIRECTORY = ''.capio_tokens/''"

definition CAPIO_DEFAULT_WORKFLOW_NAME :: string where
  "CAPIO_DEFAULT_WORKFLOW_NAME = ''CAPIO''"

definition CAPIO_CACHE_LINES_DEFAULT :: int where
  "CAPIO_CACHE_LINES_DEFAULT = 10"

definition CAPIO_CACHE_LINE_SIZE_DEFAULT :: int where
  "CAPIO_CACHE_LINE_SIZE_DEFAULT = 256 * 1024"

section \<open>Numbers of the standard library\<close>

text \<open>\<open>strtol\<close> and \<open>strtoll\<close> in base 10, on 64 bits: 0 without digits, and the nearest bound beyond the range.\<close>

definition strtoll :: "string \<Rightarrow> int" where
  "strtoll s =
     (case next_int s of
        None \<Rightarrow> 0
      | Some (i, _) \<Rightarrow> if i < - (2 ^ 63) then - (2 ^ 63) else if 2 ^ 63 - 1 < i then 2 ^ 63 - 1 else i)"

text \<open>\<open>std::stoi\<close>: the number and the count of characters read.\<close>

definition stoi :: "string \<Rightarrow> fault + (int \<times> nat)" where
  "stoi s =
     (case next_int s of
        None \<Rightarrow> Inl (Throws ''std::invalid_argument'')
      | Some (i, rest) \<Rightarrow> if in_range 32 i then Inr (i, length s - length rest) else Inl (Throws ''std::out_of_range''))"

section \<open>The configuration\<close>

record cli =
  a_resolve_prefix :: "string option"
  a_config :: "string option"
  a_no_config :: bool
  a_backend :: "string option"
  a_discovery :: "string option"
  a_mcast_addr :: "string option"
  a_mcast_port :: "nat option"
  a_token_directory :: "string option"
  a_backend_options :: "string option"
  a_continue_on_error :: bool
  a_mem_only :: bool

datatype cli_result = Parsed cli | Help_requested | Usage_error

record runtime_configuration =
  rt_capio_dir :: path
  rt_continue_on_error :: bool
  rt_cache_lines :: int
  rt_cache_line_size :: int
  rt_file_initial_size :: int
  rt_prefetch_data_size :: int
  rt_discovery_type :: string
  rt_mcast_address :: string
  rt_mcast_port :: nat
  rt_token_directory :: string
  rt_backend_name :: string
  rt_mtcl_protocol :: string
  rt_mtcl_port :: int
  rt_mtcl_poll_interval :: int
  rt_capio_cl_config_path :: string
  rt_capio_cl_resolve_path :: string
  rt_capio_cl_dynamic_config :: bool
  rt_store_all_in_memory :: bool

abbreviation runtime_error :: fault where
  "runtime_error \<equiv> Throws ''std::runtime_error''"

definition env_number :: "(string \<Rightarrow> string option) \<Rightarrow> string \<Rightarrow> int \<Rightarrow> int" where
  "env_number env name default_value = (case env name of None \<Rightarrow> default_value | Some v \<Rightarrow> strtoll v)"

definition resolve_capio_dir :: "(string \<Rightarrow> string option) \<Rightarrow> (path \<Rightarrow> path option) \<Rightarrow> fault + path" where
  "resolve_capio_dir env canonical =
     (case env ''CAPIO_DIR'' of
        None \<Rightarrow> Inl runtime_error
      | Some v \<Rightarrow>
          (case canonical v of
             None \<Rightarrow> Inl runtime_error
           | Some capio_dir \<Rightarrow>
               if list_ex (\<lambda>forbidden_path. prefix forbidden_path capio_dir) CAPIO_DIR_FORBIDDEN_PATHS
               then Inl runtime_error else Inr capio_dir))"

text \<open>The options of the MTCL backend: protocol, port and interval.\<close>

definition parse_mtcl_options :: "string \<Rightarrow> fault + (string \<times> int \<times> int)" where
  "parse_mtcl_options opts =
     (case find_char opts (CHR '':'') 0 of
        None \<Rightarrow> Inl runtime_error
      | Some colon \<Rightarrow>
          (case find_char opts (CHR ''@'') (Suc colon) of
             None \<Rightarrow> Inl runtime_error
           | Some at \<Rightarrow>
               if colon = 0 \<or> at = Suc colon \<or> Suc at = length opts \<or> find_char opts (CHR '':'') (Suc colon) \<noteq> None \<or>
                  find_char opts (CHR ''@'') (Suc at) \<noteq> None
               then Inl runtime_error
               else (case stoi (seg (Suc colon) (at - colon - 1) opts) of
                       Inl _ \<Rightarrow> Inl runtime_error
                     | Inr (mtcl_port, parsed) \<Rightarrow>
                         if parsed \<noteq> at - colon - 1 \<or> mtcl_port \<le> 0 \<or> 65535 < mtcl_port then Inl runtime_error
                         else (case stoi (drop (Suc at) opts) of
                                 Inl _ \<Rightarrow> Inl runtime_error
                               | Inr (mtcl_poll_interval, parsed2) \<Rightarrow>
                                   if parsed2 \<noteq> length opts - at - 1 \<or> mtcl_poll_interval \<le> 0 then Inl runtime_error
                                   else Inr (take colon opts, mtcl_port, mtcl_poll_interval)))))"

definition or_default :: "'a option \<Rightarrow> 'a \<Rightarrow> 'a" where
  "or_default x d = (case x of None \<Rightarrow> d | Some v \<Rightarrow> v)"

definition RuntimeConfiguration_new ::
    "cli_result \<Rightarrow> (string \<Rightarrow> string option) \<Rightarrow> (path \<Rightarrow> path option) \<Rightarrow> fault + runtime_configuration" where
  "RuntimeConfiguration_new parsed env canonical =
     (case parsed of
        Help_requested \<Rightarrow> Inl ErrExit
      | Usage_error \<Rightarrow> Inl runtime_error
      | Parsed a \<Rightarrow>
          let discovery_type = or_default (a_discovery a) CAPIO_MCAST_PROTO_FLAG
          in if discovery_type \<noteq> CAPIO_MCAST_PROTO_FLAG \<and> discovery_type \<noteq> CAPIO_FS_PROTO_FLAG then Inl runtime_error
             else if a_config a = None \<and> \<not> a_no_config a then Inl runtime_error
             else
               let config_path = or_default (a_config a) [];
                   dynamic = (a_config a = Some ''dynamic'');
                   resolve_path = (if a_config a \<noteq> None \<and> \<not> dynamic then or_default (a_resolve_prefix a) [] else []);
                   backend_name = or_default (a_backend a) [];
                   opts = or_default (a_backend_options a) []
               in case (if backend_name = ''mtcl'' \<and> opts \<noteq> [] then parse_mtcl_options opts
                        else Inr (CAPIO_MTCL_DEFAULT_PROTOCOL, CAPIO_MTCL_DEFAULT_PORT, CAPIO_MTCL_DEFAULT_POLL_INTERVAL)) of
                    Inl e \<Rightarrow> Inl e
                  | Inr (mtcl_protocol, mtcl_port, mtcl_poll_interval) \<Rightarrow>
                      (case resolve_capio_dir env canonical of
                         Inl e \<Rightarrow> Inl e
                       | Inr capio_dir \<Rightarrow>
                           Inr \<lparr>rt_capio_dir = capio_dir, rt_continue_on_error = a_continue_on_error a,
                                rt_cache_lines = env_number env ''CAPIO_CACHE_LINES'' CAPIO_CACHE_LINES_DEFAULT,
                                rt_cache_line_size = env_number env ''CAPIO_CACHE_LINE_SIZE'' CAPIO_CACHE_LINE_SIZE_DEFAULT,
                                rt_file_initial_size = env_number env ''CAPIO_FILE_INIT_SIZE'' CAPIO_DEFAULT_FILE_INITIAL_SIZE,
                                rt_prefetch_data_size = env_number env ''CAPIO_PREFETCH_DATA_SIZE'' 0,
                                rt_discovery_type = discovery_type,
                                rt_mcast_address = or_default (a_mcast_addr a) CAPIO_MCAST_ADV_DEFAULT_ADDR,
                                rt_mcast_port = or_default (a_mcast_port a) CAPIO_MCAST_ADV_DEFAULT_PORT,
                                rt_token_directory = or_default (a_token_directory a) CAPIO_FS_DEFAULT_TOKEN_DIRECTORY,
                                rt_backend_name = backend_name, rt_mtcl_protocol = mtcl_protocol, rt_mtcl_port = mtcl_port,
                                rt_mtcl_poll_interval = mtcl_poll_interval, rt_capio_cl_config_path = config_path,
                                rt_capio_cl_resolve_path = resolve_path, rt_capio_cl_dynamic_config = dynamic,
                                rt_store_all_in_memory = a_mem_only a\<rparr>))"

text \<open>\<open>initialize\<close>: an exception ends the process.\<close>

definition RuntimeConfiguration_initialize ::
    "cli_result \<Rightarrow> (string \<Rightarrow> string option) \<Rightarrow> (path \<Rightarrow> path option) \<Rightarrow> fault + runtime_configuration" where
  "RuntimeConfiguration_initialize parsed env canonical =
     (case RuntimeConfiguration_new parsed env canonical of Inl _ \<Rightarrow> Inl ErrExit | Inr c \<Rightarrow> Inr c)"

text \<open>\<open>RuntimeConfiguration::get\<close> on the global value.\<close>

definition RuntimeConfiguration_get :: "runtime_configuration option \<Rightarrow> fault + runtime_configuration" where
  "RuntimeConfiguration_get configuration =
     (case configuration of None \<Rightarrow> Inl (Throws ''std::logic_error'') | Some c \<Rightarrow> Inr c)"

text \<open>How \<open>createCapioClEngine\<close> makes the engine, and whether all files are stored in memory.\<close>

datatype engine =
    Engine_dynamic
  | Engine_parsed path path bool
  | Engine_default string

definition createCapioClEngine :: "(string \<Rightarrow> string option) \<Rightarrow> runtime_configuration \<Rightarrow> engine \<times> bool" where
  "createCapioClEngine env c =
     (if rt_capio_cl_dynamic_config c then Engine_dynamic
      else if rt_capio_cl_config_path c \<noteq> [] then
        Engine_parsed (rt_capio_cl_config_path c) (rt_capio_cl_resolve_path c) (rt_store_all_in_memory c)
      else Engine_default (or_default (env ''CAPIO_WORKFLOW_NAME'') CAPIO_DEFAULT_WORKFLOW_NAME),
      rt_store_all_in_memory c)"

section \<open>Backend and discovery\<close>

datatype backend_kind =
    Backend_none
  | Backend_mpi
  | Backend_mpisync
  | Backend_mtcl string string int

definition select_backend :: "bool \<Rightarrow> runtime_configuration \<Rightarrow> fault + backend_kind" where
  "select_backend has_mpi c =
     (let backend_name = rt_backend_name c
      in if backend_name = [] \<or> backend_name = ''none'' then Inr Backend_none
         else if backend_name = ''mpi'' then (if has_mpi then Inr Backend_mpi else Inl ErrExit)
         else if backend_name = ''mtcl'' then
           Inr (Backend_mtcl (rt_mtcl_protocol c) (show_int (rt_mtcl_port c)) (rt_mtcl_poll_interval c))
         else if backend_name = ''mpisync'' then (if has_mpi then Inr Backend_mpisync else Inl ErrExit)
         else Inr Backend_none)"

datatype discovery_kind = Discovery_mcast string nat | Discovery_fs path

definition select_discovery_service :: "runtime_configuration \<Rightarrow> discovery_kind" where
  "select_discovery_service c =
     (if rt_discovery_type c = CAPIO_MCAST_PROTO_FLAG then Discovery_mcast (rt_mcast_address c) (rt_mcast_port c)
      else Discovery_fs (rt_token_directory c))"

section \<open>The environment of the library\<close>

text \<open>The values are computed once, at the first call.\<close>

definition get_cache_lines :: "(string \<Rightarrow> string option) \<Rightarrow> int" where
  "get_cache_lines env =
     (case env ''CAPIO_CACHE_LINES'' of Some v \<Rightarrow> strtoll v | None \<Rightarrow> CAPIO_CACHE_LINES_DEFAULT)"

definition get_cache_line_size :: "(string \<Rightarrow> string option) \<Rightarrow> int" where
  "get_cache_line_size env =
     (let data_bufs_count = (case env ''CAPIO_CACHE_LINE_SIZE'' of Some v \<Rightarrow> strtoll v | None \<Rightarrow> - 1)
      in if data_bufs_count \<le> 0 then CAPIO_CACHE_LINE_SIZE_DEFAULT else data_bufs_count)"

definition get_capio_workflow_name :: "(string \<Rightarrow> string option) \<Rightarrow> string" where
  "get_capio_workflow_name env = or_default (env ''CAPIO_WORKFLOW_NAME'') CAPIO_DEFAULT_WORKFLOW_NAME"

section \<open>Options\<close>

lemma find_char_None: "find_char s c pos = None \<longleftrightarrow> c \<notin> set (drop pos s)"
proof -
  have "set (drop pos s) = (\<lambda>i. s ! i) ` {pos..<length s}" 
  proof -
    have "drop pos s = map (\<lambda>i. s ! i) [pos..<length s]" by (rule nth_equalityI) auto
    then show ?thesis by simp
  qed
  then show ?thesis by (auto simp: find_char_def find_None_iff)
qed

lemma find_char_after:
  assumes "length p = pos" and "c \<notin> set a"
  shows "find_char (p @ a @ c # b) c pos = Some (pos + length a)"
  unfolding find_char_def find_Some_iff
  by (rule exI [of _ "length a"]) (use assms in \<open>auto simp: nth_append in_set_conv_nth\<close>)

lemma find_char_split:
  assumes "find_char s c (length p) = Some i" and "s = p @ r"
  obtains a b where "r = a @ c # b" and "c \<notin> set a" and "i = length p + length a"
proof -
  note f = find_char_SomeD [OF assms(1)]
  let ?k = "i - length p"
  have "r ! ?k = c" "?k < length r" using f assms(2) by (auto simp: nth_append)
  then have "r = take ?k r @ c # drop (Suc ?k) r" by (metis id_take_nth_drop)
  moreover have "c \<notin> set (take ?k r)"
  proof
    assume "c \<in> set (take ?k r)"
    then obtain j where "j < ?k" "r ! j = c" by (auto simp: in_set_conv_nth)
    moreover from this have "length p + j < i" by simp
    ultimately show False using find_char_first [OF assms(1), of "length p + j"] assms(2) by (simp add: nth_append)
  qed
  moreover have "i = length p + length (take ?k r)" using f assms(2) by simp
  ultimately show thesis by (rule that)
qed

text \<open>What the options of the backend look like.\<close>

definition mtcl_options :: "string \<Rightarrow> string \<Rightarrow> int \<Rightarrow> int \<Rightarrow> bool" where
  "mtcl_options opts proto port interval \<longleftrightarrow>
     (\<exists>ps vs. opts = proto @ '':'' @ ps @ ''@'' @ vs \<and> proto \<noteq> [] \<and> CHR '':'' \<notin> set (proto @ ps @ vs) \<and>
        CHR ''@'' \<notin> set (ps @ vs) \<and> stoi ps = Inr (port, length ps) \<and> stoi vs = Inr (interval, length vs) \<and>
        0 < port \<and> port \<le> 65535 \<and> 0 < interval)"

lemma stoi_Nil [simp]: "stoi [] = Inl (Throws ''std::invalid_argument'')"
  by (simp add: stoi_def next_int_def skip_space_def)

lemma parse_mtcl_options_complete:
  assumes "mtcl_options opts proto port interval"
  shows "parse_mtcl_options opts = Inr (proto, port, interval)"
proof -
  obtain ps vs where o: "opts = proto @ '':'' @ ps @ ''@'' @ vs" and p: "proto \<noteq> []" and c: "CHR '':'' \<notin> set (proto @ ps @ vs)"
    and a: "CHR ''@'' \<notin> set (ps @ vs)" and n: "stoi ps = Inr (port, length ps)" "stoi vs = Inr (interval, length vs)"
    and r: "0 < port" "port \<le> 65535" "0 < interval"
    using assms unfolding mtcl_options_def by blast
  have ne: "ps \<noteq> []" "vs \<noteq> []" using n by auto
  have "find_char opts (CHR '':'') 0 = Some (length proto)"
    using find_char_after [of "[]" 0 "CHR '':''" proto "ps @ ''@'' @ vs"] c by (simp add: o)
  moreover have "find_char opts (CHR ''@'') (Suc (length proto)) = Some (Suc (length proto) + length ps)"
    using find_char_after [of "proto @ '':''" "Suc (length proto)" "CHR ''@''" ps vs] a by (simp add: o)
  moreover have "find_char opts (CHR '':'') (Suc (length proto)) = None"
    "find_char opts (CHR ''@'') (Suc (Suc (length proto) + length ps)) = None"
    using c a by (simp_all add: o find_char_None)
  moreover have "seg (Suc (length proto)) (Suc (length proto) + length ps - length proto - 1) opts = ps"
    "drop (Suc (Suc (length proto) + length ps)) opts = vs" "take (length proto) opts = proto"
    by (simp_all add: o seg_def)
  ultimately show ?thesis using p ne n r by (simp add: parse_mtcl_options_def o del: add_Suc)
qed

lemma parse_mtcl_options_sound:
  assumes "parse_mtcl_options opts = Inr (proto, port, interval)"
  shows "mtcl_options opts proto port interval"
proof -
  obtain colon where colon: "find_char opts (CHR '':'') 0 = Some colon"
    using assms by (auto simp: parse_mtcl_options_def split: option.splits)
  obtain q r where q: "opts = q @ CHR '':'' # r" "CHR '':'' \<notin> set q" "colon = length q"
    using find_char_split [of opts "CHR '':''" "[]" colon opts] colon by auto
  have pre: "opts = (q @ '':'') @ r" "length (q @ '':'') = Suc colon" using q by simp_all
  obtain at where at: "find_char opts (CHR ''@'') (Suc colon) = Some at"
    using assms colon by (auto simp: parse_mtcl_options_def split: option.splits)
  obtain ps vs where ps: "r = ps @ CHR ''@'' # vs" "CHR ''@'' \<notin> set ps" "at = Suc colon + length ps"
    using find_char_split [of opts "CHR ''@''" "q @ '':''" at r] at pre by auto
  have o: "opts = q @ '':'' @ ps @ ''@'' @ vs" using q(1) ps(1) by simp
  have cut: "seg (Suc colon) (length ps) opts = ps" "drop (Suc at) opts = vs" "take colon opts = q" "at - colon - 1 = length ps"
    "length opts - at - 1 = length vs"
    using q(3) ps(3) by (simp_all add: o seg_def)
  note a = assms [unfolded parse_mtcl_options_def colon at option.case cut]
  have no: "find_char opts (CHR '':'') (Suc colon) = None" "find_char opts (CHR ''@'') (Suc at) = None" "colon \<noteq> 0"
    using a by (auto split: if_splits)
  obtain n1 k1 n2 k2 where n: "stoi ps = Inr (n1, k1)" "stoi vs = Inr (n2, k2)"
    using a by (cases "stoi ps"; cases "stoi vs") (auto split: if_splits)
  have "proto = q" "port = n1" "k1 = length ps" "interval = n2" "k2 = length vs" "0 < n1" "n1 \<le> 65535" "0 < n2"
    using a unfolding n by (auto split: if_splits)
  moreover have "CHR '':'' \<notin> set (ps @ vs)" "CHR ''@'' \<notin> set vs" using no q(3) ps(3) by (auto simp: find_char_None o)
  ultimately show ?thesis using o n q(2,3) ps(2) no(3) unfolding mtcl_options_def by auto
qed

lemma show_int_chars: "c \<in> set (show_int i) \<Longrightarrow> is_digit c \<or> c = CHR ''-''"
  using show_nat_digits by (auto simp: show_int_def split: if_splits)

lemma show_int_no_colon [simp]: "CHR '':'' \<notin> set (show_int i)" "CHR ''@'' \<notin> set (show_int i)"
  using show_int_chars [of "CHR '':''" i] show_int_chars [of "CHR ''@''" i] by (auto simp: is_digit_def)

lemma stoi_show_int: "in_range 32 i \<Longrightarrow> stoi (show_int i) = Inr (i, length (show_int i))"
  using next_int_show_int [of "[]" i] by (simp add: stoi_def ends_number_def)

text \<open>
  C29: The options of the MTCL backend are accepted exactly when they are a protocol, a colon, a port, an
  at sign and an interval: a protocol that is not empty, no further colon, no further at sign after
  the colon, and two texts that \<open>stoi\<close> reads to their end as a port between 1 and 65535 and a
  positive interval. What is accepted is what was written, and printed options are read back.
\<close>

theorem mtcl_options_read_exactly:
  "(parse_mtcl_options opts = Inr (proto, port, interval) \<longleftrightarrow>
     (\<exists>ps vs. opts = proto @ '':'' @ ps @ ''@'' @ vs \<and> proto \<noteq> [] \<and> CHR '':'' \<notin> set (proto @ ps @ vs) \<and>
        CHR ''@'' \<notin> set (ps @ vs) \<and> stoi ps = Inr (port, length ps) \<and> stoi vs = Inr (interval, length vs) \<and>
        0 < port \<and> port \<le> 65535 \<and> 0 < interval)) \<and>
   (proto \<noteq> [] \<and> CHR '':'' \<notin> set proto \<and> 0 < port \<and> port \<le> 65535 \<and> 0 < interval \<and> interval < 2 ^ 31 \<longrightarrow>
     parse_mtcl_options (proto @ '':'' @ show_int port @ ''@'' @ show_int interval) = Inr (proto, port, interval))"
proof (intro conjI impI)
  show "parse_mtcl_options opts = Inr (proto, port, interval) \<longleftrightarrow>
     (\<exists>ps vs. opts = proto @ '':'' @ ps @ ''@'' @ vs \<and> proto \<noteq> [] \<and> CHR '':'' \<notin> set (proto @ ps @ vs) \<and>
        CHR ''@'' \<notin> set (ps @ vs) \<and> stoi ps = Inr (port, length ps) \<and> stoi vs = Inr (interval, length vs) \<and>
        0 < port \<and> port \<le> 65535 \<and> 0 < interval)"
    unfolding mtcl_options_def [symmetric] using parse_mtcl_options_sound parse_mtcl_options_complete by blast
  assume a: "proto \<noteq> [] \<and> CHR '':'' \<notin> set proto \<and> 0 < port \<and> port \<le> 65535 \<and> 0 < interval \<and> interval < 2 ^ 31"
  then have "in_range 32 port" "in_range 32 interval" by (simp_all add: in_range_def)
  then show "parse_mtcl_options (proto @ '':'' @ show_int port @ ''@'' @ show_int interval) = Inr (proto, port, interval)"
    using a unfolding mtcl_options_def
    by (intro parse_mtcl_options_complete [unfolded mtcl_options_def])
       (rule exI [of _ "show_int port"], rule exI [of _ "show_int interval"], simp add: stoi_show_int)
qed

theorem mtcl_options_read_exactly_witness:
  "parse_mtcl_options (''TCP'' @ '':'' @ show_int 7600 @ ''@'' @ show_int 1000) = Inr (''TCP'', 7600, 1000)"
  using mtcl_options_read_exactly [of "[]" "''TCP''" 7600 1000] by simp

lemma configured_protocol:
  assumes "RuntimeConfiguration_new (Parsed a) env canonical = Inr c"
  shows "CHR '':'' \<notin> set (rt_mtcl_protocol c)"
proof -
  have "CHR '':'' \<notin> set proto" if "parse_mtcl_options opts = Inr (proto, port, interval)" for opts proto port interval
    using parse_mtcl_options_sound [OF that] by (auto simp: mtcl_options_def)
  then show ?thesis using assms
    by (auto simp: RuntimeConfiguration_new_def Let_def CAPIO_MTCL_DEFAULT_PROTOCOL_def split: if_splits sum.splits)
qed

section \<open>Cache lines\<close>

text \<open>
  C38: The server and the library read the size and the number of cache lines from the same variables, and
  have to agree on them because they share the queues. They always agree on the number. They
  agree on the size exactly when the number in \<open>CAPIO_CACHE_LINE_SIZE\<close> is positive: otherwise the
  library takes the default and the server the number as it is.
\<close>

theorem cache_line_size_agreement:
  assumes "RuntimeConfiguration_new (Parsed a) env canonical = Inr c"
  shows "rt_cache_lines c = get_cache_lines env \<and>
    (rt_cache_line_size c = get_cache_line_size env \<longleftrightarrow> 0 < rt_cache_line_size c)"
proof -
  have "rt_cache_lines c = env_number env ''CAPIO_CACHE_LINES'' CAPIO_CACHE_LINES_DEFAULT"
    "rt_cache_line_size c = env_number env ''CAPIO_CACHE_LINE_SIZE'' CAPIO_CACHE_LINE_SIZE_DEFAULT"
    using assms by (auto simp: RuntimeConfiguration_new_def Let_def split: if_splits sum.splits)
  then show ?thesis
    by (auto simp: env_number_def get_cache_lines_def get_cache_line_size_def Let_def CAPIO_CACHE_LINE_SIZE_DEFAULT_def
        split: option.splits)
qed

definition plain_cli :: cli where
  "plain_cli =
     \<lparr>a_resolve_prefix = None, a_config = None, a_no_config = True, a_backend = None, a_discovery = None, a_mcast_addr = None,
      a_mcast_port = None, a_token_directory = None, a_backend_options = None, a_continue_on_error = False, a_mem_only = False\<rparr>"

theorem cache_line_size_agreement_witness:
  "\<exists>c. RuntimeConfiguration_new (Parsed plain_cli) [''CAPIO_DIR'' \<mapsto> ''/d'', ''CAPIO_CACHE_LINE_SIZE'' \<mapsto> ''0''] Some = Inr c \<and>
     rt_cache_line_size c = 0 \<and> rt_cache_line_size c \<noteq> get_cache_line_size [''CAPIO_DIR'' \<mapsto> ''/d'', ''CAPIO_CACHE_LINE_SIZE'' \<mapsto> ''0'']"
proof -
  let ?env = "[''CAPIO_DIR'' \<mapsto> ''/d'', ''CAPIO_CACHE_LINE_SIZE'' \<mapsto> ''0'']"
  have z: "strtoll ''0'' = 0"
    by (simp add: strtoll_def next_int_def skip_space_def is_space_def is_digit_def digits_val_def digit_val_def)
  obtain c where c: "RuntimeConfiguration_new (Parsed plain_cli) ?env Some = Inr c" "rt_cache_line_size c = 0"
    by (simp add: RuntimeConfiguration_new_def plain_cli_def Let_def or_default_def resolve_capio_dir_def CAPIO_DIR_FORBIDDEN_PATHS_def
        env_number_def z CAPIO_MCAST_PROTO_FLAG_def CAPIO_FS_PROTO_FLAG_def)
  then show ?thesis using cache_line_size_agreement [OF c(1)] by auto
qed

end
