(* ===== verification/Discovery.thy ===== *)
theory Discovery
  imports Mtcl_Backend Runtime_Config
begin

text \<open>
  The discovery of other servers (\<open>server/src/discovery_service.cpp\<close>, \<open>fs_discovery_service.cpp\<close>,
  \<open>multicast_discovery_service.cpp\<close>) and the mark in shared memory that keeps two servers of one
  workflow apart (\<open>shm_canary.cpp\<close>).

  \<open>connect\<close> is \<open>backend->connect_to\<close>. The directory of tokens is what a scan finds in it, a list of
  files with their texts; a run of the scanning thread is a list of such scans. A multicast
  listener gets a list of datagrams. Sockets, sleeping and joining threads have no further effect
  in the model.

  The lemmas show what a scanning thread hands to the backend.
\<close>

section \<open>The mark in shared memory\<close>

text \<open>The names of the shared memory objects that exist.\<close>

definition CapioShmCanary_new :: "string \<Rightarrow> (unit, string set) comp" where
  "CapioShmCanary_new canary_name =
     (if canary_name = [] then failM ErrExit
      else bindM (getsM (\<lambda>shms. canary_name \<in> shms)) (\<lambda>exists.
        if exists then failM ErrExit else modifyM (insert canary_name)))"

text \<open>The destructor only warns when there is no such object.\<close>

definition CapioShmCanary_destroy :: "string \<Rightarrow> (unit, string set) comp" where
  "CapioShmCanary_destroy canary_name = modifyM (\<lambda>shms. shms - {canary_name})"

section \<open>Tokens in a directory\<close>

text \<open>\<open>input >> token\<close>.\<close>

definition read_token :: "string \<Rightarrow> string" where
  "read_token txt = (case next_word txt of None \<Rightarrow> [] | Some (w, _) \<Rightarrow> w)"

fun fs_scan :: "(string \<Rightarrow> (unit, 's) comp) \<Rightarrow> (path \<times> string) list \<Rightarrow> path list \<Rightarrow> (path list, 's) comp" where
  "fs_scan connect [] cache = returnM cache"
| "fs_scan connect ((entry, txt) # entries) cache =
     (if entry \<in> set cache then fs_scan connect entries cache
      else thenM (connect (read_token txt)) (fs_scan connect entries (cache @ [entry])))"

fun fs_scans :: "(string \<Rightarrow> (unit, 's) comp) \<Rightarrow> (path \<times> string) list list \<Rightarrow> path list \<Rightarrow> (path list, 's) comp" where
  "fs_scans connect [] cache = returnM cache"
| "fs_scans connect (entries # dirs) cache = bindM (fs_scan connect entries cache) (fs_scans connect dirs)"

definition fs_discovery_service :: "(string \<Rightarrow> (unit, 's) comp) \<Rightarrow> (path \<times> string) list list \<Rightarrow> (path list, 's) comp" where
  "fs_discovery_service connect dirs = fs_scans connect dirs []"

text \<open>\<open>FSDiscoveryInterface\<close>: its constructor, and \<open>start\<close> up to the start of the thread.\<close>

definition FSDiscoveryInterface_new :: "path \<Rightarrow> (path, path set) comp" where
  "FSDiscoveryInterface_new token_directory =
     (if token_directory = [] then failM runtime_error
      else bindM (getsM (\<lambda>dirs. token_directory \<in> dirs)) (\<lambda>exists.
        thenM (whenM (\<not> exists) (modifyM (insert token_directory))) (returnM token_directory)))"

text \<open>
  The file is created empty and then filled; a scan of another server sees the directory at any
  time. \<open>fs_publish\<close> is the directory after each of the two steps.
\<close>

definition fs_publish :: "string \<Rightarrow> string \<Rightarrow> (path \<times> string) list \<Rightarrow> (path \<times> string) list list" where
  "fs_publish node_name token dir =
     (let token_filename = node_name @ ''.capio''
      in [AList.update token_filename [] dir, AList.update token_filename token dir])"

definition fs_unpublish :: "string \<Rightarrow> (path \<times> string) list \<Rightarrow> (path \<times> string) list" where
  "fs_unpublish token_filename dir = (if token_filename = [] then dir else AList.delete token_filename dir)"

section \<open>Tokens by multicast\<close>

text \<open>A datagram as the listener passes it on: what fits into its buffer, up to the first zero.\<close>

definition mcast_token :: "string \<Rightarrow> string" where
  "mcast_token datagram = c_str (take (2 * HOST_NAME_MAX - 1) datagram)"

fun mcast_thread_discovery_service :: "(string \<Rightarrow> (unit, 's) comp) \<Rightarrow> string list \<Rightarrow> (unit, 's) comp" where
  "mcast_thread_discovery_service connect [] = returnM ()"
| "mcast_thread_discovery_service connect (datagram # ds) =
     thenM (whenM (datagram \<noteq> []) (connect (mcast_token datagram))) (mcast_thread_discovery_service connect ds)"

section \<open>The service\<close>

definition DiscoveryService_new :: "string \<Rightarrow> (unit, string set) comp" where
  "DiscoveryService_new workflow_name = CapioShmCanary_new workflow_name"

text \<open>\<open>start\<close>: the token and the delay handed to the interface.\<close>

definition DiscoveryService_start :: "string \<Rightarrow> int \<Rightarrow> fault + (string \<times> int)" where
  "DiscoveryService_start token adv_delay = (if token = [] then Inl runtime_error else Inr (token, adv_delay))"

section \<open>What a scanning thread passes on\<close>

text \<open>The text with which a file first appears in a sequence of scans.\<close>

definition first_text :: "(path \<times> string) list list \<Rightarrow> path \<Rightarrow> string option" where
  "first_text dirs = map_of (concat dirs)"

text \<open>A backend that writes down the tokens it gets.\<close>

definition note_token :: "string \<Rightarrow> (unit, string list) comp" where
  "note_token token = modifyM (\<lambda>tokens. tokens @ [token])"

fun new_entries :: "(path \<times> string) list \<Rightarrow> path list \<Rightarrow> (path \<times> string) list" where
  "new_entries [] cache = []"
| "new_entries ((p, t) # es) cache = (if p \<in> set cache then new_entries es cache else (p, t) # new_entries es (cache @ [p]))"

lemma new_entries_append: "new_entries (xs @ ys) cache = new_entries xs cache @ new_entries ys (cache @ map fst (new_entries xs cache))"
  by (induction xs cache rule: new_entries.induct) auto

lemma new_entries_first:
  "distinct (map fst (new_entries es cache)) \<and> set (new_entries es cache) = {(p, t). map_of es p = Some t \<and> p \<notin> set cache}"
proof (induction es cache rule: new_entries.induct)
  case (2 p t es cache)
  then show ?case by (cases "p \<in> set cache") (auto simp: image_iff split: if_splits)
qed simp

lemma fs_scan_run:
  "fs_scan connect es cache s = (case forM (\<lambda>e. connect (read_token (snd e))) (new_entries es cache) s of
     Inl e \<Rightarrow> Inl e | Inr (_, t) \<Rightarrow> Inr (cache @ map fst (new_entries es cache), t))"
  by (induction connect es cache arbitrary: s rule: fs_scan.induct)
     (auto simp: monad_simps split: sum.splits)

lemma forM_append: "forM f (xs @ ys) s = (case forM f xs s of Inl e \<Rightarrow> Inl e | Inr (_, t) \<Rightarrow> forM f ys t)"
  by (induction xs arbitrary: s) (auto simp: monad_simps split: sum.splits)

lemma fs_scans_run:
  "fs_scans connect dirs cache s = (case forM (\<lambda>e. connect (read_token (snd e))) (new_entries (concat dirs) cache) s of
     Inl e \<Rightarrow> Inl e | Inr (_, t) \<Rightarrow> Inr (cache @ map fst (new_entries (concat dirs) cache), t))"
proof (induction dirs arbitrary: cache s)
  case (Cons es dirs)
  show ?case
    by (auto simp: Cons.IH fs_scan_run new_entries_append forM_append bindM_def split: sum.splits)
qed (simp add: returnM_def)

text \<open>
  C39: A scanning thread passes on the token of each file once, as the file was when the thread first saw
  it. So if a scan happens between the creation of a token file and the writing of its token, the
  backend gets the empty token, with which it does nothing, and the server of that file is never
  connected, however often the directory is scanned afterwards.
\<close>

theorem fs_tokens_are_read_once:
  "\<exists>entries. distinct (map fst entries) \<and> set entries = {(p, t). first_text dirs p = Some t} \<and>
     fs_discovery_service connect dirs s =
       (case forM (\<lambda>e. connect (read_token (snd e))) entries s of Inl e \<Rightarrow> Inl e | Inr (_, t) \<Rightarrow> Inr (map fst entries, t)) \<and>
     connect_to M (read_token []) b = Inr ((), b)"
proof (rule exI [of _ "new_entries (concat dirs) []"], intro conjI)
  show "distinct (map fst (new_entries (concat dirs) []))"
    "set (new_entries (concat dirs) []) = {(p, t). first_text dirs p = Some t}"
    using new_entries_first [of "concat dirs" "[]"] by (simp_all add: first_text_def)
  show "fs_discovery_service connect dirs s = (case forM (\<lambda>e. connect (read_token (snd e))) (new_entries (concat dirs) []) s of
      Inl e \<Rightarrow> Inl e | Inr (_, t) \<Rightarrow> Inr (map fst (new_entries (concat dirs) []), t))"
    by (simp add: fs_discovery_service_def fs_scans_run split: sum.split)
  show "connect_to M (read_token []) b = Inr ((), b)"
    by (simp add: read_token_def next_word_def skip_space_def connect_to_def token_hostname_def find_char_def monad_simps)
qed

text \<open>The race of a publication with a scan, on a concrete directory.\<close>

lemma published_between_scans:
  "fs_discovery_service note_token (fs_publish ''n2'' ''TCP:n2:7600'' []) [] = Inr ([''n2.capio''], [[]])"
  by (simp add: fs_discovery_service_def fs_publish_def Let_def note_token_def read_token_def next_word_def skip_space_def monad_simps)

section \<open>Tokens by multicast\<close>

lemma mcast_token_whole:
  assumes "length token < 2 * HOST_NAME_MAX" and "CHR 0x00 \<notin> set token"
  shows "mcast_token token = token"
  using assms by (auto simp: mcast_token_def c_str_def takeWhile_eq_all_conv)

text \<open>
  C30: One workflow has one server on a node: while the mark of a workflow exists, no second server with
  the same name gets past its start, whatever the number of attempts, and after the first one
  has removed its mark the next one starts.
\<close>

theorem one_server_per_workflow:
  assumes "DiscoveryService_new name shms = Inr ((), shms1)"
  shows "DiscoveryService_new name shms1 = Inl ErrExit \<and>
    (\<forall>other t. DiscoveryService_new other shms1 = Inr ((), t) \<longrightarrow> other \<noteq> name \<and> DiscoveryService_new name t = Inl ErrExit) \<and>
    CapioShmCanary_destroy name shms1 = Inr ((), shms)"
  using assms
  by (auto simp: DiscoveryService_new_def CapioShmCanary_new_def CapioShmCanary_destroy_def monad_simps split: if_splits)

theorem one_server_per_workflow_witness:
  "DiscoveryService_new ''CAPIO'' {} = Inr ((), {''CAPIO''}) \<and> DiscoveryService_new ''CAPIO'' {''CAPIO''} = Inl ErrExit"
proof -
  have "DiscoveryService_new ''CAPIO'' {} = Inr ((), {''CAPIO''})"
    by (simp add: DiscoveryService_new_def CapioShmCanary_new_def monad_simps)
  then show ?thesis using one_server_per_workflow by blast
qed

end
