(* ===== verification/Cluster.thy ===== *)
theory Cluster
  imports Server_Data Mpi_Backend Discovery
begin

text \<open>
  Two servers: what one reads from a file that the other one holds.

  A server that does not hold a file sends a request to the server that does, over a transport.
  \<open>transport\<close> is what the handlers rely on: the text arrives with its terminating zero, and the
  data arrive as they were sent. The frames of the MTCL backend provide it. The lemmas follow a read:
  the request, the answer of the holder, and the storing of the data and the reply to the client.
\<close>

section \<open>The transport\<close>

definition all_known :: "cell list \<Rightarrow> bool" where
  "all_known xs \<longleftrightarrow> None \<notin> set xs"

locale transport =
  fixes carry :: "string \<Rightarrow> cell list \<Rightarrow> (string \<times> cell list) option"
  assumes carries: "length msg < CAPIO_SERVER_REQUEST_MAX_SIZE \<Longrightarrow> length xs \<le> MTCL_MAX_FILE_TRANSFER_SIZE \<Longrightarrow> all_known xs \<Longrightarrow>
    carry msg xs = Some (msg @ [CHR 0x00], xs)"

text \<open>What \<open>read_next_request\<close> and \<open>recv_file\<close> of the MTCL backend give for what \<open>send_file\<close> was passed.\<close>

definition mtcl_carry :: "string \<Rightarrow> cell list \<Rightarrow> (string \<times> cell list) option" where
  "mtcl_carry msg xs =
     (let frame = build_frame (printed msg) (if xs = [] then None else Some (map the xs))
      in case check_frame frame of
           Rejected \<Rightarrow> None
         | Accepted request None \<Rightarrow> Some (request, [])
         | Accepted request (Some offset) \<Rightarrow> Some (request, map Some (drop offset frame)))"

lemma char_byte_0: "byte_char 0 = CHR 0x00"
  by (simp add: byte_char_def char_of_def)

lemma byte_char_printed: "map byte_char (printed msg) = msg @ [CHR 0x00]"
  by (simp add: printed_def char_byte_0)

interpretation mtcl: transport mtcl_carry
proof
  fix msg :: string and xs :: "cell list"
  assume len: "length msg < CAPIO_SERVER_REQUEST_MAX_SIZE" "length xs \<le> MTCL_MAX_FILE_TRANSFER_SIZE" and known: "all_known xs"
  let ?m = "printed msg" and ?f = "map the xs"
  have ok: "frame_ok ?m ?f" using len by (simp add: frame_ok_def printed_def)
  have fr: "build_frame ?m (if xs = [] then None else Some ?f) = frame_bytes ?m ?f"
    using build_frame_bytes [of ?m ?f] by (simp add: opt_file_def)
  have "drop (MTCL_HEADER_SIZE + length ?m) (frame_bytes ?m ?f) = ?f"
    using frame_fields(5) [of ?m ?f] by (simp add: seg_def)
  moreover have "map Some ?f = xs" using known by (induction xs) (auto simp: all_known_def)
  ultimately show "mtcl_carry msg xs = Some (msg @ [CHR 0x00], xs)"
    unfolding mtcl_carry_def fr Let_def check_frame_bytes [OF ok] byte_char_printed by (cases "xs = []") simp_all
qed

section \<open>Messages\<close>

lemma show_args_no_zero:
  assumes "\<forall>v \<in> set vs. case v of IntA _ \<Rightarrow> True | StrA s \<Rightarrow> CHR 0x00 \<notin> set s"
  shows "CHR 0x00 \<notin> set (show_args vs)"
proof -
  have "CHR 0x00 \<notin> set (show_int i)" for i using show_int_chars [of "CHR 0x00" i] by (auto simp: is_digit_def)
  then show ?thesis using assms by (induction vs) (auto simp: show_args_def show_arg_def split: arg.splits)
qed

lemma message_received:
  fixes src :: string
  assumes "code < 100" and "vs \<noteq> []" and "\<forall>v \<in> set vs. case v of IntA _ \<Rightarrow> True | StrA s \<Rightarrow> CHR 0x00 \<notin> set s"
  defines "r \<equiv> RemoteRequest_new (request_text code vs @ [CHR 0x00]) src"
  shows "rr_code r = int code" and "rr_source r = src" and "get_content r = tl (show_args vs)"
proof -
  obtain xs where xs: "show_args vs = CHR '' '' # xs"
    using assms(2) by (cases vs) (simp_all add: show_args_def)
  have l: "length (show_pad4 code) = 4" using length_show_pad4 [OF assms(1)] .
  have "r = \<lparr>rr_source = src, rr_content = xs @ [CHR 0x00], rr_code = int code\<rparr>"
    unfolding r_def using xs l from_chars_show_pad4 [OF assms(1), of "show_args vs @ [CHR 0x00]"]
    by (simp add: RemoteRequest_new_def request_text_def nth_append)
  moreover have "CHR 0x00 \<notin> set xs" using show_args_no_zero [OF assms(3)] xs by simp
  ultimately show "rr_code r = int code" "rr_source r = src" "get_content r = tl (show_args vs)"
    using xs by (auto simp: get_content_def c_str_def takeWhile_tail)
qed

section \<open>The answer of the holder\<close>

lemma remote_read_answered:
  assumes "storage_find p s = Some i" and "s_files s i = Some f" and "file_wf f" and "0 \<le> off"
    and "isCommitted f \<or> cl_isFirable E p \<and> off + count \<le> getStoredSize f"
    and "{off..<off + remote_reply_size E f off} \<subseteq> covered (f_sectors f)"
    and "is_word p" and "CHR 0x00 \<notin> set p" and "in_range 32 tid" and "in_range 32 fd" and "in_range 64 count" and "in_range 64 off"
    and "0 \<le> remote_reply_size E f off"
  obtains xs where "capio_remote_listener E
      (RemoteRequest_new (request_text CAPIO_SERVER_REQUEST_READ [StrA p, IntA tid, IntA fd, IntA count, IntA off, arg_bool False] @ [CHR 0x00]) src)
      [] s =
      Inr ((), s\<lparr>s_sent := s_sent s @ [(src, request_text CAPIO_SERVER_REQUEST_READ_REPLY
        [IntA tid, IntA fd, IntA (to_int32 count), IntA (int (length xs)), IntA (getStoredSize f), arg_bool (isCommitted f), arg_bool False], xs)]\<rparr>)"
    and "int (length xs) = remote_reply_size E f off" and "reads f off xs"
proof -
  obtain xs where xs: "load_at off (remote_reply_size E f off) f = Inr xs" "int (length xs) = remote_reply_size E f off" "reads f off xs"
    using load_covered [OF assms(3,4,13,6)] by blast
  let ?vs = "[StrA p, IntA tid, IntA fd, IntA count, IntA off, arg_bool False]"
  let ?r = "RemoteRequest_new (request_text CAPIO_SERVER_REQUEST_READ ?vs @ [CHR 0x00]) src"
  have r: "rr_code ?r = int CAPIO_SERVER_REQUEST_READ" "rr_source ?r = src" "get_content ?r = tl (show_args ?vs)"
    using message_received [of CAPIO_SERVER_REQUEST_READ ?vs src] assms(8)
    by (simp_all add: CAPIO_SERVER_REQUEST_READ_def arg_bool_def)
  have sc: "scan (tl (show_args ?vs)) [Conv_s, Conv_d, Conv_d, Conv_ld, Conv_ld, Conv_d] = (returnM ?vs :: arg list srv)"
    by (rule scan_tl_show_args) (use assms(7,9-12) in \<open>simp add: arg_bool_def in_range_def\<close>)
  have g: "get_file p s = Inr (i, s)" "file_at i s = Inr (f, s)"
    using assms(1,2) by (simp_all add: get_file_def tryGet_def file_at_def monad_simps)
  have "capio_remote_listener E ?r [] s = remote_read_handler E ?r s"
    using r(1) by (simp add: capio_remote_listener_def server_request_handlers_def server_request_codes)
  also have "\<dots> = handle_remote_read E p src tid fd count off False s"
    unfolding remote_read_handler_def r sc by (simp add: str_arg_def int_arg_def arg_bool_def)
  also have "\<dots> = serve_remote_read E p src tid fd count off (isCommitted f) False s"
    using assms(5) by (auto simp: handle_remote_read_def bindM_def g Let_def)
  also have "\<dots> = Inr ((), s\<lparr>s_sent := s_sent s @ [(src, request_text CAPIO_SERVER_REQUEST_READ_REPLY
        [IntA tid, IntA fd, IntA (to_int32 count), IntA (int (length xs)), IntA (getStoredSize f), arg_bool (isCommitted f), arg_bool False], xs)]\<rparr>)"
    by (simp add: serve_remote_read_def bindM_def g Let_def liftM_def xs(1,2) serve_remote_read_request_def send_def modifyM_def)
  finally show thesis using xs(2,3) by (rule that)
qed

section \<open>The data at the reader\<close>

text \<open>The stored data: the buffer is made and grown, the data are copied in, and the sector is inserted.\<close>

lemma received_stored:
  assumes "fd_at s tid fd p i f off" and "file_wf f" and "valid_request f" and "nonneg_quota (env_quota E)" and "0 \<le> off" and "xs \<noteq> []"
    and "grants (env_sys E)" and "in_heap f"
  obtains f2 where "handle_remote_read_reply E xs tid fd count (int (length xs)) sz complete False s =
      handle_read_reply E tid fd count sz (int (length xs)) complete False (s\<lparr>s_files := (s_files s)(i \<mapsto> f2)\<rparr>)"
    and "file_wf (insertSector off (off + int (length xs)) f2)" and "written f off xs (insertSector off (off + int (length xs)) f2)"
    and "\<not> buf_empty (f_buffer f2)" and "f_sectors f2 = f_sectors f"
proof -
  let ?n = "int (length xs)" and ?S = "env_sys E" and ?q = "env_quota E"
  have fi: "s_files s i = Some f" using assms(1) by (simp add: fd_at_def)
  obtain f1 where f1: "prepare_buffer False ?S ?q p (off + ?n) f = Inr f1"
    using prepare_buffer_granted [OF assms(7,8,2,4,3), of False p "off + ?n"] by blast
  have f1': "file_wf f1" "\<not> buf_empty (f_buffer f1)" "off + ?n \<le> getBufSize f1" "f_sectors f1 = f_sectors f" "byte_at f1 = byte_at f"
    using prepare_buffer_ok [OF assms(2,4,3), where home = False and S = ?S and path = p and n = "off + ?n"] f1 by simp_all
  obtain f2 where f2: "store_at off xs f1 = Inr f2" "file_wf (insertSector off (off + ?n) f2)" "f_sectors f2 = f_sectors f1"
    "written f1 off xs (insertSector off (off + ?n) f2)"
    using store_insert_ok [OF f1'(1,2) assms(5) f1'(3)] by blast
  obtain f3 where "store_at off xs f1 = Inr f3" "\<not> buf_empty (f_buffer f3)" using store_at_fits [OF f1'(1,2) assms(5) f1'(3)] by blast
  then have ne: "\<not> buf_empty (f_buffer f2)" using f2(1) by simp
  let ?k = "handle_read_reply E tid fd count sz ?n complete False"
  have n0: "?n \<noteq> 0" using assms(6) by simp
  have "handle_remote_read_reply E xs tid fd count ?n sz complete False s =
      thenM (try_update_file i (createBuffer ?S ?q p False))
        (bindM (file_at i) (\<lambda>f. thenM (whenM (getBufSize f < off + ?n) (try_update_file i (expandBuffer ?S ?q (off + ?n))))
           (thenM (try_update_file i (readFromNode xs off)) ?k))) s"
    unfolding handle_remote_read_reply_def using n0
    by (simp add: bindM_def [of "getPath tid fd"] bindM_def [of "getFileOffset tid fd"] bindM_def [of "get_file p"] fd_at_lookups [OF assms(1)]
        whenM_def thenM_def bindM_assoc)
  also have "\<dots> = thenM (try_update_file i (readFromNode xs off)) ?k (s\<lparr>s_files := (s_files s)(i \<mapsto> f1)\<rparr>)"
    using prepare_run [OF fi, where home = False and S = ?S and quota = ?q and p = p and n = "off + ?n"] f1 by simp
  also have "\<dots> = ?k (s\<lparr>s_files := (s_files s)(i \<mapsto> f2)\<rparr>)"
    using f2(1) by (simp add: readFromNode_def try_update_file_def file_at_def set_file_def monad_simps)
  finally show thesis using f2(2) _ ne _
    by (rule that) (use f2(3,4) f1'(4,5) in \<open>simp_all add: written_def\<close>)
qed

lemma read_reply_run:
  assumes "fd_at s tid fd p i f off" and "can_reply s tid rs q ds" and "\<not> buf_empty (f_buffer f)" and "0 \<le> off"
    and "file_wf (insertSector off (off + n) f)" and "0 \<le> count" and "count \<le> n" and "0 < n" and "wf_sectors (f_sectors f)"
  obtains ys os g where "handle_read_reply E tid fd count sz n complete False s =
      Inr ((), s\<lparr>s_files := (s_files s)(i \<mapsto> g), s_responses := (s_responses s)(tid \<mapsto> rs @ [off + count]),
        s_data_buffers := (s_data_buffers s)(tid \<mapsto> (q, ds @ [ys])), s_offsets := os\<rparr>)"
    and "same_storage (insertSector off (off + n) f) g" and "int (length ys) = count" and "reads g off ys"
    and "fd_at (s\<lparr>s_files := (s_files s)(i \<mapsto> g), s_responses := (s_responses s)(tid \<mapsto> rs @ [off + count]),
        s_data_buffers := (s_data_buffers s)(tid \<mapsto> (q, ds @ [ys])), s_offsets := os\<rparr>) tid fd p i g (off + count)"
proof -
  define g where "g = setCommitted complete (insertSector off (off + n) (setRealFileSize sz f))"
  have same: "same_storage (insertSector off (off + n) f) g"
    by (simp add: g_def same_storage_def setCommitted_def insertSector_def setRealFileSize_def Let_def)
  have wf: "file_wf g" by (rule file_wf_same_storage [OF same assms(5)])
  have sec: "f_sectors g = ss_insertSector off (off + n) (f_sectors f)" "f_buffer g = f_buffer f"
    using same by (simp_all add: same_storage_def insertSector_def)
  let ?s = "s\<lparr>s_files := (s_files s)(i \<mapsto> g)\<rparr>"
  have fi: "s_files s i = Some f" using assms(1) by (simp add: fd_at_def)
  have fd: "fd_at ?s tid fd p i g off" using assms(1) by (simp add: fd_at_def storage_find_def)
  have run: "off + n \<le> getSectorEnd off g"
    using ss_index.inserted_run [of "f_sectors f" off "off + n"] assms(4,8,9) sec by (simp add: getSectorEnd_def)
  have "{off..<off + n} \<subseteq> covered (f_sectors g)"
    using ss_index.ins_marks [of "f_sectors f" off "off + n"] assms(4,8,9) sec(1) by auto
  then have "{off..<off + count} \<subseteq> covered (f_sectors g)" using assms(7) by auto
  then obtain ys where ys: "load_at off count g = Inr ys" "int (length ys) = count" "reads g off ys"
    using load_covered [OF wf assms(4,6)] by blast
  have bytes: "(if off + count < getSectorEnd off g then count else getSectorEnd off g - off) = count" using run assms(7) by auto
  have "handle_read_reply E tid fd count sz n complete False s =
      thenM (try_update_file i (createBuffer (env_sys E) (env_quota E) p False)) (reply_bytes tid fd i off count) ?s"
    unfolding handle_read_reply_def reply_bytes_def
    by (simp add: bindM_def [of "getPath tid fd"] bindM_def [of "getFileOffset tid fd"] bindM_def [of "get_file p"] fd_at_lookups [OF assms(1)]
        update_file_def file_at_def set_file_def thenM_def bindM_def getsM_def modifyM_def fi g_def [symmetric] Let_def bytes)
  moreover have cr: "can_reply ?s tid rs q ds" and ne: "\<not> buf_empty (f_buffer g)" using assms(2,3) sec(2) by (simp_all add: can_reply_def)
  moreover obtain os where "thenM (try_update_file i (createBuffer (env_sys E) (env_quota E) p False)) (reply_bytes tid fd i off count) ?s =
      Inr ((), ?s\<lparr>s_responses := (s_responses ?s)(tid \<mapsto> rs @ [off + count]),
        s_data_buffers := (s_data_buffers ?s)(tid \<mapsto> (q, ds @ [ys])), s_offsets := os\<rparr>)"
    "fd_at (?s\<lparr>s_responses := (s_responses ?s)(tid \<mapsto> rs @ [off + count]),
        s_data_buffers := (s_data_buffers ?s)(tid \<mapsto> (q, ds @ [ys])), s_offsets := os\<rparr>) tid fd p i g (off + count)"
    by (rule serve_run [OF fd cr ne ys(1)])
  ultimately show thesis using same ys(2,3) by (intro that [where g = g and os = os and ys = ys]) simp_all
qed

section \<open>A read\<close>

text \<open>A client of the reader has the file open at an offset, and the reader knows which server holds it.\<close>

definition reader :: "env \<Rightarrow> server \<Rightarrow> int \<Rightarrow> int \<Rightarrow> path \<Rightarrow> nat \<Rightarrow> capio_file \<Rightarrow> off64 \<Rightarrow> off64 list \<Rightarrow> slot_queue \<Rightarrow> cell list list \<Rightarrow> string \<Rightarrow> bool" where
  "reader E s tid fd p i f off rs q ds holder \<longleftrightarrow>
     fd_at s tid fd p i f off \<and> can_reply s tid rs q ds \<and> 0 \<le> off \<and> file_wf f \<and> valid_request f \<and> in_heap f \<and>
     nonneg_quota (env_quota E) \<and> grants (env_sys E) \<and>
     (\<exists>node loc. s_locations s p = Some (node, loc) \<and> node_str E node = holder)"

text \<open>The holder has the bytes of a read, and may send them: the file is complete, or may be read while it is written.\<close>

definition holder_of :: "env \<Rightarrow> server \<Rightarrow> path \<Rightarrow> capio_file \<Rightarrow> off64 \<Rightarrow> off64 \<Rightarrow> bool" where
  "holder_of E s p f off count \<longleftrightarrow>
     (\<exists>i. storage_find p s = Some i \<and> s_files s i = Some f) \<and> file_wf f \<and>
     (isCommitted f \<or> cl_isFirable E p \<and> off + count \<le> getStoredSize f) \<and>
     count \<le> remote_reply_size E f off \<and> remote_reply_size E f off \<le> int MTCL_MAX_FILE_TRANSFER_SIZE \<and>
     (\<forall>x \<in> {off..<off + remote_reply_size E f off}. \<exists>b. byte_at f x = Some (Some b))"

definition read_request :: "path \<Rightarrow> int \<Rightarrow> int \<Rightarrow> off64 \<Rightarrow> off64 \<Rightarrow> string" where
  "read_request p tid fd count off =
     request_text CAPIO_SERVER_REQUEST_READ [StrA p, IntA tid, IntA fd, IntA count, IntA off, arg_bool False]"

definition read_reply :: "capio_file \<Rightarrow> int \<Rightarrow> int \<Rightarrow> off64 \<Rightarrow> nat \<Rightarrow> string" where
  "read_reply f tid fd count n =
     request_text CAPIO_SERVER_REQUEST_READ_REPLY
       [IntA tid, IntA fd, IntA (to_int32 count), IntA (int n), IntA (getStoredSize f), arg_bool (isCommitted f), arg_bool False]"

lemma length_show_args_ints: "list_all (\<lambda>v. in_range 64 v) vs \<Longrightarrow> length (show_args (map IntA vs)) \<le> 21 * length vs"
  by (induction vs) (use length_show_int in \<open>force simp: show_args_def show_arg_def\<close>)+

lemma read_request_short:
  assumes "length p \<le> 4096" and "in_range 64 tid" and "in_range 64 fd" and "in_range 64 count" and "in_range 64 off"
  shows "length (read_request p tid fd count off) < CAPIO_SERVER_REQUEST_MAX_SIZE"
proof -
  have "length (show_args (map IntA [tid, fd, count, off, 0])) \<le> 21 * length [tid, fd, count, off, 0]"
    by (rule length_show_args_ints) (use assms in \<open>simp add: in_range_def\<close>)
  then show ?thesis using assms(1)
    by (simp add: read_request_def request_text_def length_show_pad4 CAPIO_SERVER_REQUEST_READ_def arg_bool_def mtcl_sizes show_args_def
        show_arg_def)
qed

lemma read_reply_short:
  assumes "in_range 64 tid" and "in_range 64 fd" and "in_range 64 (to_int32 count)" and "in_range 64 (int n)" and "in_range 64 (getStoredSize f)"
  shows "length (read_reply f tid fd count n) < CAPIO_SERVER_REQUEST_MAX_SIZE"
proof -
  let ?vs = "[tid, fd, to_int32 count, int n, getStoredSize f, of_bool (isCommitted f), 0]"
  have "length (show_args (map IntA ?vs)) \<le> 21 * length ?vs"
    by (rule length_show_args_ints) (use assms in \<open>simp add: in_range_def\<close>)
  then show ?thesis
    by (simp add: read_reply_def request_text_def length_show_pad4 CAPIO_SERVER_REQUEST_READ_REPLY_def arg_bool_def mtcl_sizes)
qed

lemma reads_known:
  assumes "reads f off xs" and "\<forall>x \<in> {off..<off + int (length xs)}. \<exists>b. byte_at f x = Some (Some b)"
  shows "all_known xs"
  unfolding all_known_def
proof
  assume "None \<in> set xs"
  then obtain k where k: "k < length xs" "xs ! k = None" by (auto simp: in_set_conv_nth)
  then have "byte_at f (off + int k) = Some None" using assms(1) by (simp add: reads_def)
  moreover have "off + int k \<in> {off..<off + int (length xs)}" using k(1) by simp
  ultimately show False using assms(2) by fastforce
qed

lemma byte_at_covered: "byte_at f x = Some c \<Longrightarrow> x \<in> covered (f_sectors f)"
  by (simp add: byte_at_def split: if_splits)

lemma request_sent:
  assumes "reader E s tid fd p i f off rs q ds holder"
  shows "handle_remote_read_request E tid fd count False s =
    Inr ((), s\<lparr>s_sent := s_sent s @ [(holder, read_request p tid fd count off, [])]\<rparr>)"
proof -
  obtain node loc where n: "s_locations s p = Some (node, loc)" "node_str E node = holder"
    using assms unfolding reader_def by blast
  have fd: "fd_at s tid fd p i f off" using assms by (simp add: reader_def)
  show ?thesis
    unfolding handle_remote_read_request_def
    by (simp add: bindM_def fd_at_lookups [OF fd] get_file_location_def get_file_location_opt_def getsM_def optM_def returnM_def n
        send_def modifyM_def read_request_def)
qed

lemma written_reads:
  assumes "written f off xs g" and "reads g off ys" and "length ys \<le> length xs"
  shows "ys = take (length ys) xs"
proof (rule nth_equalityI)
  fix k assume k: "k < length ys"
  then have "byte_at g (off + int k) = Some (ys ! k)" using assms(2) by (simp add: reads_def)
  moreover have "byte_at g (off + int k) = Some (xs ! k)" using assms(1,3) k by (simp add: written_def)
  ultimately show "ys ! k = take (length ys) xs ! k" using k by simp
qed (use assms(3) in simp)

lemma reply_taken:
  assumes "reader E s tid fd p i f off rs q ds holder" and "xs \<noteq> []" and "0 \<le> count" and "count \<le> int (length xs)"
    and "in_range 32 tid" and "in_range 32 fd" and "in_range 32 count" and "in_range 64 (int (length xs))" and "in_range 64 (getStoredSize h)"
  obtains t g where "capio_remote_listener E (RemoteRequest_new (read_reply h tid fd count (length xs) @ [CHR 0x00]) src) xs s = Inr ((), t)"
    and "fd_at t tid fd p i g (off + count)" and "written f off xs g"
    and "s_responses t tid = Some (rs @ [off + count])" and "s_data_buffers t tid = Some (q, ds @ [take (nat count) xs])"
proof -
  note rd = assms(1) [unfolded reader_def]
  let ?n = "int (length xs)"
  let ?vs = "[IntA tid, IntA fd, IntA count, IntA ?n, IntA (getStoredSize h), arg_bool (isCommitted h), arg_bool False]"
  let ?r = "RemoteRequest_new (request_text CAPIO_SERVER_REQUEST_READ_REPLY ?vs @ [CHR 0x00]) src"
  have rp: "read_reply h tid fd count (length xs) = request_text CAPIO_SERVER_REQUEST_READ_REPLY ?vs"
    using assms(7) by (simp add: read_reply_def)
  have r: "rr_code ?r = int CAPIO_SERVER_REQUEST_READ_REPLY" "get_content ?r = tl (show_args ?vs)"
    using message_received [of CAPIO_SERVER_REQUEST_READ_REPLY ?vs src]
    by (simp_all add: CAPIO_SERVER_REQUEST_READ_REPLY_def arg_bool_def)
  have "in_range 64 count" using assms(7) by (simp add: in_range_def)
  then have sc: "scan (tl (show_args ?vs)) [Conv_d, Conv_d, Conv_ld, Conv_ld, Conv_ld, Conv_d, Conv_d] = (returnM ?vs :: arg list srv)"
    by (intro scan_tl_show_args) (use assms(5-9) in \<open>simp add: arg_bool_def in_range_def\<close>)
  have fd: "fd_at s tid fd p i f off" and off: "0 \<le> off" and f: "file_wf f" "valid_request f" "in_heap f"
    and q: "nonneg_quota (env_quota E)" and gr: "grants (env_sys E)" and cr: "can_reply s tid rs q ds" using rd by simp_all
  obtain f2 where f2: "handle_remote_read_reply E xs tid fd count ?n (getStoredSize h) (isCommitted h) False s =
      handle_read_reply E tid fd count (getStoredSize h) ?n (isCommitted h) False (s\<lparr>s_files := (s_files s)(i \<mapsto> f2)\<rparr>)"
    "file_wf (insertSector off (off + ?n) f2)" "written f off xs (insertSector off (off + ?n) f2)" "\<not> buf_empty (f_buffer f2)"
    "f_sectors f2 = f_sectors f"
    by (rule received_stored [OF fd f(1,2) q off assms(2) gr f(3)])
  let ?s = "s\<lparr>s_files := (s_files s)(i \<mapsto> f2)\<rparr>"
  have fd2: "fd_at ?s tid fd p i f2 off" using fd by (simp add: fd_at_def storage_find_def)
  have cr2: "can_reply ?s tid rs q ds" using cr by (simp add: can_reply_def)
  have n0: "0 < ?n" using assms(2) by simp
  have ws: "wf_sectors (f_sectors f2)" using f(1) f2(5) by (simp add: file_wf_def)
  obtain ys os g where g: "handle_read_reply E tid fd count (getStoredSize h) ?n (isCommitted h) False ?s =
      Inr ((), ?s\<lparr>s_files := (s_files ?s)(i \<mapsto> g), s_responses := (s_responses ?s)(tid \<mapsto> rs @ [off + count]),
        s_data_buffers := (s_data_buffers ?s)(tid \<mapsto> (q, ds @ [ys])), s_offsets := os\<rparr>)"
    "same_storage (insertSector off (off + ?n) f2) g" "int (length ys) = count" "reads g off ys"
    "fd_at (?s\<lparr>s_files := (s_files ?s)(i \<mapsto> g), s_responses := (s_responses ?s)(tid \<mapsto> rs @ [off + count]),
        s_data_buffers := (s_data_buffers ?s)(tid \<mapsto> (q, ds @ [ys])), s_offsets := os\<rparr>) tid fd p i g (off + count)"
    by (rule read_reply_run [OF fd2 cr2 f2(4) off f2(2) assms(3,4) n0 ws])
  have "byte_at g = byte_at (insertSector off (off + ?n) f2)"
    using g(2) by (intro ext) (simp add: same_storage_def byte_at_def)
  then have w: "written f off xs g" using f2(3) by (simp add: written_def)
  have ly: "length ys = nat count" and "length ys \<le> length xs" using g(3) assms(4) by simp_all
  then have ys: "ys = take (nat count) xs" using written_reads [OF w g(4)] by simp
  have "capio_remote_listener E ?r xs s = remote_read_reply_handler E ?r xs s"
    using r(1) by (simp add: capio_remote_listener_def server_request_handlers_def server_request_codes)
  moreover have "remote_read_reply_handler E ?r xs s =
      handle_remote_read_reply E xs tid fd count ?n (getStoredSize h) (isCommitted h) False s"
    unfolding remote_read_reply_handler_def r sc by (simp add: int_arg_def arg_bool_def)
  ultimately have "capio_remote_listener E (RemoteRequest_new (read_reply h tid fd count (length xs) @ [CHR 0x00]) src) xs s =
      Inr ((), ?s\<lparr>s_files := (s_files ?s)(i \<mapsto> g), s_responses := (s_responses ?s)(tid \<mapsto> rs @ [off + count]),
        s_data_buffers := (s_data_buffers ?s)(tid \<mapsto> (q, ds @ [ys])), s_offsets := os\<rparr>)"
    unfolding rp using f2(1) g(1) by simp
  then show thesis by (rule that [OF _ g(5) w]) (simp_all add: ys)
qed

context transport
begin

lemma remote_read:
  assumes "reader EB sB tid fd p i f off rs q ds (be_node_name EA)" and "holder_of EA sA p h off count" and "0 < count"
    and "is_word p" and "CHR 0x00 \<notin> set p" and "length p \<le> 4096" and "in_range 32 tid" and "in_range 32 fd" and "in_range 32 count"
    and "in_range 64 off" and "in_range 64 (getStoredSize h)"
  shows "\<exists>data t g. handle_remote_read_request EB tid fd count False sB =
      Inr ((), sB\<lparr>s_sent := s_sent sB @ [(be_node_name EA, read_request p tid fd count off, [])]\<rparr>) \<and>
    carry (read_request p tid fd count off) [] = Some (read_request p tid fd count off @ [CHR 0x00], []) \<and>
    capio_remote_listener EA (RemoteRequest_new (read_request p tid fd count off @ [CHR 0x00]) (be_node_name EB)) [] sA =
      Inr ((), sA\<lparr>s_sent := s_sent sA @ [(be_node_name EB, read_reply h tid fd count (length data), data)]\<rparr>) \<and>
    carry (read_reply h tid fd count (length data)) data = Some (read_reply h tid fd count (length data) @ [CHR 0x00], data) \<and>
    capio_remote_listener EB (RemoteRequest_new (read_reply h tid fd count (length data) @ [CHR 0x00]) (be_node_name EA)) data sB = Inr ((), t) \<and>
    fd_at t tid fd p i g (off + count) \<and> written f off data g \<and> reads h off data \<and>
    s_responses t tid = Some (rs @ [off + count]) \<and> s_data_buffers t tid = Some (q, ds @ [take (nat count) data])"
proof -
  let ?k = "remote_reply_size EA h off"
  obtain iA where A: "storage_find p sA = Some iA" "s_files sA iA = Some h" and wf: "file_wf h"
    and may: "isCommitted h \<or> cl_isFirable EA p \<and> off + count \<le> getStoredSize h" and size: "count \<le> ?k" "?k \<le> int MTCL_MAX_FILE_TRANSFER_SIZE"
    and known: "\<forall>x \<in> {off..<off + ?k}. \<exists>b. byte_at h x = Some (Some b)"
    using assms(2) unfolding holder_of_def by blast
  have off: "0 \<le> off" using assms(1) by (simp add: reader_def)
  have cov: "{off..<off + ?k} \<subseteq> covered (f_sectors h)" using known by (meson byte_at_covered subsetI)
  have r64: "in_range 64 tid" "in_range 64 fd" "in_range 64 count" "in_range 64 (to_int32 count)"
    using assms(7-9) by (simp_all add: in_range_def)
  have k0: "0 \<le> ?k" using size(1) assms(3) by simp
  obtain data where data: "capio_remote_listener EA (RemoteRequest_new (read_request p tid fd count off @ [CHR 0x00]) (be_node_name EB)) [] sA =
      Inr ((), sA\<lparr>s_sent := s_sent sA @ [(be_node_name EB, read_reply h tid fd count (length data), data)]\<rparr>)"
    "int (length data) = ?k" "reads h off data"
    unfolding read_request_def read_reply_def
    by (rule remote_read_answered [OF A wf off may cov assms(4,5,7,8) r64(3) assms(10) k0])
  have kn: "all_known data" by (rule reads_known [OF data(3)]) (use known data(2) in simp)
  have "int MTCL_MAX_FILE_TRANSFER_SIZE < 2 ^ 63" by (simp add: mtcl_sizes)
  then have n64: "in_range 64 (int (length data))" using data(2) size(2) k0 by (simp add: in_range_def)
  have "data \<noteq> []" using data(2) size(1) assms(3) by auto
  then obtain t g where tg: "capio_remote_listener EB (RemoteRequest_new (read_reply h tid fd count (length data) @ [CHR 0x00]) (be_node_name EA)) data sB = Inr ((), t)"
    "fd_at t tid fd p i g (off + count)" "written f off data g" "s_responses t tid = Some (rs @ [off + count])"
    "s_data_buffers t tid = Some (q, ds @ [take (nat count) data])"
    using reply_taken [OF assms(1) _ _ _ assms(7-9) n64 assms(11)] data(2) size(1) assms(3) by (metis less_imp_le)
  have "carry (read_request p tid fd count off) [] = Some (read_request p tid fd count off @ [CHR 0x00], [])"
    by (rule carries) (use read_request_short [OF assms(6) r64(1-3) assms(10)] in \<open>simp_all add: all_known_def\<close>)
  moreover have "carry (read_reply h tid fd count (length data)) data = Some (read_reply h tid fd count (length data) @ [CHR 0x00], data)"
    by (rule carries) (use read_reply_short [OF r64(1,2,4) n64 assms(11)] size(2) data(2) kn in simp_all)
  ultimately show ?thesis using request_sent [OF assms(1)] data(1,3) tg by blast
qed

end


definition held_file :: capio_file where
  "held_file = (CapioFile_file False False 4 0)\<lparr>f_buffer := \<lparr>buf_data = Some [Some 1, Some 2, None, None], buf_size = 4, buf_storage = HeapStorageInterface\<rparr>,
     f_sectors := [(0, 2)], f_committed := True\<rparr>"

definition holding :: server where
  "holding = server_init\<lparr>s_storage := [(''/x'', 0)], s_files := [0 \<mapsto> held_file]\<rparr>"

definition asking :: server where
  "asking = opened\<lparr>s_responses := [7 \<mapsto> []], s_files := [0 \<mapsto> small_file]\<rparr>"

lemma asking_reader: "reader (env_example ''b'') asking 7 3 ''/x'' 0 small_file 0 [] (sq_new 4 8) [] ''a''"
proof -
  have "file_wf small_file" "valid_request small_file" "in_heap small_file"
    using writing_ready by (simp_all add: write_ready_def small_file_def in_heap_def addFd_def registerFirstWrite_def
        file_open_def CapioFile_dir_def CapioFile_default_def HeapBuffer_def)
  then show ?thesis
    by (simp add: reader_def asking_def opened_def connected_def server_init_def fd_at_def storage_find_def can_reply_def CAPIO_REQ_BUFF_CNT_def
        env_example_def nonneg_quota_def grants_def sys_ok_def node_str_def)
qed

lemma holding_holder: "holder_of (env_example ''a'') holding ''/x'' held_file 0 2"
proof -
  have "remote_reply_size (env_example ''a'') held_file 0 = 2"
    by (simp add: remote_reply_size_def held_file_def getStoredSize_def ss_getStoredSize_def env_example_def)
  moreover have "\<exists>b. byte_at held_file x = Some (Some b)" if "x \<in> {0..<2}" for x
  proof -
    have "x = 0 \<or> x = 1" using that by auto
    then show ?thesis by (auto simp: held_file_def byte_at_def covered_def cell_at_def)
  qed
  moreover have "file_wf held_file" "isCommitted held_file"
    by (simp_all add: held_file_def file_wf_def buf_wf_def buf_empty_def sectors_within_def isCommitted_def)
  ultimately show ?thesis
    by (auto simp: holder_of_def holding_def storage_find_def mtcl_sizes)
qed


end
