(* ===== verification/Lifecycle.thy ===== *)
theory Lifecycle
  imports Server_Tables Discovery
begin

unbundle bit_operations_syntax

text \<open>
  The life of a server process: \<open>main\<close> of \<open>server/capio_server.cpp\<close> up to the start of its two
  threads, the semaphore between them (\<open>common/semaphore.hpp\<close>), the installation of the signal
  handlers and the handler itself (\<open>server/include/utils/signals.hpp\<close>), which takes the process
  down.

  What outlives a process is the shared memory object of its workflow and the token files of the
  discovery; the lemmas show what becomes of them.
\<close>

section \<open>Semaphores\<close>

text \<open>\<open>Semaphore\<close> is a counter; \<open>lock\<close> waits while it is 0.\<close>

definition Semaphore_lock :: "(unit, nat) comp" where
  "Semaphore_lock = bindM (getsM (\<lambda>n. n = 0)) (\<lambda>zero. if zero then failM Blocked else modifyM (\<lambda>n. n - 1))"

definition Semaphore_unlock :: "(unit, nat) comp" where
  "Semaphore_unlock = modifyM Suc"

text \<open>
  \<open>NamedSemaphore\<close>: the counters of a node by name. \<open>sem_open\<close> with \<open>O_CREAT\<close> takes an existing
  semaphore with its value, and the destructor removes the name.
\<close>

definition NamedSemaphore_new :: "string \<Rightarrow> nat \<Rightarrow> (unit, string \<rightharpoonup> nat) comp" where
  "NamedSemaphore_new name init_value =
     modifyM (\<lambda>sems. case sems name of None \<Rightarrow> sems(name \<mapsto> init_value) | Some _ \<Rightarrow> sems)"

definition NamedSemaphore_destroy :: "string \<Rightarrow> (unit, string \<rightharpoonup> nat) comp" where
  "NamedSemaphore_destroy name = modifyM (\<lambda>sems. sems(name := None))"

definition NamedSemaphore_lock :: "string \<Rightarrow> (unit, string \<rightharpoonup> nat) comp" where
  "NamedSemaphore_lock name =
     bindM (getsM (\<lambda>sems. sems name)) (\<lambda>v.
       case v of
         None \<Rightarrow> failM Dangling
       | Some 0 \<Rightarrow> failM Blocked
       | Some (Suc n) \<Rightarrow> modifyM (\<lambda>sems. sems(name \<mapsto> n)))"

definition NamedSemaphore_unlock :: "string \<Rightarrow> (unit, string \<rightharpoonup> nat) comp" where
  "NamedSemaphore_unlock name =
     bindM (getsM (\<lambda>sems. sems name)) (\<lambda>v.
       case v of None \<Rightarrow> failM Dangling | Some n \<Rightarrow> modifyM (\<lambda>sems. sems(name \<mapsto> Suc n)))"

section \<open>Start\<close>

text \<open>
  What a start of the server finds and leaves on the node: the shared memory objects and the
  directories. A process that exits keeps what it has made so far.
\<close>

record node_state =
  ns_shms :: "string set"
  ns_dirs :: "path set"

record started_server =
  ss_config :: runtime_configuration
  ss_workflow :: string
  ss_discovery :: discovery_kind
  ss_backend :: backend_kind

text \<open>
  The interface of the discovery is made before the mark of the workflow, since it is an argument of
  the constructor; the backend comes after it.
\<close>

definition make_discovery_service :: "string \<Rightarrow> runtime_configuration \<Rightarrow> node_state \<Rightarrow> (fault + discovery_kind) \<times> node_state" where
  "make_discovery_service workflow c n =
     (let k = select_discovery_service c;
          interface = (case k of
              Discovery_mcast addr port \<Rightarrow> Inr ([], ns_dirs n)
            | Discovery_fs dir \<Rightarrow> FSDiscoveryInterface_new dir (ns_dirs n))
      in case interface of
           Inl e \<Rightarrow> (Inl e, n)
         | Inr (_, dirs) \<Rightarrow>
             (case DiscoveryService_new workflow (ns_shms n) of
                Inl e \<Rightarrow> (Inl e, n\<lparr>ns_dirs := dirs\<rparr>)
              | Inr (_, shms) \<Rightarrow> (Inr k, n\<lparr>ns_shms := shms, ns_dirs := dirs\<rparr>)))"

definition capio_main ::
    "bool \<Rightarrow> cli_result \<Rightarrow> (string \<Rightarrow> string option) \<Rightarrow> (path \<Rightarrow> path option) \<Rightarrow> (engine \<Rightarrow> string) \<Rightarrow> node_state
      \<Rightarrow> (fault + started_server) \<times> node_state" where
  "capio_main has_mpi args env canonical getWorkflowName n =
     (case RuntimeConfiguration_initialize args env canonical of
        Inl e \<Rightarrow> (Inl e, n)
      | Inr c \<Rightarrow>
          (let workflow = getWorkflowName (fst (createCapioClEngine env c))
           in case make_discovery_service workflow c n of
                (Inl e, n1) \<Rightarrow> (Inl e, n1)
              | (Inr k, n1) \<Rightarrow>
                  (case select_backend has_mpi c of
                     Inl e \<Rightarrow> (Inl e, n1)
                   | Inr b \<Rightarrow> (Inr \<lparr>ss_config = c, ss_workflow = workflow, ss_discovery = k, ss_backend = b\<rparr>, n1))))"

text \<open>
  The start of the two threads on the semaphore of \<open>main\<close>: \<open>capio_server\<close> makes the CAPIO directory
  and then unlocks it, the listener locks it first.
\<close>

definition server_thread_start :: "env \<Rightarrow> int \<Rightarrow> (unit, server \<times> nat) comp" where
  "server_thread_start E pid = (\<lambda>(s, sem).
     case capio_server_start E pid s of
       Inl e \<Rightarrow> Inl e
     | Inr (_, t) \<Rightarrow> (case Semaphore_unlock sem of Inl e \<Rightarrow> Inl e | Inr (_, sem') \<Rightarrow> Inr ((), t, sem')))"

definition listener_thread_start :: "(unit, server \<times> nat) comp" where
  "listener_thread_start = (\<lambda>(s, sem).
     case Semaphore_lock sem of Inl e \<Rightarrow> Inl e | Inr (_, sem') \<Rightarrow> Inr ((), s, sem'))"

section \<open>Signals\<close>

text \<open>SIGTERM, SIGILL, SIGABRT, SIGFPE, SIGSEGV, SIGQUIT, SIGPIPE and SIGINT, in the order of the calls.\<close>

definition handled_signals :: "int list" where
  "handled_signals = [15, 4, 6, 8, 11, 3, 13, 2]"

definition setup_signal_handlers :: "(int \<Rightarrow> int) \<Rightarrow> fault + unit" where
  "setup_signal_handlers sigaction =
     (if foldl (\<lambda>res sig. res OR sigaction sig) (sigaction (hd handled_signals)) (tl handled_signals) = - 1 then Inl ErrExit
      else Inr ())"

text \<open>The running process, with the MTCL backend; the other backends leave nothing behind on the node.\<close>

record ('w, 'h, 'r) process =
  pr_server :: server
  pr_backend :: "('w, 'h, 'r) mtcl_backend"
  pr_workflow :: string
  pr_shms :: "string set"
  pr_terminate :: bool
  pr_token_filename :: path
  pr_tokens :: "(path \<times> string) list"

text \<open>
  \<open>stop\<close> tells the thread of the discovery to end and joins it. The destructor of the discovery service
  runs after that of the backend; it stops the thread again and destroys the interface, which
  removes the token, before the mark. A build for coverage ends without any of this.
\<close>

definition discovery_stop :: "(unit, ('w, 'h, 'r) process) comp" where
  "discovery_stop = modifyM (\<lambda>p. p\<lparr>pr_terminate := True\<rparr>)"

definition on_server :: "unit srv \<Rightarrow> (unit, ('w, 'h, 'r) process) comp" where
  "on_server c p = (case c (pr_server p) of Inl e \<Rightarrow> Inl e | Inr (_, s) \<Rightarrow> Inr ((), p\<lparr>pr_server := s\<rparr>))"

definition on_backend :: "(unit, ('w, 'h, 'r) mtcl_backend) comp \<Rightarrow> (unit, ('w, 'h, 'r) process) comp" where
  "on_backend c p = (case c (pr_backend p) of Inl e \<Rightarrow> Inl e | Inr (_, b) \<Rightarrow> Inr ((), p\<lparr>pr_backend := b\<rparr>))"

definition DiscoveryService_destroy :: "(unit, ('w, 'h, 'r) process) comp" where
  "DiscoveryService_destroy =
     thenM discovery_stop
       (thenM (modifyM (\<lambda>p. p\<lparr>pr_tokens := fs_unpublish (pr_token_filename p) (pr_tokens p)\<rparr>))
         (\<lambda>p. case CapioShmCanary_destroy (pr_workflow p) (pr_shms p) of
                Inl e \<Rightarrow> Inl e
              | Inr (_, shms) \<Rightarrow> Inr ((), p\<lparr>pr_shms := shms\<rparr>)))"

definition sig_term_handler :: "bool \<Rightarrow> ('w, 'h, 'r) mtcl \<Rightarrow> (unit, ('w, 'h, 'r) process) comp" where
  "sig_term_handler coverage M =
     (if coverage then returnM ()
      else thenM discovery_stop
             (thenM (on_server ClientManager_destroy)
               (thenM (on_server StorageManager_destroy)
                 (thenM (on_backend (MTCLBackend_destroy M)) DiscoveryService_destroy))))"

section \<open>Lemmas\<close>

text \<open>The listener waits until the server has the CAPIO directory.\<close>

lemma listener_waits_for_server:
  "listener_thread_start (s, 0) = Inl Blocked"
  "server_thread_start E pid (s, 0) = Inr ((), t, sem) \<Longrightarrow>
     capio_server_start E pid s = Inr ((), t) \<and> listener_thread_start (t, sem) = Inr ((), t, 0)"
  by (auto simp: listener_thread_start_def server_thread_start_def Semaphore_lock_def Semaphore_unlock_def getsM_def modifyM_def bindM_def
      failM_def split: sum.splits)

text \<open>A semaphore that exists keeps its value, whatever the initial one.\<close>

lemma named_semaphore_keeps_value:
  "sems name = Some n \<Longrightarrow> NamedSemaphore_new name v sems = Inr ((), sems)"
  "sems name = None \<Longrightarrow> bindM (NamedSemaphore_new name 0) (\<lambda>_. NamedSemaphore_lock name) sems = Inl Blocked"
  by (simp_all add: NamedSemaphore_new_def NamedSemaphore_lock_def monad_simps)

lemma named_semaphore_unlock_lock:
  "sems name = Some n \<Longrightarrow> bindM (NamedSemaphore_unlock name) (\<lambda>_. NamedSemaphore_lock name) sems = Inr ((), sems)"
  by (simp add: NamedSemaphore_unlock_def NamedSemaphore_lock_def monad_simps fun_upd_idem)

text \<open>The results of \<open>sigaction\<close> are put together by \<open>OR\<close>: one failure is enough.\<close>

lemma setup_signal_handlers_fails:
  assumes "\<And>sig. sigaction sig \<in> {0, - 1}"
  shows "setup_signal_handlers sigaction = Inl ErrExit \<longleftrightarrow> (\<exists>sig \<in> set handled_signals. sigaction sig = - 1)"
proof -
  have or: "foldl (\<lambda>res sig. res OR sigaction sig) r sigs = (if r = - 1 \<or> (\<exists>sig \<in> set sigs. sigaction sig = - 1) then - 1 else 0)"
    if "r \<in> {0, - 1}" for r sigs
    using that
  proof (induction sigs arbitrary: r)
    case (Cons sig sigs)
    have "r OR sigaction sig \<in> {0, - 1}" using Cons.prems assms [of sig] by auto
    from Cons.IH [OF this] show ?case using Cons.prems assms [of sig] by auto
  qed auto
  show ?thesis
    unfolding setup_signal_handlers_def or [OF assms] by (auto simp: handled_signals_def)
qed

text \<open>A failed start: the mark of the workflow is made before the backend is chosen, and nobody removes it.\<close>

lemma failed_start_keeps_mark:
  assumes "RuntimeConfiguration_initialize args env canonical = Inr c" and "rt_backend_name c \<in> {''mpi'', ''mpisync''}"
    and "rt_discovery_type c = CAPIO_MCAST_PROTO_FLAG" and "wname (fst (createCapioClEngine env c)) = name" and "name \<noteq> []"
    and "name \<notin> ns_shms n"
  shows "\<exists>n1. capio_main False args env canonical wname n = (Inl ErrExit, n1) \<and> name \<in> ns_shms n1 \<and>
    (\<forall>has_mpi args' env' c'. RuntimeConfiguration_initialize args' env' canonical = Inr c' \<and>
       rt_discovery_type c' = CAPIO_MCAST_PROTO_FLAG \<and> wname (fst (createCapioClEngine env' c')) = name \<longrightarrow>
       capio_main has_mpi args' env' canonical wname n1 = (Inl ErrExit, n1))"
  using assms
  by (auto simp: capio_main_def Let_def make_discovery_service_def select_discovery_service_def DiscoveryService_new_def
      CapioShmCanary_new_def select_backend_def monad_simps)

subsection \<open>The descriptors of a server that ends\<close>

definition all_open :: "server \<Rightarrow> bool" where
  "all_open s \<longleftrightarrow> (\<forall>e \<in> snd ` set (s_fds s). t_pointer e \<noteq> None \<and> t_path e \<noteq> [])"

lemma removeFromTid_first:
  assumes "tables_wf s" and "all_open s" and "s_fds s = ((tid, fd), e) # es"
  obtains t where "removeFromTid tid fd s = Inr ((), t)" and "tables_wf t" and "s_fds t = es"
    and "s_responses t = s_responses s" and "s_data_buffers t = s_data_buffers s"
proof -
  have e: "map_of (s_fds s) (tid, fd) = Some e" "t_pointer e \<noteq> None" "t_path e \<noteq> []"
    using assms(2,3) by (simp_all add: all_open_def)
  then obtain i f where i: "t_pointer e = Some i" "s_files s i = Some f"
    using tables_wfD(3) [OF assms(1) e(1)] by (auto simp: fd_wf_def)
  have entry: "fd_entry tid fd s = Inr (e, s)"
    using e(1) unfolding fd_entry_def fd_find_def by (simp only: bindM_def getsM_def) (simp add: returnM_def)
  have "(tid, fd) \<notin> fst ` set es" using tables_wfD(2) [OF assms(1)] assms(3) by simp
  then have es: "AList.delete (tid, fd) (s_fds s) = es" by (simp add: assms(3) delete_id)
  let ?t = "s\<lparr>s_files := (s_files s)(i \<mapsto> removeFd tid fd f), s_fds := es\<rparr>"
  have r: "removeFromTid1 tid fd s = Inr (True, ?t)"
    unfolding removeFromTid1_def using entry e(3) i es
    by (simp add: bindM_def [of "fd_entry tid fd"] update_file_def file_at_def set_file_def monad_simps)
  show thesis
    by (rule that [of ?t]) (use r removeFromTid1_wf [OF assms(1) r] in \<open>simp_all add: removeFromTid_def monad_simps\<close>)
qed

lemma remove_all_fds:
  assumes "tables_wf s" and "all_open s"
  shows "\<exists>t. forM (\<lambda>(tid, fd). removeFromTid tid fd) (map fst (s_fds s)) s = Inr ((), t) \<and> s_fds t = [] \<and> tables_wf t \<and>
    s_responses t = s_responses s \<and> s_data_buffers t = s_data_buffers s"
  using assms
proof (induction "s_fds s" arbitrary: s)
  case Nil
  then show ?case by (simp add: returnM_def flip: Nil(1))
next
  case (Cons x es)
  obtain tid fd e where x: "x = ((tid, fd), e)" by (metis prod.exhaust)
  have fds: "s_fds s = ((tid, fd), e) # es" using Cons.hyps(2) x by simp
  obtain t where t: "removeFromTid tid fd s = Inr ((), t)" "tables_wf t" "s_fds t = es" "s_responses t = s_responses s"
    "s_data_buffers t = s_data_buffers s"
    by (rule removeFromTid_first [OF Cons.prems fds])
  have "all_open t" using Cons.prems(2) t(3) fds by (simp add: all_open_def)
  then obtain u where u: "forM (\<lambda>(tid, fd). removeFromTid tid fd) (map fst es) t = Inr ((), u)" "s_fds u = []" "tables_wf u"
    "s_responses u = s_responses t" "s_data_buffers u = s_data_buffers t"
    using Cons.hyps(1) [of t] t by auto
  then show ?case using t(1,4,5) by (simp add: fds thenM_def bindM_def)
qed

lemma StorageManager_destroy_empties:
  assumes "tables_wf s" and "all_open s"
  shows "\<exists>t. StorageManager_destroy s = Inr ((), t) \<and> s_fds t = [] \<and> tables_wf t \<and>
    s_responses t = s_responses s \<and> s_data_buffers t = s_data_buffers s"
  using remove_all_fds [OF assms] by (simp add: StorageManager_destroy_def getFileDescriptors_all_def bindM_def getsM_def)

section \<open>An orderly end\<close>

text \<open>
  C40: A signal ends a server without traces. From a state whose descriptors are open, the handler
  stops the discovery, ends the queues of all clients, removes all descriptors, closes all
  connections, and takes the token of the server and the mark of its workflow off the node; the
  tokens and marks of other servers stay. After that a server of the same workflow starts again.
\<close>

theorem shutdown_leaves_no_trace:
  assumes "tables_wf (pr_server p)" and "all_open (pr_server p)" and "pr_workflow p \<noteq> []" and "pr_token_filename p \<noteq> []"
  shows "\<exists>q. sig_term_handler False M p = Inr ((), q) \<and> pr_terminate q \<and> s_fds (pr_server q) = [] \<and>
    s_responses (pr_server q) = Map.empty \<and> s_data_buffers (pr_server q) = Map.empty \<and>
    mb_open_connections (pr_backend q) = [] \<and> \<not> mb_continue_execution (pr_backend q) \<and>
    map_of (pr_tokens q) = (map_of (pr_tokens p))(pr_token_filename p := None) \<and> pr_shms q = pr_shms p - {pr_workflow p} \<and>
    DiscoveryService_new (pr_workflow p) (pr_shms q) = Inr ((), insert (pr_workflow p) (pr_shms p))"
proof -
  let ?s = "(pr_server p)\<lparr>s_responses := Map.empty, s_data_buffers := Map.empty, s_app_names := Map.empty,
    s_by_producer := Map.empty, s_by_app := Map.empty, s_allowed := []\<rparr>"
  have "tables_wf ?s" by (rule wf_same_tables [OF _ assms(1)]) (simp add: same_tables_def)
  moreover have "all_open ?s" using assms(2) by (simp add: all_open_def)
  ultimately obtain t where t: "StorageManager_destroy ?s = Inr ((), t)" "s_fds t = []" "s_responses t = Map.empty"
    "s_data_buffers t = Map.empty" using StorageManager_destroy_empties [of ?s] by auto
  have "on_server ClientManager_destroy (p\<lparr>pr_terminate := True\<rparr>) = Inr ((), p\<lparr>pr_terminate := True, pr_server := ?s\<rparr>)"
    by (simp add: on_server_def ClientManager_destroy_def modifyM_def)
  moreover have "on_server StorageManager_destroy (p\<lparr>pr_terminate := True, pr_server := ?s\<rparr>) =
      Inr ((), p\<lparr>pr_terminate := True, pr_server := t\<rparr>)" using t(1) by (simp add: on_server_def)
  ultimately have run: "sig_term_handler False M p =
      thenM (on_backend (MTCLBackend_destroy M)) DiscoveryService_destroy (p\<lparr>pr_terminate := True, pr_server := t\<rparr>)"
    by (simp add: sig_term_handler_def discovery_stop_def thenM_def bindM_def modifyM_def)
  show ?thesis
    unfolding run using assms(3,4) t(2-4)
    by (simp add: on_backend_def DiscoveryService_destroy_def discovery_stop_def MTCLBackend_destroy_def doMtcl_def CapioShmCanary_destroy_def DiscoveryService_new_def
        CapioShmCanary_new_def fs_unpublish_def delete_conv' monad_simps)
qed

definition running_process :: "(byte list list, unit, nat) process" where
  "running_process =
     \<lparr>pr_server = opened, pr_backend = loop_backend [(''b'', \<lparr>mc_handle = (), mc_pending_sends = []\<rparr>)] [], pr_workflow = ''CAPIO'',
      pr_shms = {''CAPIO'', ''other''}, pr_terminate = False, pr_token_filename = ''a.capio'', pr_tokens = [(''a.capio'', ''t''), (''b.capio'', ''u'')]\<rparr>"

theorem shutdown_leaves_no_trace_witness:
  "\<exists>q. sig_term_handler False loop_mtcl running_process = Inr ((), q) \<and> s_fds (pr_server q) = [] \<and>
     mb_open_connections (pr_backend q) = [] \<and> map_of (pr_tokens q) ''a.capio'' = None \<and> map_of (pr_tokens q) ''b.capio'' = Some ''u'' \<and>
     pr_shms q = {''other''}"
proof -
  have "tables_wf opened" by (rule server_tables.reachable_keeps [OF tables_wf_init opened_reachable])
  then have "tables_wf (pr_server running_process)" "all_open (pr_server running_process)" "pr_workflow running_process \<noteq> []"
    "pr_token_filename running_process \<noteq> []"
    by (simp_all add: running_process_def all_open_def opened_def)
  from shutdown_leaves_no_trace [OF this, of loop_mtcl] obtain q where q: "sig_term_handler False loop_mtcl running_process = Inr ((), q)"
    "s_fds (pr_server q) = []" "mb_open_connections (pr_backend q) = []"
    "map_of (pr_tokens q) = (map_of (pr_tokens running_process))(pr_token_filename running_process := None)"
    "pr_shms q = pr_shms running_process - {pr_workflow running_process}" by (elim exE conjE) (rule that)
  have "pr_tokens running_process = [(''a.capio'', ''t''), (''b.capio'', ''u'')]" "pr_token_filename running_process = ''a.capio''"
    "pr_shms running_process - {pr_workflow running_process} = {''other''}"
    by (simp_all add: running_process_def insert_Diff_if)
  then show ?thesis using q(1-3) by (intro exI [of _ q] conjI) (simp_all add: q(4,5))
qed

end
